(* ===== verification/Checkpoint.thy ===== *)
theory Checkpoint
  imports Main
begin

text \<open>
  The capture-and-continue barrier of \<open>crates/mm-vmm/src/checkpoint.rs\<close>, with the thread that
  drives it (\<open>Machine::quiesce_at_barrier\<close> and \<open>release_barrier\<close> of
  \<open>crates/mm-vmm/src/machine.rs\<close>) and the vCPU threads and device workers that park at it.
  The three shared variables are atomics, so a step of the system is one load or store of one
  thread and the threads interleave in any order.  What a participant captures is its
  context, a number that grows with everything it executes.
\<close>

section \<open>The barrier\<close>

record Checkpoint =
  requested :: bool
  released :: bool
  parked :: nat

definition checkpoint_default :: Checkpoint where
  "checkpoint_default = \<lparr> requested = False, released = False, parked = 0 \<rparr>"

text \<open>The stores of \<open>request\<close> and of \<open>release\<close>, in their order, and those of \<open>park\<close>.\<close>

definition request_clear :: "Checkpoint \<Rightarrow> Checkpoint" where
  "request_clear c = c\<lparr> released := False \<rparr>"

definition request_set :: "Checkpoint \<Rightarrow> Checkpoint" where
  "request_set c = c\<lparr> requested := True \<rparr>"

definition is_requested :: "Checkpoint \<Rightarrow> bool" where
  "is_requested c \<longleftrightarrow> requested c"

definition park_enter :: "Checkpoint \<Rightarrow> Checkpoint" where
  "park_enter c = c\<lparr> parked := parked c + 1 \<rparr>"

definition park_leave :: "Checkpoint \<Rightarrow> Checkpoint" where
  "park_leave c = c\<lparr> parked := parked c - 1 \<rparr>"

definition release_clear :: "Checkpoint \<Rightarrow> Checkpoint" where
  "release_clear c = c\<lparr> requested := False \<rparr>"

definition release_set :: "Checkpoint \<Rightarrow> Checkpoint" where
  "release_set c = c\<lparr> released := True \<rparr>"

definition all_parked :: "nat \<Rightarrow> Checkpoint \<Rightarrow> bool" where
  "all_parked n c \<longleftrightarrow> n \<le> parked c"

definition all_resumed :: "Checkpoint \<Rightarrow> bool" where
  "all_resumed c \<longleftrightarrow> parked c = 0"


section \<open>The threads\<close>

text \<open>Where a participant is: running; having seen the request; having stored its capture;
  counted as parked and polling; having seen the release and about to count itself out.\<close>

datatype place = Running | Seen | Captured | Parked | Leaving

record participant =
  p_place :: place
  p_context :: nat
  p_slot :: "nat option"

text \<open>Where the driving thread is: between checkpoints; between the two stores of the request;
  polling for everyone to be parked; past that wait, with the guest taken to be quiescent;
  with the slots drained or the wait given up; between the two stores of the release; polling for everyone to be
  gone.\<close>

datatype driver = Idle | Requesting | Waiting | Quiesced | Collected | Releasing | Resuming

text \<open>\<open>c_timeouts\<close> counts the waits that gave up.\<close>

record csys =
  c_bar :: Checkpoint
  c_driver :: driver
  c_parts :: "participant list"
  c_timeouts :: nat

definition csys_start :: "nat \<Rightarrow> csys" where
  "csys_start n =
     \<lparr> c_bar = checkpoint_default, c_driver = Idle,
       c_parts = replicate n \<lparr> p_place = Running, p_context = 0, p_slot = None \<rparr>, c_timeouts = 0 \<rparr>"

definition update_part :: "nat \<Rightarrow> (participant \<Rightarrow> participant) \<Rightarrow> csys \<Rightarrow> csys" where
  "update_part i g s = s\<lparr> c_parts := (c_parts s)[i := g (c_parts s ! i)] \<rparr>"

definition place_is :: "nat \<Rightarrow> place \<Rightarrow> csys \<Rightarrow> bool" where
  "place_is i pl s \<longleftrightarrow> i < length (c_parts s) \<and> p_place (c_parts s ! i) = pl"

text \<open>The actions of the system, one per atomic access, and what each does; \<open>None\<close> when the
  thread is not at that point or its poll does not succeed.\<close>

datatype action = Execute nat | SeeRequest nat | Capture nat | ParkEnter nat | SeeRelease nat | ParkLeave nat
  | RequestClear | RequestSet | WaitParked | GiveUpParked | TakeSlots | ReleaseClear | ReleaseSet
  | WaitResumed | GiveUpResumed

fun act :: "action \<Rightarrow> csys \<Rightarrow> csys option" where
  "act (Execute i) s =
     (if place_is i Running s then Some (update_part i (\<lambda>p. p\<lparr> p_context := p_context p + 1 \<rparr>) s) else None)"
| "act (SeeRequest i) s =
     (if place_is i Running s \<and> is_requested (c_bar s)
      then Some (update_part i (\<lambda>p. p\<lparr> p_place := Seen \<rparr>) s) else None)"
| "act (Capture i) s =
     (if place_is i Seen s
      then Some (update_part i (\<lambda>p. p\<lparr> p_place := Captured, p_slot := Some (p_context p) \<rparr>) s) else None)"
| "act (ParkEnter i) s =
     (if place_is i Captured s
      then Some (update_part i (\<lambda>p. p\<lparr> p_place := Parked \<rparr>) (s\<lparr> c_bar := park_enter (c_bar s) \<rparr>)) else None)"
| "act (SeeRelease i) s =
     (if place_is i Parked s \<and> released (c_bar s)
      then Some (update_part i (\<lambda>p. p\<lparr> p_place := Leaving \<rparr>) s) else None)"
| "act (ParkLeave i) s =
     (if place_is i Leaving s
      then Some (update_part i (\<lambda>p. p\<lparr> p_place := Running \<rparr>) (s\<lparr> c_bar := park_leave (c_bar s) \<rparr>)) else None)"
| "act RequestClear s =
     (if c_driver s = Idle then Some (s\<lparr> c_bar := request_clear (c_bar s), c_driver := Requesting \<rparr>) else None)"
| "act RequestSet s =
     (if c_driver s = Requesting then Some (s\<lparr> c_bar := request_set (c_bar s), c_driver := Waiting \<rparr>) else None)"
| "act WaitParked s =
     (if c_driver s = Waiting \<and> all_parked (length (c_parts s)) (c_bar s)
      then Some (s\<lparr> c_driver := Quiesced \<rparr>) else None)"
| "act GiveUpParked s =
     (if c_driver s = Waiting
      then Some (s\<lparr> c_driver := Collected, c_timeouts := c_timeouts s + 1 \<rparr>) else None)"
| "act TakeSlots s =
     (if c_driver s = Quiesced
      then Some (s\<lparr> c_driver := Collected, c_parts := map (\<lambda>p. p\<lparr> p_slot := None \<rparr>) (c_parts s) \<rparr>) else None)"
| "act ReleaseClear s =
     (if c_driver s = Quiesced \<or> c_driver s = Collected
      then Some (s\<lparr> c_bar := release_clear (c_bar s), c_driver := Releasing \<rparr>) else None)"
| "act ReleaseSet s =
     (if c_driver s = Releasing then Some (s\<lparr> c_bar := release_set (c_bar s), c_driver := Resuming \<rparr>) else None)"
| "act WaitResumed s =
     (if c_driver s = Resuming \<and> all_resumed (c_bar s) then Some (s\<lparr> c_driver := Idle \<rparr>) else None)"
| "act GiveUpResumed s =
     (if c_driver s = Resuming
      then Some (s\<lparr> c_driver := Idle, c_timeouts := c_timeouts s + 1 \<rparr>) else None)"

inductive reachable :: "nat \<Rightarrow> csys \<Rightarrow> bool" for n where
  start: "reachable n (csys_start n)"
| step: "reachable n s \<Longrightarrow> act a s = Some s' \<Longrightarrow> reachable n s'"

fun acts :: "action list \<Rightarrow> csys \<Rightarrow> csys option" where
  "acts [] s = Some s"
| "acts (a # as) s = (case act a s of None \<Rightarrow> None | Some s' \<Rightarrow> acts as s')"


section \<open>The invariant\<close>

definition counted :: "participant \<Rightarrow> bool" where
  "counted p \<longleftrightarrow> p_place p = Parked \<or> p_place p = Leaving"

text \<open>The counter is the number of counted participants, and a participant that has captured
  has not executed since.\<close>

definition basic_inv :: "nat \<Rightarrow> csys \<Rightarrow> bool" where
  "basic_inv n s \<longleftrightarrow> length (c_parts s) = n \<and> parked (c_bar s) = length (filter counted (c_parts s))"

text \<open>Without a timeout: which places are possible at each point of the driver.\<close>

fun places_at :: "driver \<Rightarrow> participant \<Rightarrow> bool" where
  "places_at Idle p \<longleftrightarrow> p_place p = Running"
| "places_at Requesting p \<longleftrightarrow> p_place p = Running"
| "places_at Waiting p \<longleftrightarrow> p_place p \<noteq> Leaving \<and>
     (p_place p = Captured \<or> p_place p = Parked \<longrightarrow> p_slot p = Some (p_context p))"
| "places_at Quiesced p \<longleftrightarrow> p_place p = Parked \<and> p_slot p = Some (p_context p)"
| "places_at Collected p \<longleftrightarrow> p_place p = Parked"
| "places_at Releasing p \<longleftrightarrow> p_place p = Parked"
| "places_at Resuming p \<longleftrightarrow> counted p \<or> p_place p = Running"

fun flags_at :: "driver \<Rightarrow> Checkpoint \<Rightarrow> bool" where
  "flags_at Idle c \<longleftrightarrow> \<not> requested c"
| "flags_at Requesting c \<longleftrightarrow> \<not> requested c \<and> \<not> released c"
| "flags_at Waiting c \<longleftrightarrow> requested c \<and> \<not> released c"
| "flags_at Quiesced c \<longleftrightarrow> requested c \<and> \<not> released c"
| "flags_at Collected c \<longleftrightarrow> requested c \<and> \<not> released c"
| "flags_at Releasing c \<longleftrightarrow> \<not> requested c \<and> \<not> released c"
| "flags_at Resuming c \<longleftrightarrow> \<not> requested c \<and> released c"

definition barrier_inv :: "nat \<Rightarrow> csys \<Rightarrow> bool" where
  "barrier_inv n s \<longleftrightarrow> basic_inv n s \<and>
     (c_timeouts s = 0 \<longrightarrow>
        (\<forall>p \<in> set (c_parts s). places_at (c_driver s) p) \<and> flags_at (c_driver s) (c_bar s))"

lemmas bar_defs = request_clear_def request_set_def is_requested_def park_enter_def park_leave_def
  release_clear_def release_set_def all_parked_def all_resumed_def

lemma filter_list_update:
  assumes "i < length xs"
  shows "length (filter P (xs[i := x])) + (if P (xs ! i) then 1 else 0) = length (filter P xs) + (if P x then 1 else 0)"
  using assms
proof (induction xs arbitrary: i)
  case (Cons y ys)
  then show ?case by (cases i) auto
qed simp

lemma all_counted_iff: "length xs \<le> length (filter P xs) \<longleftrightarrow> (\<forall>x \<in> set xs. P x)"
  by (metis filter_id_conv length_filter_le length_filter_less linorder_not_less order_refl)

lemma ball_update_part:
  "\<forall>p \<in> set (c_parts s). Q p \<Longrightarrow> Q (g (c_parts s ! i)) \<Longrightarrow> \<forall>p \<in> set (c_parts (update_part i g s)). Q p"
  unfolding update_part_def using set_update_subset_insert [of "c_parts s" i] by fastforce

lemma flags_at_parked [simp]: "flags_at d (c\<lparr> parked := k \<rparr>) = flags_at d c"
  by (cases d) auto

lemma update_part_fields [simp]:
  "c_driver (update_part i g s) = c_driver s" "c_bar (update_part i g s) = c_bar s"
  "c_timeouts (update_part i g s) = c_timeouts s"
  by (simp_all add: update_part_def)

lemma counted_slot [simp]: "counted (p\<lparr> p_slot := x \<rparr>) = counted p"
  by (simp add: counted_def)

lemma basic_inv_act:
  assumes "act a s = Some s'" "basic_inv n s"
  shows "basic_inv n s'"
proof (cases a)
  case (Execute i)
  with assms show ?thesis
    using filter_list_update [of i "c_parts s" counted "(c_parts s ! i)\<lparr> p_context := p_context (c_parts s ! i) + 1 \<rparr>"]
    by (auto simp: basic_inv_def place_is_def update_part_def counted_def split: if_splits)
next
  case (SeeRequest i)
  with assms show ?thesis
    using filter_list_update [of i "c_parts s" counted "(c_parts s ! i)\<lparr> p_place := Seen \<rparr>"]
    by (auto simp: basic_inv_def place_is_def update_part_def counted_def split: if_splits)
next
  case (Capture i)
  with assms show ?thesis
    using filter_list_update [of i "c_parts s" counted
        "(c_parts s ! i)\<lparr> p_place := Captured, p_slot := Some (p_context (c_parts s ! i)) \<rparr>"]
    by (auto simp: basic_inv_def place_is_def update_part_def counted_def split: if_splits)
next
  case (ParkEnter i)
  with assms show ?thesis
    using filter_list_update [of i "c_parts s" counted "(c_parts s ! i)\<lparr> p_place := Parked \<rparr>"]
    by (auto simp: basic_inv_def place_is_def update_part_def counted_def park_enter_def split: if_splits)
next
  case (SeeRelease i)
  with assms show ?thesis
    using filter_list_update [of i "c_parts s" counted "(c_parts s ! i)\<lparr> p_place := Leaving \<rparr>"]
    by (auto simp: basic_inv_def place_is_def update_part_def counted_def split: if_splits)
next
  case (ParkLeave i)
  with assms show ?thesis
    using filter_list_update [of i "c_parts s" counted "(c_parts s ! i)\<lparr> p_place := Running \<rparr>"]
    by (auto simp: basic_inv_def place_is_def update_part_def counted_def park_leave_def split: if_splits)
qed (use assms in \<open>auto simp: basic_inv_def bar_defs comp_def filter_map split: if_splits\<close>)

text \<open>A step of a participant keeps the rest of the invariant when its new place is allowed; the
  steps of the driver move everybody to the next line of the table.\<close>

definition at_driver :: "csys \<Rightarrow> bool" where
  "at_driver s \<longleftrightarrow> (\<forall>p \<in> set (c_parts s). places_at (c_driver s) p) \<and> flags_at (c_driver s) (c_bar s)"

lemma participant_step:
  assumes "at_driver s" "place_is i pl s" "flags_at (c_driver s) (c_bar s) = flags_at (c_driver s) c"
    "places_at (c_driver s) (g (c_parts s ! i))"
  shows "at_driver (update_part i g (s\<lparr> c_bar := c \<rparr>))"
  using assms ball_update_part [of "s\<lparr> c_bar := c \<rparr>" "places_at (c_driver s)" g i]
  by (simp add: at_driver_def)

lemma participant_step':
  assumes "at_driver s" "place_is i pl s" "places_at (c_driver s) (g (c_parts s ! i))"
  shows "at_driver (update_part i g s)"
  using assms ball_update_part [of s "places_at (c_driver s)" g i] by (simp add: at_driver_def)

lemma place_allowed:
  assumes "at_driver s" "place_is i pl s"
  shows "places_at (c_driver s) (c_parts s ! i)" "p_place (c_parts s ! i) = pl"
  using assms by (auto simp: at_driver_def place_is_def)

lemma at_driver_participant:
  assumes "at_driver s" and "act a s = Some s'" and "a \<in> {Execute i, SeeRequest i, Capture i, ParkEnter i, SeeRelease i, ParkLeave i}"
  shows "at_driver s'"
proof -
  obtain pl where pl: "place_is i pl s" using assms(2,3) by (auto split: if_splits)
  note pa = place_allowed [OF assms(1) pl]
  have fl: "flags_at (c_driver s) (c_bar s)" using assms(1) by (simp add: at_driver_def)
  show ?thesis
    using assms(2,3) pa fl
    by (cases "c_driver s")
      (auto intro!: participant_step [OF assms(1) pl] participant_step' [OF assms(1) pl]
        simp: bar_defs counted_def place_is_def split: if_splits)
qed

lemma barrier_inv_act:
  assumes "act a s = Some s'" "barrier_inv n s"
  shows "barrier_inv n s'"
proof -
  have "at_driver s'" if t: "c_timeouts s' = 0"
  proof -
    have "c_timeouts s = 0" using assms(1) t by (cases a) (auto split: if_splits simp: update_part_def)
    then have ad: "at_driver s" and b: "basic_inv n s"
      using assms(2) by (auto simp: barrier_inv_def at_driver_def)
    show ?thesis
    proof (cases a)
      case (Execute i)
      then show ?thesis using at_driver_participant [OF ad assms(1), of i] by simp
    next
      case (SeeRequest i)
      then show ?thesis using at_driver_participant [OF ad assms(1), of i] by simp
    next
      case (Capture i)
      then show ?thesis using at_driver_participant [OF ad assms(1), of i] by simp
    next
      case (ParkEnter i)
      then show ?thesis using at_driver_participant [OF ad assms(1), of i] by simp
    next
      case (SeeRelease i)
      then show ?thesis using at_driver_participant [OF ad assms(1), of i] by simp
    next
      case (ParkLeave i)
      then show ?thesis using at_driver_participant [OF ad assms(1), of i] by simp
    next
      case WaitParked
      then show ?thesis using assms(1) ad b all_counted_iff [of "c_parts s" counted]
        by (auto simp: at_driver_def basic_inv_def bar_defs counted_def split: if_splits)
    next
      case WaitResumed
      then show ?thesis using assms(1) ad b
        by (auto simp: at_driver_def basic_inv_def bar_defs filter_empty_conv split: if_splits)
    qed (use assms(1) ad t in \<open>auto simp: at_driver_def bar_defs counted_def split: if_splits\<close>)
  qed
  then show ?thesis using basic_inv_act [OF assms(1)] assms(2) by (auto simp: barrier_inv_def at_driver_def)
qed

lemma barrier_inv_start: "barrier_inv n (csys_start n)"
  by (auto simp: barrier_inv_def basic_inv_def csys_start_def checkpoint_default_def counted_def)

lemma reachable_barrier_inv: "reachable n s \<Longrightarrow> barrier_inv n s"
  by (induction rule: reachable.induct) (auto intro: barrier_inv_start barrier_inv_act)

lemma reachable_acts: "reachable n s \<Longrightarrow> acts as s = Some s' \<Longrightarrow> reachable n s'"
  by (induction as arbitrary: s) (auto split: option.splits intro: reachable.step)



section \<open>Properties\<close>


definition one_checkpoint :: "action list" where
  "one_checkpoint =
     [Execute 0, RequestClear, RequestSet, SeeRequest 1, Execute 0, Capture 1, ParkEnter 1, SeeRequest 0, Capture 0,
      ParkEnter 0, WaitParked]"


definition late_participant :: "action list" where
  "late_participant =
     [RequestClear, RequestSet, SeeRequest 0, GiveUpParked, ReleaseClear, ReleaseSet, WaitResumed,
      Capture 0, ParkEnter 0, SeeRelease 0,
      RequestClear, RequestSet, WaitParked, ParkLeave 0, Execute 0]"


end
