(* ===== verification/Text_Codec.thy ===== *)
theory Text_Codec
  imports MM_Prelude
begin

text \<open>
  Hexadecimal numerals as the sources print and parse them: \<open>{:x}\<close>, \<open>{:02x}\<close> and
  \<open>u8::from_str_radix(_, 16)\<close>, with their round trips.
\<close>

function hex_of_nat :: "nat \<Rightarrow> string" where
  "hex_of_nat n = (if n < 16 then [digit_char n]
                   else hex_of_nat (n div 16) @ [digit_char (n mod 16)])"
  by pat_completeness auto
termination
  by (relation "measure id") auto

declare hex_of_nat.simps [simp del]

definition hex_val :: "char \<Rightarrow> nat option" where
  "hex_val c = (let k = of_char c :: nat in
     if 48 \<le> k \<and> k \<le> 57 then Some (k - 48)
     else if 97 \<le> k \<and> k \<le> 102 then Some (k - 87)
     else if 65 \<le> k \<and> k \<le> 70 then Some (k - 55)
     else None)"

fun hexes_val :: "nat \<Rightarrow> string \<Rightarrow> nat option" where
  "hexes_val acc [] = Some acc"
| "hexes_val acc (c # cs) =
     (case hex_val c of None \<Rightarrow> None | Some d \<Rightarrow> hexes_val (16 * acc + d) cs)"

text \<open>\<open>from_str_radix(s, 16)\<close> for an unsigned type with \<open>bound\<close> values.\<close>

definition parse_hex :: "nat \<Rightarrow> string \<Rightarrow> nat option" where
  "parse_hex bound s =
     (let ds = (case s of c # cs \<Rightarrow> if c = CHR ''+'' then cs else s | [] \<Rightarrow> s) in
      if ds = [] then None
      else case hexes_val 0 ds of
             None \<Rightarrow> None
           | Some n \<Rightarrow> if n < bound then Some n else None)"

lemma less_16_cases:
  "(d :: nat) < 16 \<Longrightarrow>
   d = 0 \<or> d = 1 \<or> d = 2 \<or> d = 3 \<or> d = 4 \<or> d = 5 \<or> d = 6 \<or> d = 7 \<or> d = 8 \<or> d = 9 \<or>
   d = 10 \<or> d = 11 \<or> d = 12 \<or> d = 13 \<or> d = 14 \<or> d = 15"
  by presburger

lemma hex_val_digit_char [simp]: "d < 16 \<Longrightarrow> hex_val (digit_char d) = Some d"
  by (drule less_16_cases, elim disjE) (simp_all add: hex_val_def digit_char_def Let_def)

lemma hex_digit_char_set: "d < 16 \<Longrightarrow> digit_char d \<in> set ''0123456789abcdef''"
  by (drule less_16_cases, elim disjE) (simp_all add: digit_char_def)

lemma hex2_chars: "set (hex2 b) \<subseteq> set ''0123456789abcdef''"
proof -
  have "unat b < 256" using unsigned_less [of b] by simp
  then show ?thesis
    using hex_digit_char_set [of "unat b div 16"] hex_digit_char_set [of "unat b mod 16"]
    by (simp add: hex2_def less_mult_imp_div_less)
qed

lemma length_hex2 [simp]: "length (hex2 b) = 2"
  by (simp add: hex2_def)

lemma hexes_val_hex2: "hexes_val 0 (hex2 b) = Some (unat b)"
proof -
  have "unat b < 256" using unsigned_less [of b] by simp
  then have "unat b div 16 < 16" "unat b mod 16 < 16" by (simp_all add: less_mult_imp_div_less)
  then show ?thesis by (simp add: hex2_def)
qed

lemma parse_hex_hex2 [simp]: "parse_hex 256 (hex2 b) = Some (unat b)"
proof -
  have "unat b < 256" using unsigned_less [of b] by simp
  moreover obtain c cs where c: "hex2 b = c # cs" by (cases "hex2 b") (auto simp: hex2_def)
  moreover have "c \<noteq> CHR ''+''" using hex2_chars [of b] c by auto
  ultimately show ?thesis using hexes_val_hex2 [of b] by (simp add: parse_hex_def)
qed

lemma hexes_val_append:
  "hexes_val acc (s @ t) = (case hexes_val acc s of None \<Rightarrow> None | Some a \<Rightarrow> hexes_val a t)"
  by (induction s arbitrary: acc) (auto split: option.splits)

lemma hexes_val_hex_of_nat: "hexes_val 0 (hex_of_nat n) = Some n"
proof (induction n rule: less_induct)
  case (less n)
  show ?case
  proof (cases "n < 16")
    case True
    then show ?thesis by (subst hex_of_nat.simps) simp
  next
    case False
    then have "hexes_val 0 (hex_of_nat (n div 16)) = Some (n div 16)"
      by (intro less.IH) simp
    with False show ?thesis
      by (subst hex_of_nat.simps) (simp add: hexes_val_append)
  qed
qed

lemma hex_of_nat_inj: "hex_of_nat m = hex_of_nat n \<longleftrightarrow> m = n"
  using hexes_val_hex_of_nat by (metis option.inject)

end
