(* ===== verification/Vm_Config.thy ===== *)
theory Vm_Config
  imports MM_Prelude
begin

text \<open>
  The configuration of a microVM and the guest-physical memory map built from it:
  \<open>crates/mm-vmm/src/config.rs\<close>, the allocation of guest RAM in
  \<open>crates/mm-vmm/src/machine.rs\<close> and the boot protocol set-up of
  \<open>crates/mm-vmm/src/boot.rs\<close>.  The ELF loader, the command-line buffer and the
  writer of the zero page are library code and enter as the fields of \<open>boot_env\<close>.
\<close>

section \<open>Configuration\<close>

record RateLimit =
  rl_ops_capacity :: u64
  rl_ops_refill_per_ms :: u64
  rl_bytes_capacity :: u64
  rl_bytes_refill_per_ms :: u64

record BlockDevice =
  bd_path :: string
  bd_read_only :: bool
  bd_rate_limit :: "RateLimit option"

datatype ConfigDevice =
    NetDev (tap_name: string) (mac: string) (net_rate_limit: "RateLimit option")
  | VsockDev (cid: u32)
  | BalloonDev (target_mib: u64)

record VmConfig =
  vcpus :: u8
  memory_mib :: u64
  kernel :: string
  kernel_cmdline :: string
  rootfs :: BlockDevice
  devices :: "ConfigDevice list"

datatype ConfigError = VcpuRange u8 | MemoryTooSmall u64

definition FAST_BOOT_ARGS :: string where
  "FAST_BOOT_ARGS = ''pci=off 8250.nr_uarts=1''"

definition validate :: "VmConfig \<Rightarrow> ConfigError + unit" where
  "validate c =
     (if \<not> (1 \<le> vcpus c \<and> vcpus c \<le> 32) then Inl (VcpuRange (vcpus c))
      else if memory_mib c < 16 then Inl (MemoryTooSmall (memory_mib c))
      else Inr ())"

datatype VmmError =
    Config ConfigError
  | Kvm string
  | Memory string
  | KernelLoad string
  | VcpuErr string
  | Device string
  | Io string
  | ReadyTimeout


section \<open>Guest RAM\<close>

definition MMIO_GAP_START :: u64 where "MMIO_GAP_START = 0xc0000000"
definition RAM_64BIT_START :: u64 where "RAM_64BIT_START = 0x100000000"
definition MMIO_DEVICE_BASE :: u64 where "MMIO_DEVICE_BASE = 0xd0000000"
definition MMIO_DEVICE_SIZE :: u64 where "MMIO_DEVICE_SIZE = 0x1000"
definition FIRST_VIRTIO_GSI :: u32 where "FIRST_VIRTIO_GSI = 5"

text \<open>The \<open>(address, size)\<close> ranges of guest RAM, split around the 32-bit MMIO hole.\<close>

definition guest_ranges :: "u64 \<Rightarrow> VmmError + (u64 \<times> u64) list" where
  "guest_ranges mib =
     (case checked_mul mib (2 ^ 20) of
        None \<Rightarrow> Inl (Memory ''memory size overflows'')
      | Some mem_size \<Rightarrow> Inr (
          if mem_size \<le> MMIO_GAP_START then [(0, mem_size)]
          else [(0, MMIO_GAP_START), (RAM_64BIT_START, mem_size - MMIO_GAP_START)]))"

text \<open>\<open>from_ranges\<close> is the mapping of the ranges by the memory library.\<close>

definition allocate_guest_memory ::
  "((u64 \<times> u64) list \<Rightarrow> string + 'm) \<Rightarrow> u64 \<Rightarrow> VmmError + 'm" where
  "allocate_guest_memory from_ranges mib =
     res_bind (guest_ranges mib) (\<lambda>ranges.
       case from_ranges ranges of Inl e \<Rightarrow> Inl (Memory e) | Inr m \<Rightarrow> Inr m)"

text \<open>Is an address inside one of the ranges?\<close>

definition in_ranges :: "(u64 \<times> u64) list \<Rightarrow> u64 \<Rightarrow> bool" where
  "in_ranges rs a \<longleftrightarrow> list_ex (\<lambda>(b, n). unat b \<le> unat a \<and> unat a < unat b + unat n) rs"

text \<open>Copy-on-write memory of a fork: the same ranges, each with the offset of its slice
  of the snapshot's memory file.\<close>

fun cow_layout :: "u64 \<Rightarrow> (u64 \<times> u64) list \<Rightarrow> (u64 \<times> u64 \<times> u64) list" where
  "cow_layout off [] = []"
| "cow_layout off ((gpa, sz) # rs) = (gpa, sz, off) # cow_layout (off + sz) rs"

definition allocate_cow_guest_memory ::
  "string + 'f \<Rightarrow> ('f \<Rightarrow> u64 \<times> u64 \<times> u64 \<Rightarrow> string + 'r) \<Rightarrow> ('r list \<Rightarrow> string + 'm)
   \<Rightarrow> u64 \<Rightarrow> VmmError + 'm" where
  "allocate_cow_guest_memory opened map_region from_regions mib =
     (case opened of Inl e \<Rightarrow> Inl (Io e)
      | Inr f \<Rightarrow> res_bind (guest_ranges mib) (\<lambda>ranges.
          let rs = map (map_region f) (cow_layout 0 ranges) in
          case find (\<lambda>r. \<not> is_ok r) rs of
            Some (Inl e) \<Rightarrow> Inl (Memory e)
          | _ \<Rightarrow> (case from_regions (map projr rs) of
                     Inl e \<Rightarrow> Inl (Memory e) | Inr m \<Rightarrow> Inr m)))"


section \<open>Boot parameters\<close>

abbreviation HIMEM_START :: u64 where "HIMEM_START \<equiv> 0x00100000"
abbreviation ZERO_PAGE_START :: u64 where "ZERO_PAGE_START \<equiv> 0x00007000"
abbreviation CMDLINE_START :: u64 where "CMDLINE_START \<equiv> 0x00020000"
abbreviation CMDLINE_MAX_SIZE :: nat where "CMDLINE_MAX_SIZE \<equiv> 0x10000"
abbreviation EBDA_START :: u64 where "EBDA_START \<equiv> 0x0009fc00"
abbreviation E820_RAM :: u32 where "E820_RAM \<equiv> 1"
abbreviation KERNEL_LOADER_OTHER :: u8 where "KERNEL_LOADER_OTHER \<equiv> 0xff"
abbreviation KERNEL_BOOT_FLAG_MAGIC :: u16 where "KERNEL_BOOT_FLAG_MAGIC \<equiv> 0xaa55"
abbreviation KERNEL_HDR_MAGIC :: u32 where "KERNEL_HDR_MAGIC \<equiv> 0x53726448"
abbreviation KERNEL_MIN_ALIGNMENT_BYTES :: u32 where "KERNEL_MIN_ALIGNMENT_BYTES \<equiv> 0x01000000"

record e820_entry =
  e820_addr :: u64
  e820_size :: u64
  e820_type :: u32

record boot_params =
  type_of_loader :: u8
  boot_flag :: u16
  header :: u32
  kernel_alignment :: u32
  cmd_line_ptr :: u32
  cmdline_size :: u32
  e820_entries :: u8
  e820_table :: "e820_entry list"

text \<open>\<open>boot_params::default\<close>: all zero, with the fixed 128-entry table.\<close>

definition boot_params_default :: boot_params where
  "boot_params_default =
     \<lparr> type_of_loader = 0, boot_flag = 0, header = 0, kernel_alignment = 0, cmd_line_ptr = 0,
       cmdline_size = 0, e820_entries = 0,
       e820_table = replicate 128 \<lparr> e820_addr = 0, e820_size = 0, e820_type = 0 \<rparr> \<rparr>"

definition add_e820_entry ::
  "boot_params \<Rightarrow> u64 \<Rightarrow> u64 \<Rightarrow> u32 \<Rightarrow> VmmError + boot_params" where
  "add_e820_entry p addr sz mem_type =
     (let index = unat (e820_entries p) in
      if length (e820_table p) \<le> index then Inl (KernelLoad ''too many e820 entries'')
      else Inr (p\<lparr> e820_table := (e820_table p)[index :=
                    \<lparr> e820_addr = addr, e820_size = sz, e820_type = mem_type \<rparr>],
                   e820_entries := e820_entries p + 1 \<rparr>))"

text \<open>The zero page \<open>configure_boot_params\<close> fills before it is written to guest memory.\<close>

definition boot_params_for :: "nat \<Rightarrow> u64 \<Rightarrow> VmmError + boot_params" where
  "boot_params_for cmdline_len mem_size =
     (let p = boot_params_default\<lparr> type_of_loader := KERNEL_LOADER_OTHER,
                boot_flag := KERNEL_BOOT_FLAG_MAGIC, header := KERNEL_HDR_MAGIC,
                kernel_alignment := KERNEL_MIN_ALIGNMENT_BYTES,
                cmd_line_ptr := ucast CMDLINE_START,
                cmdline_size := of_nat (cmdline_len + 1) \<rparr> in
      res_bind (add_e820_entry p 0 EBDA_START E820_RAM) (\<lambda>p.
        if HIMEM_START < mem_size
        then add_e820_entry p HIMEM_START (mem_size - HIMEM_START) E820_RAM
        else Inr p))"

text \<open>The library calls of the boot path, on a guest memory of type \<open>'m\<close>.\<close>

record 'm boot_env =
  load_kernel :: "string \<Rightarrow> u64 \<Rightarrow> 'm \<Rightarrow> string + (u64 \<times> 'm)"
  insert_cmdline :: "nat \<Rightarrow> string \<Rightarrow> string + string"
  load_cmdline :: "u64 \<Rightarrow> string \<Rightarrow> 'm \<Rightarrow> string + 'm"
  write_bootparams :: "u64 \<Rightarrow> boot_params \<Rightarrow> 'm \<Rightarrow> string + 'm"

fun kernel_err :: "string + 'a \<Rightarrow> VmmError + 'a" where
  "kernel_err (Inl e) = Inl (KernelLoad e)"
| "kernel_err (Inr x) = Inr x"

definition write_cmdline :: "'m boot_env \<Rightarrow> string \<Rightarrow> 'm \<Rightarrow> VmmError + (nat \<times> 'm)" where
  "write_cmdline env cmdline m =
     res_bind (kernel_err (insert_cmdline env CMDLINE_MAX_SIZE cmdline)) (\<lambda>buf.
     res_bind (kernel_err (load_cmdline env CMDLINE_START buf m)) (\<lambda>m.
       Inr (length cmdline, m)))"

definition configure_boot_params ::
  "'m boot_env \<Rightarrow> nat \<Rightarrow> u64 \<Rightarrow> 'm \<Rightarrow> VmmError + 'm" where
  "configure_boot_params env cmdline_len mem_size m =
     res_bind (boot_params_for cmdline_len mem_size) (\<lambda>p.
       kernel_err (write_bootparams env ZERO_PAGE_START p m))"

record KernelBoot =
  entry_point :: u64
  boot_params_addr :: u64

definition load_and_configure ::
  "'m boot_env \<Rightarrow> string \<Rightarrow> string \<Rightarrow> u64 \<Rightarrow> 'm \<Rightarrow> VmmError + (KernelBoot \<times> 'm)" where
  "load_and_configure env kernel_path cmdline mem_size m =
     res_bind (kernel_err (load_kernel env kernel_path HIMEM_START m)) (\<lambda>(entry, m).
     res_bind (write_cmdline env cmdline m) (\<lambda>(n, m).
     res_bind (configure_boot_params env n mem_size m) (\<lambda>m.
       Inr (\<lparr> entry_point = entry, boot_params_addr = ZERO_PAGE_START \<rparr>, m))))"

text \<open>The addresses a zero page declares to be usable RAM.\<close>

definition e820_ranges :: "boot_params \<Rightarrow> (u64 \<times> u64) list" where
  "e820_ranges p =
     map (\<lambda>e. (e820_addr e, e820_size e))
       (filter (\<lambda>e. e820_type e = E820_RAM) (take (unat (e820_entries p)) (e820_table p)))"


section \<open>Lemmas\<close>

lemmas layout_consts = MMIO_GAP_START_def RAM_64BIT_START_def MMIO_DEVICE_BASE_def
  MMIO_DEVICE_SIZE_def

lemma validate_ok_iff:
  "validate c = Inr () \<longleftrightarrow> 1 \<le> vcpus c \<and> vcpus c \<le> 32 \<and> 16 \<le> memory_mib c"
  by (cases "1 \<le> vcpus c"; cases "vcpus c \<le> 32"; cases "memory_mib c < 16") (simp_all add: validate_def not_less)

lemma mem_size_unat:
  "checked_mul mib (2 ^ 20) = Some (sz :: u64) \<Longrightarrow> unat sz = unat mib * 1048576"
  using unat_checked_mul [of mib "2 ^ 20" sz] by simp

lemma replicate_128: "replicate 128 x = x # x # replicate 126 x"
  using replicate_add [of 2 126 x] by (simp add: numeral_2_eq_2)

lemma boot_params_for_ranges:
  assumes "HIMEM_START < sz"
  shows "\<exists>p. boot_params_for n sz = Inr p \<and>
             e820_ranges p = [(0, EBDA_START), (HIMEM_START, sz - HIMEM_START)]"
  using assms
  by (simp add: boot_params_for_def add_e820_entry_def boot_params_default_def e820_ranges_def
      replicate_128 Let_def)

lemma in_ranges_Cons [simp]:
  "in_ranges ((b, n) # rs) a \<longleftrightarrow> unat b \<le> unat a \<and> unat a < unat b + unat n \<or> in_ranges rs a"
  by (simp add: in_ranges_def)

lemma in_ranges_Nil [simp]: "\<not> in_ranges [] a"
  by (simp add: in_ranges_def)

lemma cow_layout_offsets:
  "i < length rs \<Longrightarrow>
   cow_layout off rs ! i = (fst (rs ! i), snd (rs ! i), off + sum_list (map snd (take i rs)))"
proof (induction rs arbitrary: off i)
  case Nil
  then show ?case by simp
next
  case (Cons r rs)
  then show ?case by (cases r; cases i) (auto simp: add.assoc)
qed


section \<open>Properties\<close>

text \<open>C31: The memory map handed to the kernel agrees with guest RAM exactly for guests of
  at most 3 GiB: for a valid configuration, every address the e820 table declares usable is
  backed by a RAM range if and only if the guest has no more than 3072 MiB.  Above that,
  RAM is split around the MMIO hole but the table still declares one contiguous block.\<close>

theorem e820_within_ram_iff:
  assumes "validate c = Inr ()"
    and "checked_mul (memory_mib c) (2 ^ 20) = Some sz"
    and "guest_ranges (memory_mib c) = Inr ram"
    and "boot_params_for n sz = Inr p"
  shows "(\<forall>a. in_ranges (e820_ranges p) a \<longrightarrow> in_ranges ram a) \<longleftrightarrow> memory_mib c \<le> 3072"
proof -
  let ?m = "unat (memory_mib c)"
  have m16: "16 \<le> ?m"
    using assms(1) by (simp add: validate_ok_iff word_le_nat_alt)
  have sz: "unat sz = ?m * 1048576"
    using assms(2) by (rule mem_size_unat)
  then have big: "HIMEM_START < sz"
    using m16 by (simp add: word_less_nat_alt)
  have e820: "e820_ranges p = [(0, EBDA_START), (HIMEM_START, sz - HIMEM_START)]"
    using boot_params_for_ranges [OF big, of n] assms(4) by auto
  have top: "unat HIMEM_START + unat (sz - HIMEM_START) = unat sz"
    using big by (simp add: unat_sub order_less_imp_le word_less_nat_alt)
  have ram: "ram = (if sz \<le> MMIO_GAP_START then [(0, sz)]
                    else [(0, MMIO_GAP_START), (RAM_64BIT_START, sz - MMIO_GAP_START)])"
    using assms(2,3) by (simp add: guest_ranges_def)
  have cut: "sz \<le> MMIO_GAP_START \<longleftrightarrow> memory_mib c \<le> 3072"
    using sz by (simp add: MMIO_GAP_START_def word_le_nat_alt)
  show ?thesis
  proof (cases "sz \<le> MMIO_GAP_START")
    case True
    have "in_ranges ram a" if "in_ranges (e820_ranges p) a" for a
      using that top m16 sz True unfolding e820 ram by auto
    with True cut show ?thesis by simp
  next
    case False
    then have "unat MMIO_GAP_START < unat sz" by (simp add: word_le_nat_alt)
    then have "in_ranges (e820_ranges p) MMIO_GAP_START"
      using top unfolding e820 by (auto simp: MMIO_GAP_START_def)
    moreover have "\<not> in_ranges ram MMIO_GAP_START"
      using False unfolding ram by (simp add: MMIO_GAP_START_def RAM_64BIT_START_def)
    ultimately show ?thesis using False cut by blast
  qed
qed

definition config_example :: "u64 \<Rightarrow> VmConfig" where
  "config_example mib =
     \<lparr> vcpus = 2, memory_mib = mib, kernel = ''/k/vmlinux'', kernel_cmdline = ''console=ttyS0'',
       rootfs = \<lparr> bd_path = ''/r/root.img'', bd_read_only = True, bd_rate_limit = None \<rparr>,
       devices = [] \<rparr>"

theorem e820_within_ram_iff_witness:
  "\<exists>ram p. guest_ranges 4096 = Inr ram \<and> boot_params_for 13 0x100000000 = Inr p \<and>
     \<not> (\<forall>a. in_ranges (e820_ranges p) a \<longrightarrow> in_ranges ram a)"
proof -
  have v: "validate (config_example 4096) = Inr ()"
    by (simp add: validate_def config_example_def)
  have m: "checked_mul (memory_mib (config_example 4096)) (2 ^ 20) = Some 0x100000000"
    by (simp add: checked_mul_def config_example_def)
  obtain ram where r: "guest_ranges (memory_mib (config_example 4096)) = Inr ram"
    using m by (simp add: guest_ranges_def)
  obtain p where p: "boot_params_for 13 0x100000000 = Inr p"
    using boot_params_for_ranges [of "0x100000000" 13] by auto
  from e820_within_ram_iff [OF v m r p] r p show ?thesis
    by (auto simp: config_example_def)
qed

end
