(* ===== verification/Virtio_Env.thy ===== *)
theory Virtio_Env
  imports Vm_Config
begin

text \<open>
  What the virtio devices share.  The virtqueue (crate \<open>virtio_queue\<close>), guest memory
  (crate \<open>vm_memory\<close>) and eventfds (crate \<open>vmm_sys_util\<close>) are library code: their
  operations are the fields of a record \<open>venv\<close>, over abstract types of queues,
  memories and eventfds, that every definition using them takes as an argument.  What is
  relied on of the rings is the predicate \<open>ring_laws\<close>; \<open>ring_env\<close> is a concrete
  instance on lists that the witnesses evaluate.  Starting a worker thread, which the
  operating system may refuse, is a field of the same record.  The state-passing result type of the
  device workers, the drain loop \<open>while let Some(chain) = queue.pop_descriptor_chain(..)\<close>
  and the interrupt line of \<open>crates/mm-vmm/src/devices/mod.rs\<close> are here as well, and the
  queue cursors of \<open>crates/mm-vmm/src/snapshot/state.rs\<close>.
\<close>

named_theorems dev_simps \<open>evaluation of device code\<close>


section \<open>Queues, descriptor chains and guest memory\<close>

record QueueState =
  qs_max_size :: u16
  qs_next_avail :: u16
  qs_next_used :: u16
  qs_event_idx_enabled :: bool
  qs_size :: u16
  qs_ready :: bool
  qs_desc_table :: u64
  qs_avail_ring :: u64
  qs_used_ring :: u64

record QueueCursor =
  qc_max_size :: u16
  qc_next_avail :: u16
  qc_next_used :: u16
  qc_event_idx_enabled :: bool
  qc_size :: u16
  qc_ready :: bool
  qc_desc_table :: u64
  qc_avail_ring :: u64
  qc_used_ring :: u64

definition cursor_of_state :: "QueueState \<Rightarrow> QueueCursor" where
  "cursor_of_state q =
     \<lparr> qc_max_size = qs_max_size q, qc_next_avail = qs_next_avail q,
       qc_next_used = qs_next_used q, qc_event_idx_enabled = qs_event_idx_enabled q,
       qc_size = qs_size q, qc_ready = qs_ready q, qc_desc_table = qs_desc_table q,
       qc_avail_ring = qs_avail_ring q, qc_used_ring = qs_used_ring q \<rparr>"

definition state_of_cursor :: "QueueCursor \<Rightarrow> QueueState" where
  "state_of_cursor c =
     \<lparr> qs_max_size = qc_max_size c, qs_next_avail = qc_next_avail c,
       qs_next_used = qc_next_used c, qs_event_idx_enabled = qc_event_idx_enabled c,
       qs_size = qc_size c, qs_ready = qc_ready c, qs_desc_table = qc_desc_table c,
       qs_avail_ring = qc_avail_ring c, qs_used_ring = qc_used_ring c \<rparr>"

record desc =
  d_addr :: u64
  d_len :: u32
  d_write_only :: bool

text \<open>A popped chain: its head index and its descriptors, read when it is popped.\<close>

record chain =
  c_head :: u16
  c_descs :: "desc list"

record ('q, 'm, 'e) venv =
  q_new :: "u16 \<Rightarrow> string + 'q"
  q_ready :: "'q \<Rightarrow> bool"
  q_set_size :: "u16 \<Rightarrow> 'q \<Rightarrow> 'q"
  q_set_ready :: "bool \<Rightarrow> 'q \<Rightarrow> 'q"
  q_set_desc_table_address :: "u32 option \<Rightarrow> u32 option \<Rightarrow> 'q \<Rightarrow> 'q"
  q_set_avail_ring_address :: "u32 option \<Rightarrow> u32 option \<Rightarrow> 'q \<Rightarrow> 'q"
  q_set_used_ring_address :: "u32 option \<Rightarrow> u32 option \<Rightarrow> 'q \<Rightarrow> 'q"
  q_state :: "'q \<Rightarrow> QueueState"
  q_try_from :: "QueueState \<Rightarrow> string + 'q"
  q_pop :: "'q \<Rightarrow> 'm \<Rightarrow> (chain \<times> 'q) option"
  q_add_used :: "'q \<Rightarrow> 'm \<Rightarrow> u16 \<Rightarrow> u32 \<Rightarrow> string + ('q \<times> 'm)"
  m_read :: "'m \<Rightarrow> u64 \<Rightarrow> nat \<Rightarrow> string + bytes"
  m_write :: "'m \<Rightarrow> u64 \<Rightarrow> bytes \<Rightarrow> string + 'm"
  e_new :: "string + 'e"
  e_try_clone :: "'e \<Rightarrow> string + 'e"
  e_write :: "'e \<Rightarrow> string + 'e"
  thread_spawn :: "string \<Rightarrow> string + unit"

text \<open>The laws of a ring: \<open>pend\<close> lists the chains the guest has made available and the
  device has not popped, \<open>used\<close> the entries put on the used ring.  Popping takes the
  first pending chain, returning a buffer appends a used entry, and writes to buffers
  leave the rings alone.\<close>

definition ring_laws ::
  "('q, 'm, 'e) venv \<Rightarrow> ('q \<Rightarrow> 'm \<Rightarrow> chain list) \<Rightarrow> ('q \<Rightarrow> 'm \<Rightarrow> (u16 \<times> u32) list) \<Rightarrow> bool" where
  "ring_laws E pend used \<longleftrightarrow>
     (\<forall>q m. q_pop E q m = None \<longleftrightarrow> pend q m = []) \<and>
     (\<forall>q m c q'. q_pop E q m = Some (c, q') \<longrightarrow> pend q m = c # pend q' m \<and> used q' m = used q m) \<and>
     (\<forall>q m h n q' m'. q_add_used E q m h n = Inr (q', m') \<longrightarrow>
        pend q' m' = pend q m \<and> used q' m' = used q m @ [(h, n)]) \<and>
     (\<forall>q m a bs m'. m_write E m a bs = Inr m' \<longrightarrow> pend q m' = pend q m \<and> used q m' = used q m)"


section \<open>Stateful results\<close>

text \<open>Code that mutates a state and returns a \<open>Result\<close>; the state survives an error.\<close>

type_synonym ('s, 'a) io = "'s \<Rightarrow> (VmmError + 'a) \<times> 's"

definition io_return :: "'a \<Rightarrow> ('s, 'a) io" where
  "io_return x s = (Inr x, s)"

definition io_fail :: "VmmError \<Rightarrow> ('s, 'a) io" where
  "io_fail e s = (Inl e, s)"

definition io_bind :: "('s, 'a) io \<Rightarrow> ('a \<Rightarrow> ('s, 'b) io) \<Rightarrow> ('s, 'b) io" where
  "io_bind f g s = (case f s of (Inl e, s') \<Rightarrow> (Inl e, s') | (Inr x, s') \<Rightarrow> g x s')"

text \<open>The loop \<open>while let Some(chain) = pop() { body(chain)?; signalled = true; }\<close> of the
  queue handlers.  Fuel bounds the rounds, and a body that itself waits in a loop may run
  out of fuel.\<close>

fun drain ::
  "('s \<Rightarrow> (chain \<times> 's) option) \<Rightarrow> (chain \<Rightarrow> 's \<Rightarrow> ((VmmError + unit) \<times> 's) option) \<Rightarrow> nat \<Rightarrow> bool \<Rightarrow> 's
   \<Rightarrow> ((VmmError + unit) \<times> bool \<times> 's) option" where
  "drain pop body 0 signalled s = None"
| "drain pop body (Suc fuel) signalled s =
     (case pop s of
        None \<Rightarrow> Some (Inr (), signalled, s)
      | Some (c, s1) \<Rightarrow>
          (case body c s1 of
             None \<Rightarrow> None
           | Some (Inl e, s2) \<Rightarrow> Some (Inl e, signalled, s2)
           | Some (Inr _, s2) \<Rightarrow> drain pop body fuel True s2))"

text \<open>The end of the handlers: after a drain without error, \<open>signal\<close> if anything was done.\<close>

fun finish :: "('s \<Rightarrow> (VmmError + unit) \<times> 's) \<Rightarrow> (VmmError + unit) \<times> bool \<times> 's \<Rightarrow> (VmmError + unit) \<times> 's" where
  "finish signal (Inl e, signalled, s) = (Inl e, s)"
| "finish signal (Inr u, signalled, s) = (if signalled then signal s else (Inr (), s))"


section \<open>The interrupt line\<close>

definition VIRTIO_MMIO_INT_VRING :: u32 where "VIRTIO_MMIO_INT_VRING = 1"

record 'e Interrupt =
  int_evt :: 'e
  int_status :: u32

definition interrupt_new :: "'e \<Rightarrow> 'e Interrupt" where
  "interrupt_new e = \<lparr> int_evt = e, int_status = 0 \<rparr>"

definition signal_used_queue :: "('q, 'm, 'e) venv \<Rightarrow> ('e Interrupt, unit) io" where
  "signal_used_queue E i =
     (let i = i\<lparr> int_status := int_status i OR VIRTIO_MMIO_INT_VRING \<rparr> in
      case e_write E (int_evt i) of
        Inl e \<Rightarrow> (Inl (Io e), i)
      | Inr v \<Rightarrow> (Inr (), i\<lparr> int_evt := v \<rparr>))"

definition interrupt_ack :: "u32 \<Rightarrow> 'e Interrupt \<Rightarrow> 'e Interrupt" where
  "interrupt_ack v i = i\<lparr> int_status := int_status i AND NOT v \<rparr>"


section \<open>A ring on lists\<close>

text \<open>A queue holding its pending chains and its used entries; memory is one page with bounds
  checks; an eventfd is a counter.\<close>

record ringq =
  rq_state :: QueueState
  rq_avail :: "chain list"
  rq_used :: "(u16 \<times> u32) list"

definition fresh_state :: "u16 \<Rightarrow> QueueState" where
  "fresh_state n =
     \<lparr> qs_max_size = n, qs_next_avail = 0, qs_next_used = 0, qs_event_idx_enabled = False,
       qs_size = n, qs_ready = False, qs_desc_table = 0, qs_avail_ring = 0, qs_used_ring = 0 \<rparr>"

definition set_addr :: "u32 option \<Rightarrow> u32 option \<Rightarrow> u64 \<Rightarrow> u64" where
  "set_addr lo hi a =
     (let l = (case lo of None \<Rightarrow> a AND 0xffffffff | Some v \<Rightarrow> ucast v);
          h = (case hi of None \<Rightarrow> drop_bit 32 a | Some v \<Rightarrow> ucast v) in push_bit 32 h OR l)"

type_synonym page = "u64 \<Rightarrow> u8"

definition page_of :: "bytes \<Rightarrow> page" where
  "page_of bs a = (if unat a < length bs then bs ! unat a else 0)"

definition page_read :: "page \<Rightarrow> u64 \<Rightarrow> nat \<Rightarrow> bytes" where
  "page_read m a n = map (\<lambda>i. m (a + of_nat i)) [0..<n]"

definition page_write :: "page \<Rightarrow> u64 \<Rightarrow> bytes \<Rightarrow> page" where
  "page_write m a bs x =
     (if a \<le> x \<and> unat (x - a) < length bs then bs ! unat (x - a) else m x)"

definition in_page :: "u64 \<Rightarrow> nat \<Rightarrow> bool" where
  "in_page a n \<longleftrightarrow> unat a + n \<le> 4096"

definition ring_env :: "(ringq, page, nat) venv" where
  "ring_env =
     \<lparr> q_new = (\<lambda>n. Inr \<lparr> rq_state = fresh_state n, rq_avail = [], rq_used = [] \<rparr>),
       q_ready = (\<lambda>q. qs_ready (rq_state q)),
       q_set_size = (\<lambda>n q. q\<lparr> rq_state := (rq_state q)\<lparr> qs_size := n \<rparr> \<rparr>),
       q_set_ready = (\<lambda>b q. q\<lparr> rq_state := (rq_state q)\<lparr> qs_ready := b \<rparr> \<rparr>),
       q_set_desc_table_address = (\<lambda>lo hi q. q\<lparr> rq_state := (rq_state q)\<lparr>
          qs_desc_table := set_addr lo hi (qs_desc_table (rq_state q)) \<rparr> \<rparr>),
       q_set_avail_ring_address = (\<lambda>lo hi q. q\<lparr> rq_state := (rq_state q)\<lparr>
          qs_avail_ring := set_addr lo hi (qs_avail_ring (rq_state q)) \<rparr> \<rparr>),
       q_set_used_ring_address = (\<lambda>lo hi q. q\<lparr> rq_state := (rq_state q)\<lparr>
          qs_used_ring := set_addr lo hi (qs_used_ring (rq_state q)) \<rparr> \<rparr>),
       q_state = rq_state,
       q_try_from = (\<lambda>s. Inr \<lparr> rq_state = s, rq_avail = [], rq_used = [] \<rparr>),
       q_pop = (\<lambda>q m. case rq_avail q of [] \<Rightarrow> None | c # cs \<Rightarrow> Some (c, q\<lparr> rq_avail := cs \<rparr>)),
       q_add_used = (\<lambda>q m h n. Inr (q\<lparr> rq_used := rq_used q @ [(h, n)] \<rparr>, m)),
       m_read = (\<lambda>m a n. if in_page a n then Inr (page_read m a n)
                          else Inl ''invalid guest address''),
       m_write = (\<lambda>m a bs. if in_page a (length bs) then Inr (page_write m a bs)
                           else Inl ''invalid guest address''),
       e_new = Inr 0,
       e_try_clone = Inr,
       e_write = (\<lambda>n. Inr (n + 1)),
       thread_spawn = (\<lambda>_. Inr ()) \<rparr>"


section \<open>Lemmas\<close>

lemma state_of_cursor_of_state [simp]: "state_of_cursor (cursor_of_state q) = q"
  by (simp add: state_of_cursor_def cursor_of_state_def)

lemma cursor_of_state_of_cursor [simp]: "cursor_of_state (state_of_cursor c) = c"
  by (simp add: state_of_cursor_def cursor_of_state_def)

lemma io_simps [dev_simps]:
  "io_return x s = (Inr x, s)"
  "io_fail e s = (Inl e, s)"
  "io_bind f g s = (case f s of (Inl e, s') \<Rightarrow> (Inl e, s') | (Inr x, s') \<Rightarrow> g x s')"
  by (simp_all add: io_return_def io_fail_def io_bind_def)

lemma ring_laws_ring_env:
  "ring_laws ring_env (\<lambda>q m. rq_avail q) (\<lambda>q m. rq_used q)"
  by (auto simp: ring_laws_def ring_env_def split: list.splits if_splits)

lemma ring_lawsD:
  assumes "ring_laws E pend used"
  shows "q_pop E q m = None \<longleftrightarrow> pend q m = []"
    and "q_pop E q m = Some (c, q') \<Longrightarrow> pend q m = c # pend q' m"
    and "q_pop E q m = Some (c, q') \<Longrightarrow> used q' m = used q m"
    and "q_add_used E q m h n = Inr (q', m') \<Longrightarrow> pend q' m' = pend q m"
    and "q_add_used E q m h n = Inr (q', m') \<Longrightarrow> used q' m' = used q m @ [(h, n)]"
    and "m_write E m a bs = Inr m' \<Longrightarrow> pend q m' = pend q m"
    and "m_write E m a bs = Inr m' \<Longrightarrow> used q m' = used q m"
  using assms unfolding ring_laws_def by blast+

text \<open>Draining a queue whose rounds return: it ends after one round per pending chain and
  one more to see the ring empty.\<close>

lemma drain_returns:
  assumes pop_none: "\<And>s. pop s = None \<longleftrightarrow> pending s = []"
    and pop_some: "\<And>s c s1. pop s = Some (c, s1) \<Longrightarrow> J s \<Longrightarrow> pending s = c # pending s1 \<and> J s1"
    and body: "\<And>c s. J s \<Longrightarrow> \<exists>r s2. body c s = Some (r, s2) \<and> pending s2 = pending s \<and> J s2"
    and fuel: "length (pending s) < fuel" and "J s"
  shows "\<exists>r b s'. drain pop body fuel sg s = Some (r, b, s') \<and> J s' \<and> (is_ok r \<longrightarrow> pending s' = [])"
  using fuel \<open>J s\<close>
proof (induction fuel arbitrary: s sg)
  case 0
  then show ?case by simp
next
  case (Suc fuel)
  show ?case
  proof (cases "pop s")
    case None
    with pop_none [of s] Suc.prems show ?thesis by simp
  next
    case (Some p)
    obtain c s1 where p: "p = (c, s1)" by fastforce
    have s1: "pending s = c # pending s1" "J s1" using pop_some Some p Suc.prems(2) by auto
    then obtain r s2 where b: "body c s1 = Some (r, s2)" "pending s2 = pending s1" "J s2"
      using body by blast
    have "length (pending s2) < fuel" using Suc.prems s1 b by simp
    from Suc.IH [OF this b(3), of True] Some p b show ?thesis by (cases r) auto
  qed
qed

text \<open>Draining a queue on which the guest has made only good chains available: every chain is
  completed exactly once, in order, and the flag tells whether there was one.\<close>

lemma drain_completes:
  assumes pop_none: "\<And>s. pop s = None \<longleftrightarrow> pending s = []"
    and pop_some: "\<And>s c s1. pop s = Some (c, s1) \<Longrightarrow> J s \<Longrightarrow>
                     pending s = c # pending s1 \<and> usd s1 = usd s \<and> K c s1"
    and body: "\<And>c s. K c s \<Longrightarrow>
                 \<exists>s2 n. body c s = Some (Inr (), s2) \<and> pending s2 = pending s \<and>
                        usd s2 = usd s @ [(c_head c, n)] \<and> J s2"
    and fuel: "length (pending s) < fuel" and "J s"
  shows "\<exists>s'. drain pop body fuel sg s = Some (Inr (), sg \<or> pending s \<noteq> [], s') \<and> J s' \<and>
           pending s' = [] \<and> map fst (usd s') = map fst (usd s) @ map c_head (pending s)"
  using fuel \<open>J s\<close>
proof (induction fuel arbitrary: s sg)
  case 0
  then show ?case by simp
next
  case (Suc fuel)
  show ?case
  proof (cases "pop s")
    case None
    with pop_none [of s] Suc.prems show ?thesis by simp
  next
    case (Some p)
    obtain c s1 where p: "p = (c, s1)" by fastforce
    have s1: "pending s = c # pending s1" "usd s1 = usd s" "K c s1"
      using pop_some Some p Suc.prems(2) by auto
    then obtain s2 n where b: "body c s1 = Some (Inr (), s2)" "pending s2 = pending s1"
      "usd s2 = usd s1 @ [(c_head c, n)]" "J s2"
      using body by blast
    have "length (pending s2) < fuel" using Suc.prems s1 b by simp
    from Suc.IH [OF this b(4), of True] Some p b s1 show ?thesis by auto
  qed
qed

text \<open>An invariant of every round, successful or not, holds after the drain.\<close>

lemma drain_invariant:
  assumes "drain pop body fuel sg s = Some (r, b, s')" and "I s"
    and "\<And>s c s1. I s \<Longrightarrow> pop s = Some (c, s1) \<Longrightarrow> I s1"
    and "\<And>c s r s2. I s \<Longrightarrow> body c s = Some (r, s2) \<Longrightarrow> I s2"
  shows "I s'"
  using assms(1,2)
proof (induction fuel arbitrary: s sg)
  case 0
  then show ?case by simp
next
  case (Suc fuel)
  show ?case
  proof (cases "pop s")
    case None
    with Suc.prems show ?thesis by simp
  next
    case (Some p)
    obtain c s1 where p: "p = (c, s1)" by fastforce
    have I1: "I s1" using assms(3) Suc.prems(2) Some p by blast
    obtain r2 s2 where b2: "body c s1 = Some (r2, s2)"
      using Suc.prems Some p by (cases "body c s1") auto
    have I2: "I s2" using assms(4) [OF I1 b2] .
    show ?thesis
    proof (cases r2)
      case (Inl e)
      with Suc.prems Some p b2 I2 show ?thesis by simp
    next
      case (Inr u)
      with Suc.prems Some p b2 Suc.IH [OF _ I2] show ?thesis by simp
    qed
  qed
qed

lemma signal_used_queue_sets:
  "int_status (snd (signal_used_queue E i)) = int_status i OR VIRTIO_MMIO_INT_VRING"
  by (simp add: signal_used_queue_def Let_def split: sum.splits)


text \<open>Which guest addresses are backed does not change, and the rings and eventfds accept what
  is written to them: the behaviour a request needs to complete.\<close>

definition mem_laws :: "('q, 'm, 'e) venv \<Rightarrow> (u64 \<Rightarrow> nat \<Rightarrow> bool) \<Rightarrow> bool" where
  "mem_laws E valid \<longleftrightarrow>
     (\<forall>m a n. is_ok (m_read E m a n) \<longleftrightarrow> valid a n) \<and>
     (\<forall>m a n bs. m_read E m a n = Inr bs \<longrightarrow> length bs = n) \<and>
     (\<forall>m a bs. is_ok (m_write E m a bs) \<longleftrightarrow> valid a (length bs)) \<and>
     (\<forall>q m h n. is_ok (q_add_used E q m h n)) \<and> (\<forall>e. is_ok (e_write E e))"

lemma is_ok_iff: "is_ok r \<longleftrightarrow> (\<exists>x. r = Inr x)"
  by (cases r) auto

lemma mem_lawsD:
  assumes "mem_laws E valid"
  shows "valid a n \<Longrightarrow> \<exists>bs. m_read E m a n = Inr bs"
    and "valid a (length bs) \<Longrightarrow> \<exists>m'. m_write E m a bs = Inr m'"
    and "\<exists>q' m'. q_add_used E q m h k = Inr (q', m')"
    and "\<exists>v. e_write E e = Inr v"
    and "m_read E m a n = Inr bs \<Longrightarrow> length bs = n"
  using assms unfolding mem_laws_def is_ok_iff by (blast, blast, metis surj_pair, blast, blast)

lemma mem_laws_ring_env: "mem_laws ring_env in_page"
  by (auto simp: mem_laws_def ring_env_def page_read_def split: if_splits)

text \<open>Which pages are marked dirty.  \<open>view m p\<close> is the content of page \<open>p\<close> and
  \<open>dirty m p\<close> its mark in the dirty bitmap that guest memory carries: a change of memory
  is tracked when every page it changes ends up marked and no mark is lost.  The library
  promises this of its own writes (\<open>dirty_laws\<close>).\<close>

definition tracks :: "('m \<Rightarrow> 'p \<Rightarrow> 'v) \<Rightarrow> ('m \<Rightarrow> 'p \<Rightarrow> bool) \<Rightarrow> 'm \<Rightarrow> 'm \<Rightarrow> bool" where
  "tracks view dirty m m' \<longleftrightarrow>
     (\<forall>p. view m' p \<noteq> view m p \<longrightarrow> dirty m' p) \<and> (\<forall>p. dirty m p \<longrightarrow> dirty m' p)"

definition dirty_laws ::
  "('q, 'm, 'e) venv \<Rightarrow> ('m \<Rightarrow> 'p \<Rightarrow> 'v) \<Rightarrow> ('m \<Rightarrow> 'p \<Rightarrow> bool) \<Rightarrow> bool" where
  "dirty_laws E view dirty \<longleftrightarrow>
     (\<forall>m a bs m'. m_write E m a bs = Inr m' \<longrightarrow> tracks view dirty m m') \<and>
     (\<forall>q m h n q' m'. q_add_used E q m h n = Inr (q', m') \<longrightarrow> tracks view dirty m m')"

lemma tracks_refl [simp]: "tracks view dirty m m"
  by (simp add: tracks_def)

lemma tracks_trans [trans]:
  "tracks view dirty m m' \<Longrightarrow> tracks view dirty m' m'' \<Longrightarrow> tracks view dirty m m''"
  unfolding tracks_def by metis

lemma dirty_lawsD:
  assumes "dirty_laws E view dirty"
  shows "m_write E m a bs = Inr m' \<Longrightarrow> tracks view dirty m m'"
    and "q_add_used E q m h n = Inr (q', m') \<Longrightarrow> tracks view dirty m m'"
  using assms unfolding dirty_laws_def by blast+

text \<open>The list ring with a dirty bitmap beside the page: one mark per byte address.\<close>

type_synonym tracked_page = "page \<times> (u64 \<Rightarrow> bool)"

definition tracked_env :: "(ringq, tracked_page, nat) venv" where
  "tracked_env =
     \<lparr> q_new = q_new ring_env, q_ready = q_ready ring_env, q_set_size = q_set_size ring_env,
       q_set_ready = q_set_ready ring_env,
       q_set_desc_table_address = q_set_desc_table_address ring_env,
       q_set_avail_ring_address = q_set_avail_ring_address ring_env,
       q_set_used_ring_address = q_set_used_ring_address ring_env,
       q_state = q_state ring_env, q_try_from = q_try_from ring_env,
       q_pop = (\<lambda>q m. case rq_avail q of [] \<Rightarrow> None | c # cs \<Rightarrow> Some (c, q\<lparr> rq_avail := cs \<rparr>)),
       q_add_used = (\<lambda>q m h n. Inr (q\<lparr> rq_used := rq_used q @ [(h, n)] \<rparr>, m)),
       m_read = (\<lambda>m. m_read ring_env (fst m)),
       m_write = (\<lambda>m a bs. if in_page a (length bs)
          then Inr (page_write (fst m) a bs, \<lambda>x. snd m x \<or> (a \<le> x \<and> unat (x - a) < length bs))
          else Inl ''invalid guest address''),
       e_new = e_new ring_env, e_try_clone = e_try_clone ring_env, e_write = e_write ring_env,
       thread_spawn = thread_spawn ring_env \<rparr>"

lemma tracked_env_laws:
  "ring_laws tracked_env (\<lambda>q m. rq_avail q) (\<lambda>q m. rq_used q)"
  "mem_laws tracked_env in_page"
  "dirty_laws tracked_env fst snd"
  by (auto simp: ring_laws_def mem_laws_def dirty_laws_def tracks_def tracked_env_def ring_env_def
      page_read_def page_write_def split: list.splits if_splits)

end
