(* ===== verification/Virtio_Mmio.thy ===== *)
theory Virtio_Mmio
  imports Virtio_Env
begin

text \<open>
  The virtio-mmio transport and the I/O bus of \<open>crates/mm-vmm/src/devices/mod.rs\<close>.  The
  trait \<open>VirtioDevice\<close> is the record \<open>vtable\<close> of the device's methods; its contract is
  the locale \<open>virtio_device\<close>, in which the lemmas about the transport are proved once and
  which the theories of the four devices interpret.  The serial port of the bus is library
  code and enters through the two functions of a \<open>serial_ops\<close>.
\<close>

section \<open>Registers\<close>

definition TYPE_NET :: u32 where "TYPE_NET = 1"
definition TYPE_BLOCK :: u32 where "TYPE_BLOCK = 2"
definition TYPE_BALLOON :: u32 where "TYPE_BALLOON = 5"
definition TYPE_VSOCK :: u32 where "TYPE_VSOCK = 19"
definition VIRTIO_F_VERSION_1 :: u64 where "VIRTIO_F_VERSION_1 = 0x100000000"
abbreviation REG_MAGIC :: u64 where "REG_MAGIC \<equiv> 0x000"
abbreviation REG_VERSION :: u64 where "REG_VERSION \<equiv> 0x004"
abbreviation REG_DEVICE_ID :: u64 where "REG_DEVICE_ID \<equiv> 0x008"
abbreviation REG_VENDOR_ID :: u64 where "REG_VENDOR_ID \<equiv> 0x00c"
abbreviation REG_DEVICE_FEATURES :: u64 where "REG_DEVICE_FEATURES \<equiv> 0x010"
abbreviation REG_DEVICE_FEATURES_SEL :: u64 where "REG_DEVICE_FEATURES_SEL \<equiv> 0x014"
abbreviation REG_DRIVER_FEATURES :: u64 where "REG_DRIVER_FEATURES \<equiv> 0x020"
abbreviation REG_DRIVER_FEATURES_SEL :: u64 where "REG_DRIVER_FEATURES_SEL \<equiv> 0x024"
abbreviation REG_QUEUE_SEL :: u64 where "REG_QUEUE_SEL \<equiv> 0x030"
abbreviation REG_QUEUE_NUM_MAX :: u64 where "REG_QUEUE_NUM_MAX \<equiv> 0x034"
abbreviation REG_QUEUE_NUM :: u64 where "REG_QUEUE_NUM \<equiv> 0x038"
abbreviation REG_QUEUE_READY :: u64 where "REG_QUEUE_READY \<equiv> 0x044"
abbreviation REG_QUEUE_NOTIFY :: u64 where "REG_QUEUE_NOTIFY \<equiv> 0x050"
abbreviation REG_INTERRUPT_STATUS :: u64 where "REG_INTERRUPT_STATUS \<equiv> 0x060"
abbreviation REG_INTERRUPT_ACK :: u64 where "REG_INTERRUPT_ACK \<equiv> 0x064"
abbreviation REG_STATUS :: u64 where "REG_STATUS \<equiv> 0x070"
abbreviation REG_QUEUE_DESC_LOW :: u64 where "REG_QUEUE_DESC_LOW \<equiv> 0x080"
abbreviation REG_QUEUE_DESC_HIGH :: u64 where "REG_QUEUE_DESC_HIGH \<equiv> 0x084"
abbreviation REG_QUEUE_AVAIL_LOW :: u64 where "REG_QUEUE_AVAIL_LOW \<equiv> 0x090"
abbreviation REG_QUEUE_AVAIL_HIGH :: u64 where "REG_QUEUE_AVAIL_HIGH \<equiv> 0x094"
abbreviation REG_QUEUE_USED_LOW :: u64 where "REG_QUEUE_USED_LOW \<equiv> 0x0a0"
abbreviation REG_QUEUE_USED_HIGH :: u64 where "REG_QUEUE_USED_HIGH \<equiv> 0x0a4"
abbreviation REG_CONFIG_GENERATION :: u64 where "REG_CONFIG_GENERATION \<equiv> 0x0fc"
abbreviation REG_CONFIG_SPACE :: u64 where "REG_CONFIG_SPACE \<equiv> 0x100"
abbreviation MMIO_MAGIC_VALUE :: u32 where "MMIO_MAGIC_VALUE \<equiv> 0x74726976"
abbreviation MMIO_VERSION :: u32 where "MMIO_VERSION \<equiv> 2"
abbreviation MMIO_VENDOR_ID :: u32 where "MMIO_VENDOR_ID \<equiv> 0x4d4d0000"
definition STATUS_DRIVER_OK :: u32 where "STATUS_DRIVER_OK = 0x04"
definition STATUS_FAILED :: u32 where "STATUS_FAILED = 0x80"
abbreviation QUEUE_SIZE :: u16 where "QUEUE_SIZE \<equiv> 256"


section \<open>Devices and the transport\<close>

record ('d, 'q, 'e) vtable =
  v_device_type :: "'d \<Rightarrow> u32"
  v_queue_max_sizes :: "'d \<Rightarrow> u16 list"
  v_features :: "'d \<Rightarrow> u64"
  v_read_config :: "'d \<Rightarrow> u64 \<Rightarrow> bytes \<Rightarrow> bytes"
  v_write_config :: "u64 \<Rightarrow> bytes \<Rightarrow> 'd \<Rightarrow> 'd"
  v_activate :: "'q list \<Rightarrow> 'e list \<Rightarrow> ('d, unit) io"

record ('d, 'q, 'e) MmioTransport =
  mt_device :: 'd
  mt_interrupt :: "'e Interrupt"
  mt_queues :: "'q list"
  mt_queue_max_sizes :: "u16 list"
  mt_queue_evts :: "'e list"
  mt_queue_select :: u32
  mt_device_features_select :: u32
  mt_driver_features_select :: u32
  mt_driver_features :: u64
  mt_status :: u32
  mt_activated :: bool

text \<open>Bytes \<open>offset\<close>, \<open>offset + 1\<close>, ... of a configuration space, zero past its end.\<close>

definition config_bytes :: "bytes \<Rightarrow> u64 \<Rightarrow> nat \<Rightarrow> bytes" where
  "config_bytes cfg off n =
     map (\<lambda>i. if unat off + i < length cfg then cfg ! (unat off + i) else 0) [0..<n]"

text \<open>Collect results, stopping at the first error, as a \<open>for\<close> loop with \<open>?\<close> does.\<close>

fun collect :: "('x \<Rightarrow> string + 'y) \<Rightarrow> (string \<Rightarrow> VmmError) \<Rightarrow> 'x list \<Rightarrow> VmmError + 'y list" where
  "collect f err [] = Inr []"
| "collect f err (x # xs) =
     (case f x of
        Inl e \<Rightarrow> Inl (err e)
      | Inr y \<Rightarrow> res_bind (collect f err xs) (\<lambda>ys. Inr (y # ys)))"

definition transport_new ::
  "('d, 'q, 'e) vtable \<Rightarrow> ('q, 'm, 'e) venv \<Rightarrow> 'd \<Rightarrow> 'e Interrupt
   \<Rightarrow> VmmError + ('d, 'q, 'e) MmioTransport" where
  "transport_new V E d intr =
     (let sizes = v_queue_max_sizes V d in
      res_bind (collect (q_new E) Device sizes) (\<lambda>qs.
      res_bind (collect (\<lambda>_. e_new E) Io sizes) (\<lambda>evts.
        Inr \<lparr> mt_device = d, mt_interrupt = intr, mt_queues = qs, mt_queue_max_sizes = sizes,
              mt_queue_evts = evts, mt_queue_select = 0, mt_device_features_select = 0,
              mt_driver_features_select = 0, mt_driver_features = 0, mt_status = 0,
              mt_activated = False \<rparr>)))"

definition get_idx :: "'a list \<Rightarrow> u32 \<Rightarrow> 'a option" where
  "get_idx xs i = (if unat i < length xs then Some (xs ! unat i) else None)"

definition update_selected :: "('q \<Rightarrow> 'q) \<Rightarrow> ('d, 'q, 'e) MmioTransport \<Rightarrow> ('d, 'q, 'e) MmioTransport" where
  "update_selected f t =
     (case get_idx (mt_queues t) (mt_queue_select t) of
        None \<Rightarrow> t
      | Some q \<Rightarrow> t\<lparr> mt_queues := (mt_queues t)[unat (mt_queue_select t) := f q] \<rparr>)"

definition reg_value :: "('d, 'q, 'e) vtable \<Rightarrow> ('q, 'm, 'e) venv \<Rightarrow> u64 \<Rightarrow> ('d, 'q, 'e) MmioTransport \<Rightarrow> u32" where
  "reg_value V E off t =
     (if off = REG_MAGIC then MMIO_MAGIC_VALUE
      else if off = REG_VERSION then MMIO_VERSION
      else if off = REG_DEVICE_ID then v_device_type V (mt_device t)
      else if off = REG_VENDOR_ID then MMIO_VENDOR_ID
      else if off = REG_DEVICE_FEATURES then
        (let f = v_features V (mt_device t) in
         if mt_device_features_select t = 1 then ucast (drop_bit 32 f) else ucast f)
      else if off = REG_QUEUE_NUM_MAX then
        (case get_idx (mt_queue_max_sizes t) (mt_queue_select t) of Some s \<Rightarrow> ucast s | None \<Rightarrow> 0)
      else if off = REG_QUEUE_READY then
        (case get_idx (mt_queues t) (mt_queue_select t) of
           Some q \<Rightarrow> (if q_ready E q then 1 else 0) | None \<Rightarrow> 0)
      else if off = REG_INTERRUPT_STATUS then int_status (mt_interrupt t)
      else if off = REG_STATUS then mt_status t
      else if off = REG_CONFIG_GENERATION then 0
      else 0)"

definition transport_read ::
  "('d, 'q, 'e) vtable \<Rightarrow> ('q, 'm, 'e) venv \<Rightarrow> u64 \<Rightarrow> bytes \<Rightarrow> ('d, 'q, 'e) MmioTransport \<Rightarrow> bytes" where
  "transport_read V E off data t =
     (if REG_CONFIG_SPACE \<le> off then v_read_config V (mt_device t) (off - REG_CONFIG_SPACE) data
      else if length data \<noteq> 4 then data
      else le_bytes 4 (reg_value V E off t))"

definition transport_notify ::
  "('q, 'm, 'e) venv \<Rightarrow> u32 \<Rightarrow> ('d, 'q, 'e) MmioTransport \<Rightarrow> ('d, 'q, 'e) MmioTransport" where
  "transport_notify E i t =
     (case get_idx (mt_queue_evts t) i of
        None \<Rightarrow> t
      | Some e \<Rightarrow> (case e_write E e of
                     Inl _ \<Rightarrow> t
                   | Inr e' \<Rightarrow> t\<lparr> mt_queue_evts := (mt_queue_evts t)[unat i := e'] \<rparr>))"

definition transport_activate ::
  "('d, 'q, 'e) vtable \<Rightarrow> ('q, 'm, 'e) venv \<Rightarrow> (('d, 'q, 'e) MmioTransport, unit) io" where
  "transport_activate V E t =
     (let qs = mt_queues t; t = t\<lparr> mt_queues := [] \<rparr> in
      case collect (e_try_clone E) Io (mt_queue_evts t) of
        Inl e \<Rightarrow> (Inl e, t)
      | Inr evts \<Rightarrow> (case v_activate V qs evts (mt_device t) of (r, d) \<Rightarrow> (r, t\<lparr> mt_device := d \<rparr>)))"

definition set_status ::
  "('d, 'q, 'e) vtable \<Rightarrow> ('q, 'm, 'e) venv \<Rightarrow> u32 \<Rightarrow> ('d, 'q, 'e) MmioTransport
   \<Rightarrow> ('d, 'q, 'e) MmioTransport" where
  "set_status V E v t =
     (if v = 0 then t\<lparr> mt_status := 0, mt_activated := False \<rparr>
      else
        let t = t\<lparr> mt_status := v \<rparr> in
        if v AND STATUS_DRIVER_OK \<noteq> 0 \<and> \<not> mt_activated t then
          (case transport_activate V E t of
             (Inl e, t) \<Rightarrow> t\<lparr> mt_status := mt_status t OR STATUS_FAILED \<rparr>
           | (Inr _, t) \<Rightarrow> t\<lparr> mt_activated := True \<rparr>)
        else t)"

definition transport_write ::
  "('d, 'q, 'e) vtable \<Rightarrow> ('q, 'm, 'e) venv \<Rightarrow> u64 \<Rightarrow> bytes \<Rightarrow> ('d, 'q, 'e) MmioTransport
   \<Rightarrow> ('d, 'q, 'e) MmioTransport" where
  "transport_write V E off data t =
     (if REG_CONFIG_SPACE \<le> off
      then t\<lparr> mt_device := v_write_config V (off - REG_CONFIG_SPACE) data (mt_device t) \<rparr>
      else if length data \<noteq> 4 then t
      else
        let v = le_word data :: u32 in
        if off = REG_DEVICE_FEATURES_SEL then t\<lparr> mt_device_features_select := v \<rparr>
        else if off = REG_DRIVER_FEATURES then
          (let shift = (if mt_driver_features_select t = 1 then 32 else 0);
               mask = push_bit shift 0xffffffff in
           t\<lparr> mt_driver_features := (mt_driver_features t AND NOT mask) OR push_bit shift (ucast v) \<rparr>)
        else if off = REG_DRIVER_FEATURES_SEL then t\<lparr> mt_driver_features_select := v \<rparr>
        else if off = REG_QUEUE_SEL then t\<lparr> mt_queue_select := v \<rparr>
        else if off = REG_QUEUE_NUM then update_selected (q_set_size E (ucast v)) t
        else if off = REG_QUEUE_READY then update_selected (q_set_ready E (v = 1)) t
        else if off = REG_QUEUE_NOTIFY then transport_notify E v t
        else if off = REG_INTERRUPT_ACK then t\<lparr> mt_interrupt := interrupt_ack v (mt_interrupt t) \<rparr>
        else if off = REG_STATUS then set_status V E v t
        else if off = REG_QUEUE_DESC_LOW then
          update_selected (q_set_desc_table_address E (Some v) None) t
        else if off = REG_QUEUE_DESC_HIGH then
          update_selected (q_set_desc_table_address E None (Some v)) t
        else if off = REG_QUEUE_AVAIL_LOW then
          update_selected (q_set_avail_ring_address E (Some v) None) t
        else if off = REG_QUEUE_AVAIL_HIGH then
          update_selected (q_set_avail_ring_address E None (Some v)) t
        else if off = REG_QUEUE_USED_LOW then
          update_selected (q_set_used_ring_address E (Some v) None) t
        else if off = REG_QUEUE_USED_HIGH then
          update_selected (q_set_used_ring_address E None (Some v)) t
        else t)"

text \<open>The queues of a restored device: from the saved cursors, fresh ones past their end.\<close>

fun restore_queues ::
  "('q, 'm, 'e) venv \<Rightarrow> u16 list \<Rightarrow> QueueCursor list \<Rightarrow> VmmError + 'q list" where
  "restore_queues E [] cs = Inr []"
| "restore_queues E (mx # ms) cs =
     (case (case cs of c # _ \<Rightarrow> q_try_from E (state_of_cursor c) | [] \<Rightarrow> q_new E mx) of
        Inl e \<Rightarrow> Inl (Device e)
      | Inr q \<Rightarrow> res_bind (restore_queues E ms (tl cs)) (\<lambda>qs. Inr (q # qs)))"

definition restore_activate ::
  "('d, 'q, 'e) vtable \<Rightarrow> ('q, 'm, 'e) venv \<Rightarrow> QueueCursor list \<Rightarrow> (('d, 'q, 'e) MmioTransport, unit) io" where
  "restore_activate V E cursors t =
     (if mt_activated t then (Inr (), t)
      else if length (mt_queue_max_sizes t) < length cursors
      then (Inl (Device ''restore: too many queue cursors''), t)
      else case restore_queues E (mt_queue_max_sizes t) cursors of
             Inl e \<Rightarrow> (Inl e, t)
           | Inr qs \<Rightarrow>
               (case transport_activate V E (t\<lparr> mt_queues := qs \<rparr>) of
                  (Inl e, t) \<Rightarrow> (Inl e, t)
                | (Inr _, t) \<Rightarrow>
                    (Inr (), t\<lparr> mt_activated := True, mt_status := mt_status t OR STATUS_DRIVER_OK \<rparr>)))"


section \<open>Worker control\<close>

text \<open>What a worker's poll reports, and what the worker does after a round.\<close>

datatype poll_result = PollInterrupted | PollFailed | Polled (notify_in: bool) (pause_in: bool)

datatype control = Continue | Park | Exit


section \<open>The bus\<close>

record 't MmioRange =
  mr_base :: u64
  mr_size :: u64
  mr_transport :: 't

record ('t, 's) Bus =
  bus_mmio :: "'t MmioRange list"
  bus_serial :: "'s option"

abbreviation COM1_BASE_PORT :: u16 where "COM1_BASE_PORT \<equiv> 0x3f8"

record 's serial_ops =
  serial_read :: "u8 \<Rightarrow> 's \<Rightarrow> u8 \<times> 's"
  serial_write :: "u8 \<Rightarrow> u8 \<Rightarrow> 's \<Rightarrow> 's"

definition bus_new :: "('t, 's) Bus" where
  "bus_new = \<lparr> bus_mmio = [], bus_serial = None \<rparr>"

definition add_mmio_device :: "u64 \<Rightarrow> u64 \<Rightarrow> 't \<Rightarrow> ('t, 's) Bus \<Rightarrow> ('t, 's) Bus" where
  "add_mmio_device base sz t b =
     b\<lparr> bus_mmio := bus_mmio b @ [\<lparr> mr_base = base, mr_size = sz, mr_transport = t \<rparr>] \<rparr>"

definition set_serial :: "'s \<Rightarrow> ('t, 's) Bus \<Rightarrow> ('t, 's) Bus" where
  "set_serial s b = b\<lparr> bus_serial := Some s \<rparr>"

text \<open>Index of the first range holding an address.\<close>

fun range_index :: "u64 \<Rightarrow> 't MmioRange list \<Rightarrow> nat option" where
  "range_index a [] = None"
| "range_index a (r # rs) =
     (if mr_base r \<le> a \<and> a < mr_base r + mr_size r then Some 0
      else map_option Suc (range_index a rs))"

definition is_com1 :: "u16 \<Rightarrow> bool" where
  "is_com1 port \<longleftrightarrow> COM1_BASE_PORT \<le> port \<and> port < COM1_BASE_PORT + 8"

definition pio_read :: "'s serial_ops \<Rightarrow> u16 \<Rightarrow> bytes \<Rightarrow> ('t, 's) Bus \<Rightarrow> bytes \<times> ('t, 's) Bus" where
  "pio_read S port data b =
     (case bus_serial b of
        None \<Rightarrow> (data, b)
      | Some s \<Rightarrow>
          if is_com1 port \<and> length data = 1
          then (case serial_read S (ucast (port - COM1_BASE_PORT)) s of
                  (v, s') \<Rightarrow> ([v], b\<lparr> bus_serial := Some s' \<rparr>))
          else (data, b))"

definition pio_write :: "'s serial_ops \<Rightarrow> u16 \<Rightarrow> bytes \<Rightarrow> ('t, 's) Bus \<Rightarrow> ('t, 's) Bus" where
  "pio_write S port data b =
     (case bus_serial b of
        None \<Rightarrow> b
      | Some s \<Rightarrow>
          if is_com1 port \<and> length data = 1
          then b\<lparr> bus_serial := Some (serial_write S (ucast (port - COM1_BASE_PORT)) (data ! 0) s) \<rparr>
          else b)"

definition mmio_read ::
  "('d, 'q, 'e) vtable \<Rightarrow> ('q, 'm, 'e) venv \<Rightarrow> u64 \<Rightarrow> bytes
   \<Rightarrow> (('d, 'q, 'e) MmioTransport, 's) Bus \<Rightarrow> bytes" where
  "mmio_read V E addr data b =
     (case range_index addr (bus_mmio b) of
        None \<Rightarrow> data
      | Some i \<Rightarrow> (let r = bus_mmio b ! i in
                    transport_read V E (addr - mr_base r) data (mr_transport r)))"

definition mmio_write ::
  "('d, 'q, 'e) vtable \<Rightarrow> ('q, 'm, 'e) venv \<Rightarrow> u64 \<Rightarrow> bytes
   \<Rightarrow> (('d, 'q, 'e) MmioTransport, 's) Bus \<Rightarrow> (('d, 'q, 'e) MmioTransport, 's) Bus" where
  "mmio_write V E addr data b =
     (case range_index addr (bus_mmio b) of
        None \<Rightarrow> b
      | Some i \<Rightarrow> (let r = bus_mmio b ! i in
          b\<lparr> bus_mmio := (bus_mmio b)[i := r\<lparr> mr_transport :=
                transport_write V E (addr - mr_base r) data (mr_transport r) \<rparr>] \<rparr>))"

text \<open>A sequence of guest register writes.\<close>

definition guest_writes ::
  "('d, 'q, 'e) vtable \<Rightarrow> ('q, 'm, 'e) venv \<Rightarrow> (u64 \<times> bytes) list
   \<Rightarrow> ('d, 'q, 'e) MmioTransport \<Rightarrow> ('d, 'q, 'e) MmioTransport" where
  "guest_writes V E ws t = fold (\<lambda>(off, data). transport_write V E off data) ws t"


section \<open>Lemmas on the transport\<close>


lemma collect_length: "collect f err xs = Inr ys \<Longrightarrow> length ys = length xs"
  by (induction xs arbitrary: ys) (auto simp: res_bind_Inr_iff split: sum.splits)

lemma restore_queues_length: "restore_queues E ms cs = Inr qs \<Longrightarrow> length qs = length ms"
  by (induction E ms cs arbitrary: qs rule: restore_queues.induct)
     (auto simp: res_bind_Inr_iff split: sum.splits list.splits)

lemma update_selected_simps [simp]:
  "mt_activated (update_selected f t) = mt_activated t"
  "mt_device (update_selected f t) = mt_device t"
  "mt_status (update_selected f t) = mt_status t"
  "mt_queue_evts (update_selected f t) = mt_queue_evts t"
  "mt_queue_max_sizes (update_selected f t) = mt_queue_max_sizes t"
  "mt_queue_select (update_selected f t) = mt_queue_select t"
  "mt_interrupt (update_selected f t) = mt_interrupt t"
  "length (mt_queues (update_selected f t)) = length (mt_queues t)"
  by (simp_all add: update_selected_def split: option.splits)

lemma transport_notify_simps [simp]:
  "mt_activated (transport_notify E i t) = mt_activated t"
  "mt_device (transport_notify E i t) = mt_device t"
  "mt_status (transport_notify E i t) = mt_status t"
  "mt_queues (transport_notify E i t) = mt_queues t"
  "mt_queue_max_sizes (transport_notify E i t) = mt_queue_max_sizes t"
  "length (mt_queue_evts (transport_notify E i t)) = length (mt_queue_evts t)"
  by (simp_all add: transport_notify_def split: option.splits sum.splits)

lemma transport_activate_simps [simp]:
  "mt_queues (snd (transport_activate V E t)) = []"
  "mt_status (snd (transport_activate V E t)) = mt_status t"
  "mt_activated (snd (transport_activate V E t)) = mt_activated t"
  "mt_queue_max_sizes (snd (transport_activate V E t)) = mt_queue_max_sizes t"
  "mt_queue_evts (snd (transport_activate V E t)) = mt_queue_evts t"
  by (simp_all add: transport_activate_def Let_def split: sum.splits prod.splits)

text \<open>A write outside the status register neither activates nor moves queues.\<close>

lemma transport_write_other:
  assumes "off \<noteq> REG_STATUS"
  shows "mt_activated (transport_write V E off data t) = mt_activated t"
    and "mt_status (transport_write V E off data t) = mt_status t"
    and "length (mt_queues (transport_write V E off data t)) = length (mt_queues t)"
    and "length (mt_queue_evts (transport_write V E off data t)) = length (mt_queue_evts t)"
    and "mt_queue_max_sizes (transport_write V E off data t) = mt_queue_max_sizes t"
  using assms unfolding transport_write_def Let_def by simp_all

lemma transport_write_status:
  "transport_write V E REG_STATUS data t =
     (if length data \<noteq> 4 then t else set_status V E (le_word data) t)"
  by (simp add: transport_write_def Let_def)

lemma set_status_cases:
  obtains (Reset) "v = 0" "set_status V E v t = t\<lparr> mt_status := 0, mt_activated := False \<rparr>"
  | (Plain) "v \<noteq> 0" "v AND STATUS_DRIVER_OK = 0 \<or> mt_activated t"
      "set_status V E v t = t\<lparr> mt_status := v \<rparr>"
  | (Failed) e t' where "v \<noteq> 0" "v AND STATUS_DRIVER_OK \<noteq> 0" "\<not> mt_activated t"
      "transport_activate V E (t\<lparr> mt_status := v \<rparr>) = (Inl e, t')"
      "set_status V E v t = t'\<lparr> mt_status := mt_status t' OR STATUS_FAILED \<rparr>"
  | (Live) t' where "v \<noteq> 0" "v AND STATUS_DRIVER_OK \<noteq> 0" "\<not> mt_activated t"
      "transport_activate V E (t\<lparr> mt_status := v \<rparr>) = (Inr (), t')"
      "set_status V E v t = t'\<lparr> mt_activated := True \<rparr>"
proof -
  consider "v = 0" | "v \<noteq> 0" "v AND STATUS_DRIVER_OK = 0 \<or> mt_activated t"
    | "v \<noteq> 0" "v AND STATUS_DRIVER_OK \<noteq> 0" "\<not> mt_activated t"
    by blast
  then show thesis
  proof cases
    case 1
    then show thesis by (intro Reset) (simp_all add: set_status_def)
  next
    case 2
    then show thesis by (intro Plain) (auto simp: set_status_def)
  next
    case 3
    obtain r t' where a: "transport_activate V E (t\<lparr> mt_status := v \<rparr>) = (r, t')" by fastforce
    show thesis
    proof (cases r)
      case (Inl e)
      with 3 a show thesis by (intro Failed [of e t']) (simp_all add: set_status_def)
    next
      case (Inr u)
      with 3 a show thesis by (intro Live [of t']) (simp_all add: set_status_def)
    qed
  qed
qed

lemma guest_writes_Nil [simp]: "guest_writes V E [] t = t"
  by (simp add: guest_writes_def)

lemma guest_writes_Cons [simp]:
  "guest_writes V E ((off, data) # ws) t = guest_writes V E ws (transport_write V E off data t)"
  by (simp add: guest_writes_def)

text \<open>The shape of a transport: one eventfd per queue, and either all queues or, once they
  have been handed to the device, none.\<close>

definition transport_wf :: "('d, 'q, 'e) MmioTransport \<Rightarrow> bool" where
  "transport_wf t \<longleftrightarrow>
     length (mt_queue_evts t) = length (mt_queue_max_sizes t) \<and>
     (mt_queues t = [] \<or> length (mt_queues t) = length (mt_queue_max_sizes t)) \<and>
     (mt_activated t \<longrightarrow> mt_queues t = [])"

lemma transport_wf_new: "transport_new V E d i = Inr t \<Longrightarrow> transport_wf t"
  by (auto simp: transport_new_def Let_def res_bind_Inr_iff transport_wf_def collect_length)

lemma transport_wf_write: "transport_wf t \<Longrightarrow> transport_wf (transport_write V E off data t)"
proof (cases "off = REG_STATUS")
  case False
  assume "transport_wf t"
  then show ?thesis
    using transport_write_other [OF False, of V E data t]
    by (auto simp: transport_wf_def simp flip: length_0_conv)
next
  case True
  assume wf: "transport_wf t"
  have "transport_wf (set_status V E v t)" for v
  proof (cases rule: set_status_cases [of v V E t])
    case (Failed e t')
    then show ?thesis using wf transport_activate_simps [of V E "t\<lparr> mt_status := v \<rparr>"]
      by (simp add: transport_wf_def)
  next
    case (Live t')
    then show ?thesis using wf transport_activate_simps [of V E "t\<lparr> mt_status := v \<rparr>"]
      by (simp add: transport_wf_def)
  qed (use wf in \<open>auto simp: transport_wf_def\<close>)
  with True wf show ?thesis by (simp add: transport_write_status)
qed

lemma transport_wf_writes: "transport_wf t \<Longrightarrow> transport_wf (guest_writes V E ws t)"
  by (induction ws arbitrary: t) (auto simp: transport_wf_write)


section \<open>The contract of a device\<close>

locale virtio_device =
  fixes V :: "('d, 'q, 'e) vtable"
  assumes version_1: "bit (v_features V d) 32"
    and config_length: "length (v_read_config V d off data) = length data"
    and config_read_only: "v_write_config V off data d = d"
    and needs_queues: "\<exists>e. v_activate V [] evts d = (Inl e, d)"
    and activate_type: "v_device_type V (snd (v_activate V qs evts d)) = v_device_type V d"
    and activate_sizes: "v_queue_max_sizes V (snd (v_activate V qs evts d)) = v_queue_max_sizes V d"
    and activate_features: "v_features V (snd (v_activate V qs evts d)) = v_features V d"
begin

lemma activate_empty_fails:
  assumes "mt_queues t = []"
  shows "\<exists>e. transport_activate V E t = (Inl e, t)"
proof -
  have t: "t\<lparr> mt_queues := [] \<rparr> = t" using assms by simp
  show ?thesis
  proof (cases "collect (e_try_clone E) Io (mt_queue_evts t)")
    case (Inl e)
    with assms t show ?thesis by (simp add: transport_activate_def Let_def)
  next
    case (Inr evts)
    obtain e where "v_activate V [] evts (mt_device t) = (Inl e, mt_device t)"
      using needs_queues by blast
    with Inr assms t show ?thesis by (simp add: transport_activate_def Let_def)
  qed
qed

text \<open>Once the queues are gone and the device is not live, no register write revives it.\<close>

lemma write_keeps_dead:
  assumes "mt_queues t = []" and "\<not> mt_activated t"
  shows "mt_queues (transport_write V E off data t) = [] \<and>
         \<not> mt_activated (transport_write V E off data t)"
proof (cases "off = REG_STATUS")
  case False
  from transport_write_other [OF False, of V E data t] assms show ?thesis by auto
next
  case True
  have "mt_queues (set_status V E v t) = [] \<and> \<not> mt_activated (set_status V E v t)" for v
  proof (cases rule: set_status_cases [of v V E t])
    case (Failed e t')
    with assms activate_empty_fails [of "t\<lparr> mt_status := v \<rparr>" E] show ?thesis by auto
  next
    case (Live t')
    with assms activate_empty_fails [of "t\<lparr> mt_status := v \<rparr>" E] show ?thesis by auto
  qed (use assms in auto)
  with True assms show ?thesis by (simp add: transport_write_status)
qed

lemma dead_stays_dead:
  assumes "mt_queues t = []" and "\<not> mt_activated t"
  shows "mt_queues (guest_writes V E ws t) = [] \<and> \<not> mt_activated (guest_writes V E ws t)"
  using assms
proof (induction ws arbitrary: t)
  case Nil
  then show ?case by simp
next
  case (Cons w ws)
  then show ?case using write_keeps_dead [OF Cons.prems, where E = E] by (cases w) simp
qed

lemma dead_driver_ok_fails:
  assumes "mt_queues t = []" and "\<not> mt_activated t"
    and "v AND STATUS_DRIVER_OK \<noteq> 0"
  shows "set_status V E v t = t\<lparr> mt_status := v OR STATUS_FAILED \<rparr>"
proof (cases rule: set_status_cases [of v V E t])
  case (Failed e t')
  with assms activate_empty_fails [of "t\<lparr> mt_status := v \<rparr>" E] show ?thesis by auto
next
  case (Live t')
  with assms activate_empty_fails [of "t\<lparr> mt_status := v \<rparr>" E] show ?thesis by auto
qed (use assms in auto)

text \<open>A live device that is reset has no queues left, whatever is written afterwards.\<close>

lemma reset_is_final:
  assumes "transport_wf t" and "mt_activated t"
  shows "\<not> mt_activated (guest_writes V E ws (set_status V E 0 t)) \<and>
         (v AND STATUS_DRIVER_OK \<noteq> 0 \<longrightarrow>
           mt_status (set_status V E v (guest_writes V E ws (set_status V E 0 t))) = v OR STATUS_FAILED)"
proof -
  let ?t0 = "set_status V E 0 t"
  have "mt_queues ?t0 = []" "\<not> mt_activated ?t0"
    using assms by (auto simp: set_status_def transport_wf_def)
  from dead_stays_dead [OF this, of E ws] dead_driver_ok_fails [of "guest_writes V E ws ?t0" v E]
  show ?thesis by simp
qed

text \<open>The driver reads the 64 feature bits in two halves.\<close>

lemma features_read_back:
  assumes "lo = reg_value V E REG_DEVICE_FEATURES (t\<lparr> mt_device_features_select := 0 \<rparr>)"
    and "hi = reg_value V E REG_DEVICE_FEATURES (t\<lparr> mt_device_features_select := 1 \<rparr>)"
  shows "push_bit 32 (ucast hi) OR ucast lo = v_features V (mt_device t) \<and> bit hi 0"
proof -
  have "push_bit 32 (ucast hi) OR ucast lo = v_features V (mt_device t)"
    unfolding assms by (rule bit_word_eqI) (auto simp: reg_value_def bit_simps)
  moreover have "bit hi 0"
    using version_1 unfolding assms by (simp add: reg_value_def bit_simps)
  ultimately show ?thesis ..
qed

lemma transport_read_length: "length (transport_read V E off data t) = length data"
  by (simp add: transport_read_def config_length)

end

text \<open>Driver features written in two halves, in either order of selection.\<close>

lemma driver_features_written:
  assumes "length lo = 4" and "length hi = 4" and "length one = 4" and "length zero = 4"
    and "(le_word one :: u32) = 1" and "(le_word zero :: u32) = 0"
  shows "mt_driver_features (guest_writes V E
           [(REG_DRIVER_FEATURES_SEL, zero), (REG_DRIVER_FEATURES, lo),
            (REG_DRIVER_FEATURES_SEL, one), (REG_DRIVER_FEATURES, hi)] t)
         = push_bit 32 (ucast (le_word hi :: u32)) OR ucast (le_word lo :: u32)"
proof -
  have halves: "((x AND NOT M) OR ucast (a :: u32)) AND NOT (push_bit 32 M) OR push_bit 32 (ucast b)
        = push_bit 32 (ucast b) OR ucast a"
    if "\<And>n. bit M n \<longleftrightarrow> n < 32" for M x :: u64 and a b :: u32
    by (rule bit_word_eqI) (auto simp: bit_simps that dest: bit_imp_le_length)
  have e: "(0xffffffff :: u64) = mask 32" by (simp add: mask_eq_exp_minus_1)
  have "bit (0xffffffff :: u64) n \<longleftrightarrow> n < 32" for n
    unfolding e bit_mask_iff by auto
  from halves [OF this] have "((x AND NOT 0xffffffff) OR ucast (a :: u32))
        AND NOT (push_bit 32 0xffffffff) OR push_bit 32 (ucast b)
        = push_bit 32 (ucast b) OR (ucast a :: u64)" for x :: u64 and a b :: u32 .
  with assms show ?thesis by (simp add: transport_write_def)
qed


section \<open>Lemmas on the bus\<close>

definition ranges_disjoint :: "'t MmioRange list \<Rightarrow> bool" where
  "ranges_disjoint rs \<longleftrightarrow>
     (\<forall>i < length rs. \<forall>j < length rs. \<forall>a. i \<noteq> j \<longrightarrow>
        mr_base (rs ! i) \<le> a \<longrightarrow> a < mr_base (rs ! i) + mr_size (rs ! i) \<longrightarrow>
        \<not> (mr_base (rs ! j) \<le> a \<and> a < mr_base (rs ! j) + mr_size (rs ! j)))"

lemma range_index_SomeD:
  "range_index a rs = Some i \<Longrightarrow>
   i < length rs \<and> mr_base (rs ! i) \<le> a \<and> a < mr_base (rs ! i) + mr_size (rs ! i)"
  by (induction rs arbitrary: i) (auto split: if_splits)

lemma range_index_None:
  "range_index a rs = None \<Longrightarrow> i < length rs \<Longrightarrow>
   \<not> (mr_base (rs ! i) \<le> a \<and> a < mr_base (rs ! i) + mr_size (rs ! i))"
  by (induction rs arbitrary: i) (auto simp: nth_Cons split: if_splits nat.splits)

lemma range_index_unique:
  assumes "ranges_disjoint rs" and "i < length rs" and "mr_base (rs ! i) \<le> a"
    and "a < mr_base (rs ! i) + mr_size (rs ! i)"
  shows "range_index a rs = Some i"
proof (cases "range_index a rs")
  case None
  with assms show ?thesis using range_index_None by blast
next
  case (Some j)
  with range_index_SomeD [OF Some] assms show ?thesis
    unfolding ranges_disjoint_def by blast
qed

end
