(* ===== verification/Vcpu.thy ===== *)
theory Vcpu
  imports Virtio_Mmio
begin

text \<open>
  The virtual CPU of \<open>crates/mm-vmm/src/vcpu.rs\<close>: the boot-protocol state (descriptor table,
  page tables, MSRs, registers), the CPUID table, the run loop that dispatches exits to the
  bus, and the capture and restore of the execution context.  The \<open>KVM_*\<close> calls on a vCPU
  are library code: the fields of a record \<open>vcpu_ops\<close> over an abstract vCPU handle.
\<close>

section \<open>Descriptor table and segments\<close>

definition BOOT_GDT_OFFSET :: u64 where "BOOT_GDT_OFFSET = 0x500"
definition BOOT_IDT_OFFSET :: u64 where "BOOT_IDT_OFFSET = 0x520"
definition BOOT_GDT_ENTRIES :: nat where "BOOT_GDT_ENTRIES = 4"
definition PML4_START :: u64 where "PML4_START = 0x9000"
definition PDPTE_START :: u64 where "PDPTE_START = 0xa000"
definition PDE_START :: u64 where "PDE_START = 0xb000"
abbreviation BOOT_STACK_POINTER :: u64 where "BOOT_STACK_POINTER \<equiv> 0x8ff0"
definition X86_CR0_PE :: u64 where "X86_CR0_PE = 1"
definition X86_CR0_PG :: u64 where "X86_CR0_PG = 0x80000000"
definition X86_CR4_PAE :: u64 where "X86_CR4_PAE = 0x20"
definition EFER_LME :: u64 where "EFER_LME = 0x100"
definition EFER_LMA :: u64 where "EFER_LMA = 0x400"
definition PTE_PRESENT_RW :: u64 where "PTE_PRESENT_RW = 3"
definition PDE_PRESENT_RW_PS :: u64 where "PDE_PRESENT_RW_PS = 0x83"

text \<open>The structures of the KVM interface.  \<open>sr_rest\<close> stands for the special registers that
  the code leaves as KVM reports them.\<close>

record kvm_segment =
  seg_base :: u64
  seg_limit :: u32
  seg_selector :: u16
  seg_type :: u8
  seg_present :: u8
  seg_dpl :: u8
  seg_db :: u8
  seg_s :: u8
  seg_l :: u8
  seg_g :: u8
  seg_avl :: u8
  seg_unusable :: u8

record kvm_sregs =
  sr_cs :: kvm_segment
  sr_ds :: kvm_segment
  sr_es :: kvm_segment
  sr_fs :: kvm_segment
  sr_gs :: kvm_segment
  sr_ss :: kvm_segment
  sr_tr :: kvm_segment
  sr_gdt :: "u64 \<times> u16"
  sr_idt :: "u64 \<times> u16"
  sr_cr0 :: u64
  sr_cr3 :: u64
  sr_cr4 :: u64
  sr_efer :: u64
  sr_rest :: "u64 list"

definition gdt_entry :: "u16 \<Rightarrow> u32 \<Rightarrow> u32 \<Rightarrow> u64" where
  "gdt_entry flags base limit =
     push_bit 32 (ucast base AND 0xff000000) OR push_bit 40 (ucast flags AND 0xf0ff) OR
     push_bit 32 (ucast limit AND 0xf0000) OR push_bit 16 (ucast base AND 0xffffff) OR
     (ucast limit AND 0xffff)"

definition kvm_segment_from_gdt :: "u64 \<Rightarrow> u8 \<Rightarrow> kvm_segment" where
  "kvm_segment_from_gdt entry table_index =
     (let present = ucast (drop_bit 47 entry AND 1) in
      \<lparr> seg_base = (drop_bit 16 entry AND 0xffffff) OR (drop_bit 32 entry AND 0xff000000),
        seg_limit = ucast (drop_bit 32 (entry AND 0x000f000000000000) OR (entry AND 0xffff)),
        seg_selector = ucast table_index * 8,
        seg_type = ucast (drop_bit 40 entry AND 0xf),
        seg_present = present,
        seg_dpl = ucast (drop_bit 45 entry AND 3),
        seg_db = ucast (drop_bit 54 entry AND 1),
        seg_s = ucast (drop_bit 44 entry AND 1),
        seg_l = ucast (drop_bit 53 entry AND 1),
        seg_g = ucast (drop_bit 55 entry AND 1),
        seg_avl = ucast (drop_bit 52 entry AND 1),
        seg_unusable = (if present = 0 then 1 else 0) \<rparr>)"

definition boot_gdt :: "u64 list" where
  "boot_gdt = [gdt_entry 0 0 0, gdt_entry 0xa09b 0 0xfffff, gdt_entry 0xc093 0 0xfffff,
               gdt_entry 0x808b 0 0xfffff]"

text \<open>Writing 64-bit words to consecutive places of guest memory, with \<open>?\<close> at each.\<close>

fun write_words :: "('q, 'm, 'e) venv \<Rightarrow> (u64 \<times> u64) list \<Rightarrow> ('m, unit) io" where
  "write_words E [] m = (Inr (), m)"
| "write_words E ((addr, v) # ws) m =
     (case m_write E m addr (le_bytes 8 v) of
        Inl e \<Rightarrow> (Inl (Memory e), m)
      | Inr m' \<Rightarrow> write_words E ws m')"

definition configure_segments_and_sregs ::
  "('q, 'm, 'e) venv \<Rightarrow> kvm_sregs \<Rightarrow> ('m, kvm_sregs) io" where
  "configure_segments_and_sregs E s =
     (let code = kvm_segment_from_gdt (boot_gdt ! 1) 1; data = kvm_segment_from_gdt (boot_gdt ! 2) 2;
          tss = kvm_segment_from_gdt (boot_gdt ! 3) 3 in
      io_bind (write_words E (map (\<lambda>i. (BOOT_GDT_OFFSET + of_nat (i * 8), boot_gdt ! i)) [0..<BOOT_GDT_ENTRIES]))
        (\<lambda>_. io_bind (write_words E [(BOOT_IDT_OFFSET, 0)])
        (\<lambda>_. io_return (s\<lparr> sr_gdt := (BOOT_GDT_OFFSET, of_nat (BOOT_GDT_ENTRIES * 8 - 1)),
           sr_idt := (BOOT_IDT_OFFSET, 7), sr_cs := code, sr_ds := data, sr_es := data,
           sr_fs := data, sr_gs := data, sr_ss := data, sr_tr := tss,
           sr_cr0 := sr_cr0 s OR X86_CR0_PE, sr_efer := sr_efer s OR (EFER_LME OR EFER_LMA) \<rparr>))))"


section \<open>Page tables\<close>

definition pde_entry :: "nat \<Rightarrow> u64 \<times> u64" where
  "pde_entry i = (PDE_START + of_nat (i * 8), push_bit 21 (of_nat i) OR PDE_PRESENT_RW_PS)"

definition setup_page_tables :: "('q, 'm, 'e) venv \<Rightarrow> kvm_sregs \<Rightarrow> ('m, kvm_sregs) io" where
  "setup_page_tables E s =
     io_bind (write_words E [(PML4_START, PDPTE_START OR PTE_PRESENT_RW), (PDPTE_START, PDE_START OR PTE_PRESENT_RW)])
       (\<lambda>_. io_bind (write_words E (map pde_entry [0..<512]))
       (\<lambda>_. io_return (s\<lparr> sr_cr3 := PML4_START, sr_cr4 := sr_cr4 s OR X86_CR4_PAE,
                           sr_cr0 := sr_cr0 s OR X86_CR0_PG \<rparr>)))"


section \<open>Registers, MSRs and CPUID\<close>

abbreviation MSR_IA32_SYSENTER_CS :: u32 where "MSR_IA32_SYSENTER_CS \<equiv> 0x174"
abbreviation MSR_IA32_SYSENTER_ESP :: u32 where "MSR_IA32_SYSENTER_ESP \<equiv> 0x175"
abbreviation MSR_IA32_SYSENTER_EIP :: u32 where "MSR_IA32_SYSENTER_EIP \<equiv> 0x176"
abbreviation MSR_IA32_TSC :: u32 where "MSR_IA32_TSC \<equiv> 0x10"
abbreviation MSR_IA32_MISC_ENABLE :: u32 where "MSR_IA32_MISC_ENABLE \<equiv> 0x1a0"
abbreviation MSR_IA32_MISC_ENABLE_FAST_STRING :: u64 where "MSR_IA32_MISC_ENABLE_FAST_STRING \<equiv> 1"
abbreviation MSR_STAR :: u32 where "MSR_STAR \<equiv> 0xc0000081"
abbreviation MSR_LSTAR :: u32 where "MSR_LSTAR \<equiv> 0xc0000082"
abbreviation MSR_CSTAR :: u32 where "MSR_CSTAR \<equiv> 0xc0000083"
abbreviation MSR_SYSCALL_MASK :: u32 where "MSR_SYSCALL_MASK \<equiv> 0xc0000084"
abbreviation MSR_FS_BASE :: u32 where "MSR_FS_BASE \<equiv> 0xc0000100"
abbreviation MSR_GS_BASE :: u32 where "MSR_GS_BASE \<equiv> 0xc0000101"
abbreviation MSR_KERNEL_GS_BASE :: u32 where "MSR_KERNEL_GS_BASE \<equiv> 0xc0000102"
abbreviation MSR_IA32_TSC_DEADLINE :: u32 where "MSR_IA32_TSC_DEADLINE \<equiv> 0x6e0"
abbreviation MSR_KVM_WALL_CLOCK_NEW :: u32 where "MSR_KVM_WALL_CLOCK_NEW \<equiv> 0x4b564d00"
abbreviation MSR_KVM_SYSTEM_TIME_NEW :: u32 where "MSR_KVM_SYSTEM_TIME_NEW \<equiv> 0x4b564d01"

definition SNAPSHOT_MSRS :: "u32 list" where
  "SNAPSHOT_MSRS =
     [MSR_IA32_SYSENTER_CS, MSR_IA32_SYSENTER_ESP, MSR_IA32_SYSENTER_EIP, MSR_STAR, MSR_LSTAR, MSR_CSTAR,
      MSR_SYSCALL_MASK, MSR_FS_BASE, MSR_GS_BASE, MSR_KERNEL_GS_BASE, MSR_IA32_TSC, MSR_IA32_TSC_DEADLINE,
      MSR_IA32_MISC_ENABLE, MSR_KVM_WALL_CLOCK_NEW, MSR_KVM_SYSTEM_TIME_NEW]"

text \<open>An MSR and its value; the registers the code sets, the others being zero.\<close>

type_synonym MsrEntry = "u32 \<times> u64"

record kvm_regs =
  r_rflags :: u64
  r_rip :: u64
  r_rsp :: u64
  r_rbp :: u64
  r_rsi :: u64
  r_others :: "u64 list"

record kvm_cpuid_entry2 =
  ce_function :: u32
  ce_index :: u32
  ce_flags :: u32
  ce_eax :: u32
  ce_ebx :: u32
  ce_ecx :: u32
  ce_edx :: u32

definition boot_msrs :: "MsrEntry list" where
  "boot_msrs =
     [(MSR_IA32_SYSENTER_CS, 0), (MSR_IA32_SYSENTER_ESP, 0), (MSR_IA32_SYSENTER_EIP, 0), (MSR_STAR, 0),
      (MSR_CSTAR, 0), (MSR_LSTAR, 0), (MSR_KERNEL_GS_BASE, 0), (MSR_SYSCALL_MASK, 0), (MSR_IA32_TSC, 0),
      (MSR_IA32_MISC_ENABLE, MSR_IA32_MISC_ENABLE_FAST_STRING)]"

text \<open>\<open>tsc_khz\<close> is what KVM answers for the frequency of the time stamp counter.\<close>

definition patch_leaf1 :: "u8 \<Rightarrow> kvm_cpuid_entry2 \<Rightarrow> kvm_cpuid_entry2" where
  "patch_leaf1 index e =
     (if ce_function e = 1 \<and> ce_index e = 0
      then e\<lparr> ce_ebx := (ce_ebx e AND 0x00ffffff) OR push_bit 24 (ucast index),
              ce_edx := ce_edx e OR push_bit 9 1, ce_ecx := ce_ecx e OR push_bit 31 1 \<rparr>
      else e)"

definition cpuid_leaf :: "u32 \<Rightarrow> u32 \<Rightarrow> u32 \<Rightarrow> u32 \<Rightarrow> u32 \<Rightarrow> kvm_cpuid_entry2" where
  "cpuid_leaf f a b c d =
     \<lparr> ce_function = f, ce_index = 0, ce_flags = 0, ce_eax = a, ce_ebx = b, ce_ecx = c, ce_edx = d \<rparr>"

definition cpuid_entries :: "u8 \<Rightarrow> kvm_cpuid_entry2 list \<Rightarrow> string + u32 \<Rightarrow> kvm_cpuid_entry2 list" where
  "cpuid_entries index supported tsc_khz =
     map (patch_leaf1 index) supported @
     [cpuid_leaf 0x40000000 0x40000010 0x4b4d564b 0x564b4d56 0x4d,
      cpuid_leaf 0x40000001 (push_bit 0 1 OR push_bit 1 1 OR push_bit 3 1 OR push_bit 24 1) 0 0 0] @
     (case tsc_khz of Inl _ \<Rightarrow> [] | Inr khz \<Rightarrow> [cpuid_leaf 0x40000010 khz 0 0 0])"


section \<open>The vCPU handle\<close>

text \<open>What KVM does on a vCPU handle.  Structures that are only copied around are their raw
  bytes; \<open>vo_get_msrs\<close> answers with the entries KVM filled in, \<open>vo_set_msrs\<close> with the
  number it accepted; \<open>vo_complete\<close> hands the data of a read exit back to the guest.\<close>

datatype VcpuExit = IoIn u16 bytes | IoOut u16 bytes | MmioRead u64 bytes | MmioWrite u64 bytes
  | Hlt | ShutdownExit | OtherExit string

datatype run_answer = Exited VcpuExit | Eintr | RunFailed string

record 'f vcpu_ops =
  vo_get_regs :: "'f \<Rightarrow> string + kvm_regs"
  vo_set_regs :: "kvm_regs \<Rightarrow> 'f \<Rightarrow> string + 'f"
  vo_get_sregs :: "'f \<Rightarrow> string + kvm_sregs"
  vo_set_sregs :: "kvm_sregs \<Rightarrow> 'f \<Rightarrow> string + 'f"
  vo_get_fpu :: "'f \<Rightarrow> string + bytes"
  vo_set_fpu :: "bytes \<Rightarrow> 'f \<Rightarrow> string + 'f"
  vo_fpu_with :: "u16 \<Rightarrow> u32 \<Rightarrow> bytes"
  vo_get_xcrs :: "'f \<Rightarrow> string + bytes"
  vo_set_xcrs :: "bytes \<Rightarrow> 'f \<Rightarrow> string + 'f"
  vo_get_lapic :: "'f \<Rightarrow> string + bytes"
  vo_set_lapic :: "bytes \<Rightarrow> 'f \<Rightarrow> string + 'f"
  vo_get_mp_state :: "'f \<Rightarrow> string + u32"
  vo_set_mp_state :: "u32 \<Rightarrow> 'f \<Rightarrow> string + 'f"
  vo_get_vcpu_events :: "'f \<Rightarrow> string + bytes"
  vo_set_vcpu_events :: "bytes \<Rightarrow> 'f \<Rightarrow> string + 'f"
  vo_msrs_from_entries :: "MsrEntry list \<Rightarrow> string + MsrEntry list"
  vo_get_msrs :: "MsrEntry list \<Rightarrow> 'f \<Rightarrow> string + MsrEntry list"
  vo_set_msrs :: "MsrEntry list \<Rightarrow> 'f \<Rightarrow> string + (nat \<times> 'f)"
  vo_get_tsc_khz :: "'f \<Rightarrow> string + u32"
  vo_set_tsc_khz :: "u32 \<Rightarrow> 'f \<Rightarrow> string + 'f"
  vo_cpuid_from_entries :: "kvm_cpuid_entry2 list \<Rightarrow> string + kvm_cpuid_entry2 list"
  vo_set_cpuid2 :: "kvm_cpuid_entry2 list \<Rightarrow> 'f \<Rightarrow> string + 'f"
  vo_fpu_size :: nat
  vo_xcrs_size :: nat
  vo_events_size :: nat
  vo_run :: "'f \<Rightarrow> run_answer \<times> 'f"
  vo_complete :: "bytes \<Rightarrow> 'f \<Rightarrow> 'f"

text \<open>A KVM call in state-passing form, its error as the code wraps it.\<close>

definition kvm_get :: "('f \<Rightarrow> string + 'a) \<Rightarrow> ('f, 'a) io" where
  "kvm_get g f = (case g f of Inl e \<Rightarrow> (Inl (Kvm e), f) | Inr x \<Rightarrow> (Inr x, f))"

definition kvm_set :: "('f \<Rightarrow> string + 'f) \<Rightarrow> ('f, unit) io" where
  "kvm_set g f = (case g f of Inl e \<Rightarrow> (Inl (Kvm e), f) | Inr f' \<Rightarrow> (Inr (), f'))"

text \<open>The guest memory and the vCPU handle together, for the code that changes both.\<close>

definition on_mem :: "('m, 'a) io \<Rightarrow> ('m \<times> 'f, 'a) io" where
  "on_mem g s = (case g (fst s) of (r, m) \<Rightarrow> (r, (m, snd s)))"

definition on_vcpu :: "('f, 'a) io \<Rightarrow> ('m \<times> 'f, 'a) io" where
  "on_vcpu g s = (case g (snd s) of (r, f) \<Rightarrow> (r, (fst s, f)))"

definition build_cpuid ::
  "'f vcpu_ops \<Rightarrow> u8 \<Rightarrow> kvm_cpuid_entry2 list \<Rightarrow> 'f \<Rightarrow> VmmError + kvm_cpuid_entry2 list" where
  "build_cpuid V index supported f =
     (case vo_cpuid_from_entries V (cpuid_entries index supported (vo_get_tsc_khz V f)) of
        Inl e \<Rightarrow> Inl (VcpuErr e)
      | Inr c \<Rightarrow> Inr c)"

text \<open>Creating a vCPU: \<open>create\<close> is what KVM answers when it creates the handle of this index,
  \<open>supported\<close> what it answers for the CPUID table the host supports.\<close>

record 'f Vcpu_handle =
  v_fd :: 'f
  v_index :: u8

definition vcpu_new ::
  "'f vcpu_ops \<Rightarrow> (u64 \<Rightarrow> string + 'f) \<Rightarrow> string + kvm_cpuid_entry2 list \<Rightarrow> u8 \<Rightarrow> VmmError + 'f Vcpu_handle" where
  "vcpu_new V create supported index =
     (case create (ucast index) of
        Inl e \<Rightarrow> Inl (Kvm e)
      | Inr f \<Rightarrow>
          (case supported of
             Inl e \<Rightarrow> Inl (Kvm e)
           | Inr table \<Rightarrow>
               (case build_cpuid V index table f of
                  Inl e \<Rightarrow> Inl e
                | Inr cpuid \<Rightarrow>
                    (case vo_set_cpuid2 V cpuid f of
                       Inl e \<Rightarrow> Inl (Kvm e)
                     | Inr f' \<Rightarrow> Inr \<lparr> v_fd = f', v_index = index \<rparr>))))"

definition set_all_msrs :: "'f vcpu_ops \<Rightarrow> MsrEntry list \<Rightarrow> ('f, unit) io" where
  "set_all_msrs V entries f =
     (case vo_msrs_from_entries V entries of
        Inl e \<Rightarrow> (Inl (VcpuErr e), f)
      | Inr msrs \<Rightarrow>
          (case vo_set_msrs V msrs f of
             Inl e \<Rightarrow> (Inl (Kvm e), f)
           | Inr (written, f') \<Rightarrow>
               if written \<noteq> length entries then (Inl (VcpuErr ''set_msrs wrote too few entries''), f')
               else (Inr (), f')))"

definition boot_regs :: "u64 \<Rightarrow> u64 \<Rightarrow> kvm_regs" where
  "boot_regs entry params =
     \<lparr> r_rflags = 2, r_rip = entry, r_rsp = BOOT_STACK_POINTER, r_rbp = BOOT_STACK_POINTER,
       r_rsi = params, r_others = replicate 13 0 \<rparr>"

definition configure_boot ::
  "('q, 'm, 'e) venv \<Rightarrow> 'f vcpu_ops \<Rightarrow> u64 \<Rightarrow> u64 \<Rightarrow> ('m \<times> 'f, unit) io" where
  "configure_boot E V entry params =
     io_bind (on_vcpu (kvm_get (vo_get_sregs V))) (\<lambda>sregs.
     io_bind (on_mem (configure_segments_and_sregs E sregs)) (\<lambda>sregs.
     io_bind (on_mem (setup_page_tables E sregs)) (\<lambda>sregs.
     io_bind (on_vcpu (kvm_set (vo_set_sregs V sregs))) (\<lambda>_.
     io_bind (on_vcpu (kvm_set (vo_set_fpu V (vo_fpu_with V 0x37f 0x1f80)))) (\<lambda>_.
     io_bind (on_vcpu (set_all_msrs V boot_msrs)) (\<lambda>_.
     on_vcpu (kvm_set (vo_set_regs V (boot_regs entry params)))))))))"


section \<open>Capture and restore\<close>

record VcpuState =
  vc_regs :: kvm_regs
  vc_sregs :: kvm_sregs
  vc_fpu :: bytes
  vc_xcrs :: bytes
  vc_lapic :: bytes
  vc_mp_state :: u32
  vc_msrs :: "MsrEntry list"
  vc_tsc_khz :: u32
  vc_vcpu_events :: bytes

text \<open>A structure rebuilt from its bytes: the length must be the structure's size.\<close>

definition pod_from_bytes :: "nat \<Rightarrow> bytes \<Rightarrow> VmmError + bytes" where
  "pod_from_bytes want bs =
     (if length bs \<noteq> want then Inl (VcpuErr ''unexpected length of snapshot state'') else Inr bs)"

definition capture_state :: "'f vcpu_ops \<Rightarrow> ('f, VcpuState) io" where
  "capture_state V =
     io_bind (kvm_get (vo_get_regs V)) (\<lambda>regs.
     io_bind (kvm_get (vo_get_sregs V)) (\<lambda>sregs.
     io_bind (kvm_get (vo_get_fpu V)) (\<lambda>fpu.
     io_bind (kvm_get (vo_get_xcrs V)) (\<lambda>xcrs.
     io_bind (kvm_get (vo_get_lapic V)) (\<lambda>lapic.
     io_bind (kvm_get (vo_get_mp_state V)) (\<lambda>mp_state.
     io_bind (kvm_get (vo_get_vcpu_events V)) (\<lambda>events.
     io_bind (\<lambda>f. (case vo_msrs_from_entries V (map (\<lambda>i. (i, 0)) SNAPSHOT_MSRS) of
                     Inl e \<Rightarrow> (Inl (VcpuErr e), f)
                   | Inr q \<Rightarrow> kvm_get (vo_get_msrs V q) f)) (\<lambda>msrs f.
       (Inr \<lparr> vc_regs = regs, vc_sregs = sregs, vc_fpu = fpu, vc_xcrs = xcrs, vc_lapic = lapic,
              vc_mp_state = mp_state, vc_msrs = msrs,
              vc_tsc_khz = (case vo_get_tsc_khz V f of Inl _ \<Rightarrow> 0 | Inr k \<Rightarrow> k),
              vc_vcpu_events = events \<rparr>, f)))))))))"

definition restore_state :: "'f vcpu_ops \<Rightarrow> VcpuState \<Rightarrow> ('f, unit) io" where
  "restore_state V st =
     io_bind (\<lambda>f. (Inr (), if vc_tsc_khz st = 0 then f
                            else (case vo_set_tsc_khz V (vc_tsc_khz st) f of Inl _ \<Rightarrow> f | Inr f' \<Rightarrow> f'))) (\<lambda>_.
     io_bind (kvm_set (vo_set_sregs V (vc_sregs st))) (\<lambda>_.
     io_bind (if vc_xcrs st = [] then io_return ()
              else (case pod_from_bytes (vo_xcrs_size V) (vc_xcrs st) of
                      Inl e \<Rightarrow> io_fail e | Inr x \<Rightarrow> kvm_set (vo_set_xcrs V x))) (\<lambda>_.
     io_bind (case pod_from_bytes (vo_fpu_size V) (vc_fpu st) of
                Inl e \<Rightarrow> io_fail e | Inr x \<Rightarrow> kvm_set (vo_set_fpu V x)) (\<lambda>_.
     io_bind (kvm_set (vo_set_lapic V (vc_lapic st))) (\<lambda>_.
     io_bind (kvm_set (vo_set_mp_state V (vc_mp_state st))) (\<lambda>_.
     io_bind (set_all_msrs V (vc_msrs st)) (\<lambda>_.
     io_bind (if vc_vcpu_events st = [] then io_return ()
              else (case pod_from_bytes (vo_events_size V) (vc_vcpu_events st) of
                      Inl e \<Rightarrow> io_fail e | Inr x \<Rightarrow> kvm_set (vo_set_vcpu_events V x))) (\<lambda>_.
     kvm_set (vo_set_regs V (vc_regs st))))))))))"


section \<open>The run loop\<close>

datatype VcpuRunExit = Halted | Shutdown | Paused

record 'b io_dispatch =
  d_pio_read :: "u16 \<Rightarrow> bytes \<Rightarrow> 'b \<Rightarrow> bytes \<times> 'b"
  d_pio_write :: "u16 \<Rightarrow> bytes \<Rightarrow> 'b \<Rightarrow> 'b"
  d_mmio_read :: "u64 \<Rightarrow> bytes \<Rightarrow> 'b \<Rightarrow> bytes \<times> 'b"
  d_mmio_write :: "u64 \<Rightarrow> bytes \<Rightarrow> 'b \<Rightarrow> 'b"

definition bus_dispatch ::
  "('d, 'q, 'e) vtable \<Rightarrow> ('q, 'm, 'e) venv \<Rightarrow> 's serial_ops
   \<Rightarrow> (('d, 'q, 'e) MmioTransport, 's) Bus io_dispatch" where
  "bus_dispatch V E S =
     \<lparr> d_pio_read = pio_read S, d_pio_write = pio_write S,
       d_mmio_read = (\<lambda>a data b. (mmio_read V E a data b, b)), d_mmio_write = mmio_write V E \<rparr>"

text \<open>The flags other threads may raise at any time, as one check reads them.\<close>

record run_flags =
  fl_stop :: bool
  fl_pause :: bool
  fl_checkpoint :: bool

text \<open>The thread of a vCPU: its handle, the bus it shares, and the slot it captures into.\<close>

record ('f, 'b) vthread =
  vt_fd :: 'f
  vt_bus :: 'b
  vt_slot :: "VcpuState option"

datatype vcpu_control = Again | ParkedAgain | Ended "VmmError + VcpuRunExit"

definition do_pause :: "'f vcpu_ops \<Rightarrow> ('f, 'b) vthread \<Rightarrow> vcpu_control \<times> ('f, 'b) vthread" where
  "do_pause V t =
     (case capture_state V (vt_fd t) of
        (Inl e, f) \<Rightarrow> (Ended (Inl e), t\<lparr> vt_fd := f \<rparr>)
      | (Inr st, f) \<Rightarrow> (Ended (Inr Paused), t\<lparr> vt_fd := f, vt_slot := Some st \<rparr>))"

definition vcpu_checkpoint :: "'f vcpu_ops \<Rightarrow> ('f, 'b) vthread \<Rightarrow> vcpu_control \<times> ('f, 'b) vthread" where
  "vcpu_checkpoint V t =
     (case capture_state V (vt_fd t) of
        (Inl e, f) \<Rightarrow> (Ended (Inl e), t\<lparr> vt_fd := f \<rparr>)
      | (Inr st, f) \<Rightarrow> (ParkedAgain, t\<lparr> vt_fd := f, vt_slot := Some st \<rparr>))"

text \<open>What the loop does when a check finds a flag raised; \<open>None\<close> when no flag is.\<close>

definition check_flags ::
  "'f vcpu_ops \<Rightarrow> run_flags \<Rightarrow> ('f, 'b) vthread \<Rightarrow> (vcpu_control \<times> ('f, 'b) vthread) option" where
  "check_flags V fl t =
     (if fl_stop fl then Some (Ended (Inr Halted), t)
      else if fl_pause fl then Some (do_pause V t)
      else if fl_checkpoint fl then Some (vcpu_checkpoint V t)
      else None)"

definition dispatch_exit ::
  "'f vcpu_ops \<Rightarrow> 'b io_dispatch \<Rightarrow> VcpuExit \<Rightarrow> ('f, 'b) vthread \<Rightarrow> vcpu_control \<times> ('f, 'b) vthread" where
  "dispatch_exit V D ex t =
     (case ex of
        IoIn port data \<Rightarrow>
          (case d_pio_read D port data (vt_bus t) of
             (out, b) \<Rightarrow> (Again, t\<lparr> vt_bus := b, vt_fd := vo_complete V out (vt_fd t) \<rparr>))
      | IoOut port data \<Rightarrow> (Again, t\<lparr> vt_bus := d_pio_write D port data (vt_bus t) \<rparr>)
      | MmioRead addr data \<Rightarrow>
          (case d_mmio_read D addr data (vt_bus t) of
             (out, b) \<Rightarrow> (Again, t\<lparr> vt_bus := b, vt_fd := vo_complete V out (vt_fd t) \<rparr>))
      | MmioWrite addr data \<Rightarrow> (Again, t\<lparr> vt_bus := d_mmio_write D addr data (vt_bus t) \<rparr>)
      | Hlt \<Rightarrow> (Ended (Inr Halted), t)
      | ShutdownExit \<Rightarrow> (Ended (Inr Shutdown), t)
      | OtherExit what \<Rightarrow> (Ended (Inl (VcpuErr what)), t))"

text \<open>One iteration: the flags as the top of the loop sees them and, when \<open>KVM_RUN\<close> was
  interrupted, as the check after it sees them.\<close>

definition vcpu_iteration ::
  "'f vcpu_ops \<Rightarrow> 'b io_dispatch \<Rightarrow> run_flags \<Rightarrow> run_flags \<Rightarrow> ('f, 'b) vthread
   \<Rightarrow> vcpu_control \<times> ('f, 'b) vthread" where
  "vcpu_iteration V D fl fl2 t =
     (case check_flags V fl t of
        Some r \<Rightarrow> r
      | None \<Rightarrow>
          (case vo_run V (vt_fd t) of
             (Exited ex, f) \<Rightarrow> dispatch_exit V D ex (t\<lparr> vt_fd := f \<rparr>)
           | (Eintr, f) \<Rightarrow>
               (case check_flags V fl2 (t\<lparr> vt_fd := f \<rparr>) of
                  Some r \<Rightarrow> r
                | None \<Rightarrow> (Again, t\<lparr> vt_fd := f \<rparr>))
           | (RunFailed e, f) \<Rightarrow> (Ended (Inl (Kvm e)), t\<lparr> vt_fd := f \<rparr>)))"

text \<open>The loop over the flags its iterations observe; \<open>None\<close> while it has not ended.\<close>

fun vcpu_run ::
  "'f vcpu_ops \<Rightarrow> 'b io_dispatch \<Rightarrow> (run_flags \<times> run_flags) list \<Rightarrow> ('f, 'b) vthread
   \<Rightarrow> (VmmError + VcpuRunExit) option \<times> ('f, 'b) vthread" where
  "vcpu_run V D [] t = (None, t)"
| "vcpu_run V D ((fl, fl2) # obs) t =
     (case vcpu_iteration V D fl fl2 t of
        (Ended r, t) \<Rightarrow> (Some r, t)
      | (_, t) \<Rightarrow> vcpu_run V D obs t)"


section \<open>Lemmas\<close>

lemma mask_words:
  "(0xff000000 :: u64) = push_bit 24 (mask 8)" "(0xf0ff :: u64) = mask 8 OR push_bit 12 (mask 4)"
  "(0xf0000 :: u64) = push_bit 16 (mask 4)" "(0xffffff :: u64) = mask 24" "(0xffff :: u64) = mask 16"
  "(0x000f000000000000 :: u64) = push_bit 48 (mask 4)" 
  by (simp_all add: mask_eq_exp_minus_1)

lemma bit_masks:
  "bit (0xff000000 :: u64) n \<longleftrightarrow> 24 \<le> n \<and> n < 32"
  "bit (0xf0ff :: u64) n \<longleftrightarrow> n < 8 \<or> (12 \<le> n \<and> n < 16)"
  "bit (0xf0000 :: u64) n \<longleftrightarrow> 16 \<le> n \<and> n < 20"
  "bit (0xffffff :: u64) n \<longleftrightarrow> n < 24"
  "bit (0xffff :: u64) n \<longleftrightarrow> n < 16"
  "bit (0x000f000000000000 :: u64) n \<longleftrightarrow> 48 \<le> n \<and> n < 52"
  unfolding mask_words bit_or_iff bit_push_bit_iff bit_mask_iff possible_bit_word by auto

text \<open>The bits of a descriptor, by the fields they hold.\<close>

lemma bit_gdt_entry:
  "bit (gdt_entry flags base limit) n \<longleftrightarrow>
     (n < 16 \<and> bit limit n) \<or> (16 \<le> n \<and> n < 40 \<and> bit base (n - 16)) \<or>
     (40 \<le> n \<and> n < 48 \<and> bit flags (n - 40)) \<or> (48 \<le> n \<and> n < 52 \<and> bit limit (n - 32)) \<or>
     (52 \<le> n \<and> n < 56 \<and> bit flags (n - 40)) \<or> (56 \<le> n \<and> n < 64 \<and> bit base (n - 32))"
proof -
  have "bit (push_bit 32 (ucast base AND 0xff000000) :: u64) n \<longleftrightarrow> 56 \<le> n \<and> n < 64 \<and> bit base (n - 32)"
    unfolding bit_and_iff bit_push_bit_iff bit_unsigned_iff possible_bit_word bit_masks by auto
  moreover have "bit (push_bit 40 (ucast flags AND 0xf0ff) :: u64) n \<longleftrightarrow>
      40 \<le> n \<and> n < 48 \<and> bit flags (n - 40) \<or> 52 \<le> n \<and> n < 56 \<and> bit flags (n - 40)"
    unfolding bit_and_iff bit_push_bit_iff bit_unsigned_iff possible_bit_word bit_masks by auto
  moreover have "bit (push_bit 32 (ucast limit AND 0xf0000) :: u64) n \<longleftrightarrow> 48 \<le> n \<and> n < 52 \<and> bit limit (n - 32)"
    unfolding bit_and_iff bit_push_bit_iff bit_unsigned_iff possible_bit_word bit_masks by auto
  moreover have "bit (push_bit 16 (ucast base AND 0xffffff) :: u64) n \<longleftrightarrow> 16 \<le> n \<and> n < 40 \<and> bit base (n - 16)"
    unfolding bit_and_iff bit_push_bit_iff bit_unsigned_iff possible_bit_word bit_masks by auto
  moreover have "bit (ucast limit AND 0xffff :: u64) n \<longleftrightarrow> n < 16 \<and> bit limit n"
    unfolding bit_and_iff bit_push_bit_iff bit_unsigned_iff possible_bit_word bit_masks by auto
  ultimately show ?thesis unfolding gdt_entry_def bit_or_iff by (simp only: disj_ac)
qed

lemma and_one_of_bool: "(drop_bit k w AND 1 :: u64) = of_bool (bit w k)"
  by (cases "bit w k") (simp_all add: and_one_eq odd_iff_mod_2_eq_one [symmetric] even_iff_mod_2_eq_zero [symmetric] bit_iff_odd_drop_bit)

lemma low_mask_words:
  "(0xf :: u64) = mask 4" "(3 :: u64) = mask 2" "(0xf :: u16) = mask 4" "(3 :: u16) = mask 2"
  "(0xfffff :: u32) = mask 20"
  by (simp_all add: mask_eq_exp_minus_1)

lemma gdt_entry_bits:
  "n < 16 \<Longrightarrow> bit (gdt_entry flags base limit) n \<longleftrightarrow> bit limit n"
  "n < 24 \<Longrightarrow> bit (gdt_entry flags base limit) (16 + n) \<longleftrightarrow> bit base n"
  "24 \<le> n \<Longrightarrow> n < 32 \<Longrightarrow> bit (gdt_entry flags base limit) (32 + n) \<longleftrightarrow> bit base n"
  "16 \<le> n \<Longrightarrow> n < 20 \<Longrightarrow> bit (gdt_entry flags base limit) (32 + n) \<longleftrightarrow> bit limit n"
  "n < 8 \<or> 12 \<le> n \<and> n < 16 \<Longrightarrow> bit (gdt_entry flags base limit) (40 + n) \<longleftrightarrow> bit flags n"
  unfolding bit_gdt_entry by auto

lemma gdt_entry_base:
  "(drop_bit 16 (gdt_entry flags base limit) AND 0xffffff) OR
   (drop_bit 32 (gdt_entry flags base limit) AND 0xff000000) = ucast base"
proof (rule bit_word_eqI)
  fix n :: nat
  assume "n < LENGTH(64)"
  then show "bit ((drop_bit 16 (gdt_entry flags base limit) AND 0xffffff) OR
      (drop_bit 32 (gdt_entry flags base limit) AND 0xff000000)) n \<longleftrightarrow> bit (ucast base :: u64) n"
    unfolding bit_or_iff bit_and_iff bit_drop_bit_eq comp_def bit_masks bit_unsigned_iff possible_bit_word
    by (cases "n < 24"; cases "n < 32") (auto simp: gdt_entry_bits dest: bit_imp_le_length)
qed

lemma gdt_entry_limit:
  "ucast (drop_bit 32 (gdt_entry flags base limit AND 0x000f000000000000) OR
     (gdt_entry flags base limit AND 0xffff)) = limit AND 0xfffff"
proof (rule bit_word_eqI)
  fix n :: nat
  assume "n < LENGTH(32)"
  then show "bit (ucast (drop_bit 32 (gdt_entry flags base limit AND 0x000f000000000000) OR
     (gdt_entry flags base limit AND 0xffff)) :: u32) n \<longleftrightarrow> bit (limit AND 0xfffff) n"
    unfolding bit_unsigned_iff bit_or_iff bit_and_iff bit_drop_bit_eq comp_def bit_masks possible_bit_word
      low_mask_words bit_mask_iff
    by (cases "n < 16"; cases "n < 20") (simp_all add: gdt_entry_bits)
qed

lemma gdt_entry_flag_fields:
  "ucast (drop_bit 40 (gdt_entry flags base limit) AND 0xf) = (ucast (flags AND 0xf) :: u8)"
  "ucast (drop_bit 45 (gdt_entry flags base limit) AND 3) = (ucast (drop_bit 5 flags AND 3) :: u8)"
proof -
  show "ucast (drop_bit 40 (gdt_entry flags base limit) AND 0xf) = (ucast (flags AND 0xf) :: u8)"
  proof (rule bit_word_eqI)
    fix n :: nat
    assume "n < LENGTH(8)"
    then show "bit (ucast (drop_bit 40 (gdt_entry flags base limit) AND 0xf) :: u8) n \<longleftrightarrow>
        bit (ucast (flags AND 0xf) :: u8) n"
      unfolding bit_unsigned_iff bit_and_iff bit_drop_bit_eq comp_def possible_bit_word
        low_mask_words bit_mask_iff
      by (cases "n < 4") (simp_all add: gdt_entry_bits)
  qed
  show "ucast (drop_bit 45 (gdt_entry flags base limit) AND 3) = (ucast (drop_bit 5 flags AND 3) :: u8)"
  proof (rule bit_word_eqI)
    fix n :: nat
    assume "n < LENGTH(8)"
    then show "bit (ucast (drop_bit 45 (gdt_entry flags base limit) AND 3) :: u8) n \<longleftrightarrow>
        bit (ucast (drop_bit 5 flags AND 3) :: u8) n"
      unfolding bit_unsigned_iff bit_and_iff bit_drop_bit_eq comp_def possible_bit_word
        low_mask_words bit_mask_iff
      using gdt_entry_bits(5) [of "5 + n" flags base limit]
      by (cases "n < 2") auto
  qed
qed

lemma gdt_entry_flag_bits:
  "drop_bit 47 (gdt_entry flags base limit) AND 1 = of_bool (bit flags 7)"
  "drop_bit 54 (gdt_entry flags base limit) AND 1 = of_bool (bit flags 14)"
  "drop_bit 44 (gdt_entry flags base limit) AND 1 = of_bool (bit flags 4)"
  "drop_bit 53 (gdt_entry flags base limit) AND 1 = of_bool (bit flags 13)"
  "drop_bit 55 (gdt_entry flags base limit) AND 1 = of_bool (bit flags 15)"
  "drop_bit 52 (gdt_entry flags base limit) AND 1 = of_bool (bit flags 12)"
  using gdt_entry_bits(5) [of 7 flags base limit] gdt_entry_bits(5) [of 14 flags base limit]
    gdt_entry_bits(5) [of 4 flags base limit] gdt_entry_bits(5) [of 13 flags base limit]
    gdt_entry_bits(5) [of 15 flags base limit] gdt_entry_bits(5) [of 12 flags base limit]
  by (simp_all add: and_one_of_bool)

text \<open>C39: Decoding a packed descriptor gives back the fields it was built from: the whole 32-bit base, the low 20
  bits of the limit, and every attribute bit of the flags at its own place (type, present, privilege level, size, long
  mode, granularity), for any flags, base, limit and table index; a segment is unusable exactly when it is not
  present.\<close>

theorem segment_of_gdt_entry:
  "kvm_segment_from_gdt (gdt_entry flags base limit) i =
     \<lparr> seg_base = ucast base, seg_limit = limit AND 0xfffff, seg_selector = ucast i * 8,
       seg_type = ucast (flags AND 0xf), seg_present = of_bool (bit flags 7),
       seg_dpl = ucast (drop_bit 5 flags AND 3), seg_db = of_bool (bit flags 14),
       seg_s = of_bool (bit flags 4), seg_l = of_bool (bit flags 13), seg_g = of_bool (bit flags 15),
       seg_avl = of_bool (bit flags 12), seg_unusable = of_bool (\<not> bit flags 7) \<rparr>"
  unfolding kvm_segment_from_gdt_def Let_def gdt_entry_base gdt_entry_limit gdt_entry_flag_fields
    gdt_entry_flag_bits
  by (cases "bit flags 7"; cases "bit flags 14"; cases "bit flags 4"; cases "bit flags 13";
      cases "bit flags 15"; cases "bit flags 12") simp_all


section \<open>The boot state\<close>

text \<open>What the guest reads of its memory: \<open>cell\<close> is the byte at an address.  A read returns the
  bytes from an address on, a write replaces them, and other addresses keep theirs.\<close>

definition store_laws :: "('q, 'm, 'e) venv \<Rightarrow> ('m \<Rightarrow> u64 \<Rightarrow> u8) \<Rightarrow> bool" where
  "store_laws E cell \<longleftrightarrow>
     (\<forall>m a n bs. m_read E m a n = Inr bs \<longrightarrow> bs = map (\<lambda>i. cell m (a + of_nat i)) [0..<n]) \<and>
     (\<forall>m a bs m' x. m_write E m a bs = Inr m' \<longrightarrow>
        cell m' x = (if unat (x - a) < length bs then bs ! unat (x - a) else cell m x))"

definition word_at :: "('m \<Rightarrow> u64 \<Rightarrow> u8) \<Rightarrow> 'm \<Rightarrow> u64 \<Rightarrow> u64" where
  "word_at cell m a = le_word (map (\<lambda>i. cell m (a + of_nat i)) [0..<8])"

definition read_word :: "('q, 'm, 'e) venv \<Rightarrow> 'm \<Rightarrow> u64 \<Rightarrow> u64 option" where
  "read_word E m a = (case m_read E m a 8 of Inl _ \<Rightarrow> None | Inr bs \<Rightarrow> Some (le_word bs))"

lemma uint_of_int_u64: "uint (word_of_int x :: u64) = x mod 2 ^ 64"
  by (simp add: uint_word_of_int)

lemma unat_diff_aligned:
  fixes a b :: u64
  assumes "8 dvd unat a" "8 dvd unat b" "a \<noteq> b" "i < 8"
  shows "\<not> unat (a + of_nat i - b) < 8"
proof -
  have lt: "unat a < 2 ^ 64" "unat b < 2 ^ 64" using unsigned_less [of a] unsigned_less [of b] by simp_all
  have ne: "unat a \<noteq> unat b" using assms(3) by (simp add: word_unat_eq_iff)
  obtain k l where kl: "unat a = 8 * k" "unat b = 8 * l" using assms(1,2) by (auto elim!: dvdE)
  let ?x = "8 * (int k - int l) + int i"
  have x: "int (unat a) + int i - int (unat b) = ?x" by (simp add: kl)
  have "word_of_int (int (unat a) + int i - int (unat b)) = a + of_nat i - b" by simp
  then have "uint (a + of_nat i - b) = (int (unat a) + int i - int (unat b)) mod 2 ^ 64"
    by (metis uint_of_int_u64)
  then have u: "int (unat (a + of_nat i - b)) = ?x mod 2 ^ 64"
    by (metis x uint_nat)
  have "8 \<le> ?x mod 2 ^ 64"
  proof (cases "k < l")
    case True
    have "?x mod 2 ^ 64 = (?x + 2 ^ 64) mod 2 ^ 64" by simp
    also have "\<dots> = ?x + 2 ^ 64" using True lt kl assms(4) by (intro mod_pos_pos_trivial) auto
    finally show ?thesis using lt kl by simp
  next
    case False
    then have "?x mod 2 ^ 64 = ?x" using lt kl assms(4) by (intro mod_pos_pos_trivial) auto
    then show ?thesis using False ne kl by simp
  qed
  then show ?thesis using u by linarith
qed

lemma read_word_store:
  assumes "store_laws E cell" "mem_laws E valid" "valid a 8"
  shows "read_word E m a = Some (word_at cell m a)"
  using assms mem_lawsD(1) [OF assms(2,3), of m] unfolding read_word_def store_laws_def word_at_def by fastforce

lemma word_at_write:
  assumes "store_laws E cell" "m_write E m b (le_bytes 8 v) = Inr m'" "8 dvd unat a" "8 dvd unat b"
  shows "word_at cell m' a = (if a = b then v else word_at cell m a)"
proof -
  have c: "cell m' x = (if unat (x - b) < 8 then le_bytes 8 v ! unat (x - b) else cell m x)" for x
    using assms(1,2) unfolding store_laws_def by (metis length_le_bytes)
  show ?thesis
  proof (cases "a = b")
    case True
    have "map (\<lambda>i. cell m' (a + of_nat i)) [0..<8] = le_bytes 8 v"
      by (intro nth_equalityI) (auto simp: True c unat_of_nat)
    then show ?thesis unfolding word_at_def by (simp add: True)
  next
    case False
    have "map (\<lambda>i. cell m' (a + of_nat i)) [0..<8] = map (\<lambda>i. cell m (a + of_nat i)) [0..<8]"
      using unat_diff_aligned [OF assms(3,4) False] by (simp add: c)
    then show ?thesis unfolding word_at_def by (simp only: False if_False)
  qed
qed

lemma write_words_stores:
  assumes "store_laws E cell" "mem_laws E valid"
    and "\<forall>(b, v) \<in> set ws. valid b 8 \<and> 8 dvd unat b" "distinct (map fst ws)"
  shows "\<exists>m'. write_words E ws m = (Inr (), m') \<and>
           (\<forall>a. 8 dvd unat a \<longrightarrow> word_at cell m' a = (case map_of ws a of Some v \<Rightarrow> v | None \<Rightarrow> word_at cell m a))"
  using assms(3,4)
proof (induction ws arbitrary: m)
  case Nil
  then show ?case by simp
next
  case (Cons w ws)
  obtain b v where w: "w = (b, v)" by fastforce
  have b: "valid b (length (le_bytes 8 v))" "8 dvd unat b" using Cons.prems w by auto
  obtain m1 where m1: "m_write E m b (le_bytes 8 v) = Inr m1" using mem_lawsD(2) [OF assms(2) b(1)] by blast
  obtain m' where m': "write_words E ws m1 = (Inr (), m')"
    "\<And>a. 8 dvd unat a \<Longrightarrow> word_at cell m' a = (case map_of ws a of Some v \<Rightarrow> v | None \<Rightarrow> word_at cell m1 a)"
    using Cons.IH [of m1] Cons.prems by auto
  have "map_of ws b = None" using Cons.prems w by (simp add: map_of_eq_None_iff)
  then show ?case
    using m1 m' w word_at_write [OF assms(1) m1 _ b(2)] by (auto split: option.splits)
qed


text \<open>The processor's translation of a linear address in long mode, through the tables that \<open>CR3\<close>
  points to, for a mapping by 2 MiB pages.\<close>

definition table_entry :: "('q, 'm, 'e) venv \<Rightarrow> 'm \<Rightarrow> u64 \<Rightarrow> nat \<Rightarrow> u64 \<Rightarrow> u64 option" where
  "table_entry E m base k va =
     (case read_word E m ((base AND 0x000ffffffffff000) + (drop_bit k va AND 0x1ff) * 8) of
        None \<Rightarrow> None
      | Some e \<Rightarrow> if e AND 1 = 0 then None else Some e)"

definition page_walk :: "('q, 'm, 'e) venv \<Rightarrow> 'm \<Rightarrow> u64 \<Rightarrow> u64 \<Rightarrow> u64 option" where
  "page_walk E m cr3 va =
     (case table_entry E m cr3 39 va of None \<Rightarrow> None | Some e4 \<Rightarrow>
      case table_entry E m e4 30 va of None \<Rightarrow> None | Some e3 \<Rightarrow>
        if e3 AND 0x80 \<noteq> 0 then None
        else (case table_entry E m e3 21 va of None \<Rightarrow> None | Some e2 \<Rightarrow>
          if e2 AND 0x80 = 0 then None
          else Some ((e2 AND 0x000fffffffe00000) OR (va AND 0x1fffff))))"

lemma unat_pde_addr: "i < 512 \<Longrightarrow> unat (fst (pde_entry i)) = 0xb000 + 8 * i"
proof -
  assume i: "i < 512"
  have "fst (pde_entry i) = of_nat (0xb000 + 8 * i)"
    by (simp add: pde_entry_def PDE_START_def)
  moreover have "unat (of_nat (0xb000 + 8 * i) :: u64) = 0xb000 + 8 * i"
    unfolding unat_of_nat using i by simp
  ultimately show ?thesis by simp
qed

lemma pde_addr_inj: "i < 512 \<Longrightarrow> j < 512 \<Longrightarrow> fst (pde_entry i) = fst (pde_entry j) \<Longrightarrow> i = j"
  by (metis unat_pde_addr add_left_cancel mult_left_cancel zero_neq_numeral)

lemma distinct_pde: "n \<le> 512 \<Longrightarrow> distinct (map fst (map pde_entry [0..<n]))"
  by (simp add: distinct_map inj_on_def) (meson atLeastLessThan_iff less_le_trans pde_addr_inj)

lemma map_of_pde:
  assumes "n \<le> 512" "i < n"
  shows "map_of (map pde_entry [0..<n]) (fst (pde_entry i)) = Some (snd (pde_entry i))"
proof (rule map_of_is_SomeI)
  show "distinct (map fst (map pde_entry [0..<n]))" by (rule distinct_pde) fact
  show "(fst (pde_entry i), snd (pde_entry i)) \<in> set (map pde_entry [0..<n])" using assms(2) by simp
qed

lemma map_of_pde_low:
  assumes "n \<le> 512" "unat a < 0xb000"
  shows "map_of (map pde_entry [0..<n]) a = None"
  unfolding map_of_eq_None_iff
proof
  assume "a \<in> fst ` set (map pde_entry [0..<n])"
  then obtain i where "i < n" "a = fst (pde_entry i)" by auto
  then show False using unat_pde_addr [of i] assms by simp
qed

lemma low_va:
  fixes va :: u64
  assumes "va < 2 ^ 30"
  shows "drop_bit 39 va = 0" "drop_bit 30 va = 0" "unat (drop_bit 21 va) < 512"
    "drop_bit 21 va AND 0x1ff = drop_bit 21 va"
proof -
  have "take_bit 30 va = va" using assms by (simp add: word_less_nat_alt take_bit_nat_eq_self word_unat_eq_iff unsigned_take_bit_eq)
  then have b: "n < 30" if "bit va n" for n
    using that bit_take_bit_iff [of 30 va n] by simp
  show "drop_bit 39 va = 0" "drop_bit 30 va = 0"
    using b by (auto intro!: bit_word_eqI simp: bit_drop_bit_eq) fastforce+
  show "unat (drop_bit 21 va) < 512"
  proof -
    have "unat (drop_bit 21 va) = drop_bit 21 (unat va)" by (rule unat_drop_bit_eq)
    also have "\<dots> = unat va div 2 ^ 21" by (simp only: drop_bit_eq_div)
    finally have "unat (drop_bit 21 va) = unat va div 2 ^ 21" .
    moreover have "unat va < 512 * 2 ^ 21" using assms by (simp add: word_less_nat_alt)
    ultimately show ?thesis using less_mult_imp_div_less [of "unat va" 512 "2 ^ 21"] by (simp only:)
  qed
  have "(0x1ff :: u64) = mask 9" by (simp add: mask_eq_exp_minus_1)
  show "drop_bit 21 va AND 0x1ff = drop_bit 21 va"
    unfolding \<open>0x1ff = mask 9\<close> using b [of "21 + n" for n] by (intro bit_word_eqI) (auto simp: bit_and_iff bit_drop_bit_eq bit_mask_iff)
qed
lemma pde_value_bits:
  fixes va :: u64
  assumes "va < 2 ^ 30"
  shows "((push_bit 21 (drop_bit 21 va) OR 0x83) AND 0x000fffffffe00000) OR (va AND 0x1fffff) = va"
    "(push_bit 21 (drop_bit 21 va) OR 0x83) AND 1 = 1"
    "(push_bit 21 (drop_bit 21 va) OR 0x83) AND 0x80 = 0x80"
proof -
  have "take_bit 30 va = va" using assms by (simp add: word_less_nat_alt take_bit_nat_eq_self word_unat_eq_iff unsigned_take_bit_eq)
  then have b: "n < 30" if "bit va n" for n
    using that bit_take_bit_iff [of 30 va n] by simp
  have m: "(0x000fffffffe00000 :: u64) = push_bit 21 (mask 31)" "(0x1fffff :: u64) = mask 21"
    "(0x83 :: u64) = mask 2 OR push_bit 7 1" "(0x80 :: u64) = push_bit 7 1"
    by (simp_all add: mask_eq_exp_minus_1)
  show "((push_bit 21 (drop_bit 21 va) OR 0x83) AND 0x000fffffffe00000) OR (va AND 0x1fffff) = va"
  proof (rule bit_word_eqI)
    fix n
    assume "n < LENGTH(64)"
    then show "bit (((push_bit 21 (drop_bit 21 va) OR 0x83) AND 0x000fffffffe00000) OR (va AND 0x1fffff)) n = bit va n"
      unfolding m bit_or_iff bit_and_iff bit_push_bit_iff bit_drop_bit_eq comp_def bit_mask_iff possible_bit_word bit_1_iff
      using b [of n] by (cases "n < 21") auto
  qed
  show "(push_bit 21 (drop_bit 21 va) OR 0x83) AND 1 = 1"
  proof (rule bit_word_eqI)
    fix n
    assume "n < LENGTH(64)"
    then show "bit ((push_bit 21 (drop_bit 21 va) OR 0x83) AND 1) n = bit (1 :: u64) n"
      unfolding m bit_or_iff bit_and_iff bit_push_bit_iff bit_drop_bit_eq comp_def bit_mask_iff possible_bit_word bit_1_iff
      by auto
  qed
  show "(push_bit 21 (drop_bit 21 va) OR 0x83) AND 0x80 = 0x80"
  proof (rule bit_word_eqI)
    fix n
    assume "n < LENGTH(64)"
    then show "bit ((push_bit 21 (drop_bit 21 va) OR 0x83) AND 0x80) n = bit (0x80 :: u64) n"
      unfolding m bit_or_iff bit_and_iff bit_push_bit_iff bit_drop_bit_eq comp_def bit_mask_iff possible_bit_word bit_1_iff
      by auto
  qed
qed

definition boot_tables :: "('m \<Rightarrow> u64 \<Rightarrow> u8) \<Rightarrow> 'm \<Rightarrow> bool" where
  "boot_tables cell m \<longleftrightarrow>
     word_at cell m PML4_START = PDPTE_START OR PTE_PRESENT_RW \<and>
     word_at cell m PDPTE_START = PDE_START OR PTE_PRESENT_RW \<and>
     (\<forall>i < 512. word_at cell m (fst (pde_entry i)) = snd (pde_entry i))"

lemma page_walk_identity:
  assumes "store_laws E cell" "mem_laws E valid" "\<And>a n. unat a + n \<le> 0xc000 \<Longrightarrow> valid a n"
    and "boot_tables cell m" "va < 2 ^ 30"
  shows "page_walk E m PML4_START va = Some va"
proof -
  let ?i = "unat (drop_bit 21 va)"
  have r: "read_word E m a = Some (word_at cell m a)" if "unat a + 8 \<le> 0xc000" for a
    using read_word_store [OF assms(1,2)] assms(3) that by blast
  note lv = low_va [OF assms(5)]
  have addr: "PDE_START + drop_bit 21 va * 8 = fst (pde_entry ?i)"
    by (simp add: pde_entry_def)
  have ua: "unat (fst (pde_entry ?i)) + 8 \<le> 0xc000" using unat_pde_addr [OF lv(3)] lv(3) by simp
  have w: "word_at cell m 0x9000 = 0xa003" "word_at cell m 0xa000 = 0xb003"
    "word_at cell m (fst (pde_entry ?i)) = push_bit 21 (drop_bit 21 va) OR 0x83"
    using assms(4) lv(3) unfolding boot_tables_def
    by (auto simp: PML4_START_def PDPTE_START_def PDE_START_def PTE_PRESENT_RW_def PDE_PRESENT_RW_PS_def pde_entry_def)
  have r0: "read_word E m 0x9000 = Some (word_at cell m 0x9000)" "read_word E m 0xa000 = Some (word_at cell m 0xa000)"
    "read_word E m (fst (pde_entry ?i)) = Some (word_at cell m (fst (pde_entry ?i)))"
    using r [of "0x9000"] r [of "0xa000"] r [OF ua] by simp_all
  have "table_entry E m PML4_START 39 va = Some 0xa003"
    unfolding table_entry_def using r0 by (simp add: lv w PML4_START_def)
  moreover have "table_entry E m 0xa003 30 va = Some 0xb003"
    unfolding table_entry_def using r0 by (simp add: lv w)
  moreover have "table_entry E m 0xb003 21 va = Some (push_bit 21 (drop_bit 21 va) OR 0x83)"
    unfolding table_entry_def using r0 addr by (simp add: lv w pde_value_bits [OF assms(5)] PDE_START_def)
  ultimately show ?thesis
    unfolding page_walk_def by (simp add: pde_value_bits [OF assms(5)])
qed

definition gdt_words :: "(u64 \<times> u64) list" where
  "gdt_words = map (\<lambda>i. (BOOT_GDT_OFFSET + of_nat (i * 8), boot_gdt ! i)) [0..<BOOT_GDT_ENTRIES]"

lemma gdt_words_eq:
  "gdt_words = [(0x500, boot_gdt ! 0), (0x508, boot_gdt ! 1), (0x510, boot_gdt ! 2), (0x518, boot_gdt ! 3)]"
  by (simp add: gdt_words_def BOOT_GDT_ENTRIES_def BOOT_GDT_OFFSET_def upt_rec numeral_nat)

lemma All_less_4: "(\<forall>i < (4 :: nat). P i) \<longleftrightarrow> P 0 \<and> P 1 \<and> P 2 \<and> P 3"
  by (auto simp: numeral_eq_Suc less_Suc_eq)

lemma segments_written:
  assumes "store_laws E cell" "mem_laws E valid" "\<And>a n. unat a + n \<le> 0xc000 \<Longrightarrow> valid a n"
  shows "\<exists>m' s'. configure_segments_and_sregs E s m = (Inr s', m') \<and>
     s' = s\<lparr> sr_gdt := (0x500, 31), sr_idt := (0x520, 7), sr_cs := kvm_segment_from_gdt (boot_gdt ! 1) 1,
             sr_ds := kvm_segment_from_gdt (boot_gdt ! 2) 2, sr_es := kvm_segment_from_gdt (boot_gdt ! 2) 2,
             sr_fs := kvm_segment_from_gdt (boot_gdt ! 2) 2, sr_gs := kvm_segment_from_gdt (boot_gdt ! 2) 2,
             sr_ss := kvm_segment_from_gdt (boot_gdt ! 2) 2, sr_tr := kvm_segment_from_gdt (boot_gdt ! 3) 3,
             sr_cr0 := sr_cr0 s OR 1, sr_efer := sr_efer s OR 0x500 \<rparr> \<and>
     (\<forall>i < 4. word_at cell m' (0x500 + 8 * of_nat i) = boot_gdt ! i)"
proof -
  have "\<forall>(b, v) \<in> set gdt_words. valid b 8 \<and> 8 dvd unat b" "distinct (map fst gdt_words)"
    by (auto simp: gdt_words_eq assms(3))
  from write_words_stores [OF assms(1,2) this] obtain m1 where
    m1: "write_words E gdt_words m = (Inr (), m1)"
      "\<And>a. 8 dvd unat a \<Longrightarrow> word_at cell m1 a = (case map_of gdt_words a of Some v \<Rightarrow> v | None \<Rightarrow> word_at cell m a)"
    by blast
  have "\<forall>(b, v) \<in> set [(0x520, 0)]. valid b 8 \<and> 8 dvd unat b" "distinct (map fst [(0x520 :: u64, 0 :: u64)])"
    by (auto simp: assms(3))
  from write_words_stores [OF assms(1,2) this] obtain m2 where
    m2: "write_words E [(0x520, 0)] m1 = (Inr (), m2)"
      "\<And>a. 8 dvd unat a \<Longrightarrow>
         word_at cell m2 a = (case map_of [(0x520, 0)] a of Some v \<Rightarrow> v | None \<Rightarrow> word_at cell m1 a)"
    by blast
  have "\<forall>i < 4. word_at cell m2 (0x500 + 8 * of_nat i) = boot_gdt ! i"
    unfolding All_less_4 using m2(2) [of "0x500"] m2(2) [of "0x508"] m2(2) [of "0x510"] m2(2) [of "0x518"]
      m1(2) [of "0x500"] m1(2) [of "0x508"] m1(2) [of "0x510"] m1(2) [of "0x518"]
    by (simp add: gdt_words_eq)
  moreover have "configure_segments_and_sregs E s m =
     (Inr (s\<lparr> sr_gdt := (0x500, 31), sr_idt := (0x520, 7), sr_cs := kvm_segment_from_gdt (boot_gdt ! 1) 1,
             sr_ds := kvm_segment_from_gdt (boot_gdt ! 2) 2, sr_es := kvm_segment_from_gdt (boot_gdt ! 2) 2,
             sr_fs := kvm_segment_from_gdt (boot_gdt ! 2) 2, sr_gs := kvm_segment_from_gdt (boot_gdt ! 2) 2,
             sr_ss := kvm_segment_from_gdt (boot_gdt ! 2) 2, sr_tr := kvm_segment_from_gdt (boot_gdt ! 3) 3,
             sr_cr0 := sr_cr0 s OR 1, sr_efer := sr_efer s OR 0x500 \<rparr>), m2)"
    unfolding configure_segments_and_sregs_def Let_def gdt_words_def [symmetric]
    using m1(1) m2(1) by (simp add: io_simps BOOT_GDT_OFFSET_def BOOT_IDT_OFFSET_def BOOT_GDT_ENTRIES_def
        X86_CR0_PE_def EFER_LME_def EFER_LMA_def)
  ultimately show ?thesis by blast
qed

lemma page_tables_written:
  assumes "store_laws E cell" "mem_laws E valid" "\<And>a n. unat a + n \<le> 0xc000 \<Longrightarrow> valid a n"
  shows "\<exists>m'. setup_page_tables E s m =
       (Inr (s\<lparr> sr_cr3 := PML4_START, sr_cr4 := sr_cr4 s OR X86_CR4_PAE, sr_cr0 := sr_cr0 s OR X86_CR0_PG \<rparr>), m') \<and>
     boot_tables cell m' \<and>
     (\<forall>a. 8 dvd unat a \<longrightarrow> unat a < 0x9000 \<longrightarrow> word_at cell m' a = word_at cell m a)"
proof -
  let ?pt = "[(PML4_START, PDPTE_START OR PTE_PRESENT_RW), (PDPTE_START, PDE_START OR PTE_PRESENT_RW)]"
  have "\<forall>(b, v) \<in> set ?pt. valid b 8 \<and> 8 dvd unat b" "distinct (map fst ?pt)"
    by (auto simp: assms(3) PML4_START_def PDPTE_START_def)
  from write_words_stores [OF assms(1,2) this] obtain m1 where
    m1: "write_words E ?pt m = (Inr (), m1)"
      "\<And>a. 8 dvd unat a \<Longrightarrow> word_at cell m1 a = (case map_of ?pt a of Some v \<Rightarrow> v | None \<Rightarrow> word_at cell m a)"
    by blast
  have al: "8 dvd unat (fst (pde_entry i))" "valid (fst (pde_entry i)) 8" if "i < 512" for i
    using unat_pde_addr [OF that] that by (auto simp: assms(3))
  then have "\<forall>(b, v) \<in> set (map pde_entry [0..<512]). valid b 8 \<and> 8 dvd unat b"
    unfolding set_map set_upt by (auto simp: case_prod_unfold)
  from write_words_stores [OF assms(1,2) this distinct_pde [OF order_refl]] obtain m2 where
    m2: "write_words E (map pde_entry [0..<512]) m1 = (Inr (), m2)"
      "\<And>a. 8 dvd unat a \<Longrightarrow>
         word_at cell m2 a = (case map_of (map pde_entry [0..<512]) a of Some v \<Rightarrow> v | None \<Rightarrow> word_at cell m1 a)"
    by blast
  have low: "word_at cell m2 a = word_at cell m1 a" if "8 dvd unat a" "unat a < 0xb000" for a
    using m2(2) [OF that(1)] map_of_pde_low [OF order_refl that(2)] by (simp only: option.case)
  have "boot_tables cell m2"
    unfolding boot_tables_def
    using low [of PML4_START] low [of PDPTE_START] m1(2) [of PML4_START] m1(2) [of PDPTE_START]
      m2(2) [OF al(1)] map_of_pde [OF order_refl]
    by (auto simp: PML4_START_def PDPTE_START_def)
  moreover have "word_at cell m2 a = word_at cell m a" if "8 dvd unat a" "unat a < 0x9000" for a
    using low [of a] m1(2) [of a] that by (auto simp: PML4_START_def PDPTE_START_def)
  ultimately show ?thesis
    unfolding setup_page_tables_def using m1(1) m2(1) by (simp add: io_simps del: upt_rec_numeral)
qed
text \<open>KVM accepting every call that puts a new vCPU into its boot state.\<close>

definition kvm_accepts :: "'f vcpu_ops \<Rightarrow> bool" where
  "kvm_accepts V \<longleftrightarrow>
     (\<forall>f. is_ok (vo_get_sregs V f)) \<and> (\<forall>s f. is_ok (vo_set_sregs V s f)) \<and>
     (\<forall>b f. is_ok (vo_set_fpu V b f)) \<and> (\<forall>r f. is_ok (vo_set_regs V r f)) \<and>
     (\<forall>ms. vo_msrs_from_entries V ms = Inr ms) \<and> (\<forall>ms f. \<exists>f'. vo_set_msrs V ms f = Inr (length ms, f'))"

lemma kvm_acceptsD:
  assumes "kvm_accepts V"
  shows "\<exists>s. vo_get_sregs V f = Inr s" "\<exists>f'. vo_set_sregs V s f = Inr f'" "\<exists>f'. vo_set_fpu V b f = Inr f'"
    "\<exists>f'. vo_set_regs V r f = Inr f'" "vo_msrs_from_entries V ms = Inr ms"
    "\<exists>f'. vo_set_msrs V ms f = Inr (length ms, f')"
  using assms unfolding kvm_accepts_def is_ok_iff by blast+

lemma bits_kept_or: "(x OR y OR z) AND (y OR z) = (y OR z :: 'a::len word)"
  by (auto intro!: bit_word_eqI simp: bit_or_iff bit_and_iff)

lemma code_segment:
  "kvm_segment_from_gdt (boot_gdt ! 1) 1 =
     \<lparr> seg_base = 0, seg_limit = 0xfffff, seg_selector = 8, seg_type = 0xb, seg_present = 1, seg_dpl = 0,
       seg_db = 0, seg_s = 1, seg_l = 1, seg_g = 1, seg_avl = 0, seg_unusable = 0 \<rparr>"
  by (simp add: boot_gdt_def gdt_entry_def kvm_segment_from_gdt_def Let_def)

text \<open>A handle that stores what it is given, for the witnesses, and memory of sixteen pages.\<close>

definition sim_vcpu :: "VcpuState vcpu_ops" where
  "sim_vcpu =
     \<lparr> vo_get_regs = (\<lambda>f. Inr (vc_regs f)), vo_set_regs = (\<lambda>x f. Inr (f\<lparr> vc_regs := x \<rparr>)),
       vo_get_sregs = (\<lambda>f. Inr (vc_sregs f)), vo_set_sregs = (\<lambda>x f. Inr (f\<lparr> vc_sregs := x \<rparr>)),
       vo_get_fpu = (\<lambda>f. Inr (vc_fpu f)), vo_set_fpu = (\<lambda>x f. Inr (f\<lparr> vc_fpu := x \<rparr>)),
       vo_fpu_with = (\<lambda>cw mx. le_bytes 2 cw @ le_bytes 4 mx),
       vo_get_xcrs = (\<lambda>f. Inr (vc_xcrs f)), vo_set_xcrs = (\<lambda>x f. Inr (f\<lparr> vc_xcrs := x \<rparr>)),
       vo_get_lapic = (\<lambda>f. Inr (vc_lapic f)), vo_set_lapic = (\<lambda>x f. Inr (f\<lparr> vc_lapic := x \<rparr>)),
       vo_get_mp_state = (\<lambda>f. Inr (vc_mp_state f)), vo_set_mp_state = (\<lambda>x f. Inr (f\<lparr> vc_mp_state := x \<rparr>)),
       vo_get_vcpu_events = (\<lambda>f. Inr (vc_vcpu_events f)),
       vo_set_vcpu_events = (\<lambda>x f. Inr (f\<lparr> vc_vcpu_events := x \<rparr>)),
       vo_msrs_from_entries = Inr,
       vo_get_msrs = (\<lambda>q f. Inr (map (\<lambda>(i, _). (i, case map_of (vc_msrs f) i of Some v \<Rightarrow> v | None \<Rightarrow> 0)) q)),
       vo_set_msrs = (\<lambda>ms f. Inr (length ms, f\<lparr> vc_msrs := ms \<rparr>)),
       vo_get_tsc_khz = (\<lambda>f. Inr (vc_tsc_khz f)), vo_set_tsc_khz = (\<lambda>x f. Inr (f\<lparr> vc_tsc_khz := x \<rparr>)),
       vo_cpuid_from_entries = Inr, vo_set_cpuid2 = (\<lambda>_ f. Inr f),
       vo_fpu_size = 6, vo_xcrs_size = 0, vo_events_size = 0,
       vo_run = (\<lambda>f. (Exited Hlt, f)), vo_complete = (\<lambda>_ f. f) \<rparr>"

definition zero_segment :: kvm_segment where
  "zero_segment = kvm_segment_from_gdt 0 0"

definition zero_vcpu :: VcpuState where
  "zero_vcpu =
     \<lparr> vc_regs = boot_regs 0 0,
       vc_sregs = \<lparr> sr_cs = zero_segment, sr_ds = zero_segment, sr_es = zero_segment, sr_fs = zero_segment,
                    sr_gs = zero_segment, sr_ss = zero_segment, sr_tr = zero_segment, sr_gdt = (0, 0), sr_idt = (0, 0),
                    sr_cr0 = 0x10, sr_cr3 = 0, sr_cr4 = 0, sr_efer = 0, sr_rest = [] \<rparr>,
       vc_fpu = [], vc_xcrs = [], vc_lapic = [], vc_mp_state = 0, vc_msrs = [], vc_tsc_khz = 0, vc_vcpu_events = [] \<rparr>"

definition low_env :: "(ringq, page, nat) venv" where
  "low_env = ring_env\<lparr>
     m_read := (\<lambda>m a n. if unat a + n \<le> 65536 then Inr (page_read m a n) else Inl ''invalid guest address''),
     m_write := (\<lambda>m a bs. if unat a + length bs \<le> 65536 then Inr (page_write m a bs)
                           else Inl ''invalid guest address'') \<rparr>"

lemma low_env_laws:
  "mem_laws low_env (\<lambda>a n. unat a + n \<le> 65536)"
  "store_laws low_env (\<lambda>m. m)"
proof -
  show "mem_laws low_env (\<lambda>a n. unat a + n \<le> 65536)"
    by (auto simp: mem_laws_def low_env_def ring_env_def page_read_def split: if_splits)
  have "unat (x - a) < n \<Longrightarrow> unat a + n \<le> 65536 \<Longrightarrow> a \<le> x" for x a :: u64 and n
    by (rule ccontr) (simp add: unat_sub_if_size word_size word_le_nat_alt)
  then show "store_laws low_env (\<lambda>m. m)"
    by (auto simp: store_laws_def low_env_def page_read_def page_write_def split: if_splits)
qed

lemma configure_boot_long_mode:
  assumes "store_laws E cell" and "mem_laws E valid" and "\<And>a n. unat a + n \<le> 0xc000 \<Longrightarrow> valid a n"
    and "kvm_accepts V"
  shows "\<exists>m' f' s f1 f2. configure_boot E V entry params (m, f) = (Inr (), (m', f')) \<and>
     vo_set_sregs V s f = Inr f1 \<and> vo_set_regs V (boot_regs entry params) f2 = Inr f' \<and>
     sr_cr0 s AND (X86_CR0_PE OR X86_CR0_PG) = X86_CR0_PE OR X86_CR0_PG \<and>
     sr_cr4 s AND X86_CR4_PAE = X86_CR4_PAE \<and>
     sr_efer s AND (EFER_LME OR EFER_LMA) = EFER_LME OR EFER_LMA \<and>
     seg_l (sr_cs s) = 1 \<and> seg_present (sr_cs s) = 1 \<and> seg_dpl (sr_cs s) = 0 \<and>
     (\<exists>e. read_word E m' (fst (sr_gdt s) + ucast (seg_selector (sr_cs s))) = Some e \<and>
          kvm_segment_from_gdt e 1 = sr_cs s) \<and>
     (\<forall>va < 2 ^ 30. page_walk E m' (sr_cr3 s) va = Some va)"
proof -
  obtain s0 where s0: "vo_get_sregs V f = Inr s0" using kvm_acceptsD(1) [OF assms(4)] by blast
  from segments_written [OF assms(1-3), of s0 m] obtain m1 s1 where
    seg: "configure_segments_and_sregs E s0 m = (Inr s1, m1)" "sr_gdt s1 = (0x500, 31)"
      "sr_cs s1 = kvm_segment_from_gdt (boot_gdt ! 1) 1" "sr_cr0 s1 = sr_cr0 s0 OR 1" "sr_efer s1 = sr_efer s0 OR 0x500"
      "\<And>i. i < 4 \<Longrightarrow> word_at cell m1 (0x500 + 8 * of_nat i) = boot_gdt ! i"
    by auto
  define s where "s = s1\<lparr> sr_cr3 := PML4_START, sr_cr4 := sr_cr4 s1 OR X86_CR4_PAE, sr_cr0 := sr_cr0 s1 OR X86_CR0_PG \<rparr>"
  from page_tables_written [OF assms(1-3), of s1 m1] obtain m' where
    pt: "setup_page_tables E s1 m1 = (Inr s, m')" "boot_tables cell m'"
      "\<And>a. 8 dvd unat a \<Longrightarrow> unat a < 0x9000 \<Longrightarrow> word_at cell m' a = word_at cell m1 a"
    unfolding s_def by auto
  obtain f1 f2 f3 f' where f: "vo_set_sregs V s f = Inr f1" "vo_set_fpu V (vo_fpu_with V 0x37f 0x1f80) f1 = Inr f2"
    "vo_set_msrs V boot_msrs f2 = Inr (length boot_msrs, f3)" "vo_set_regs V (boot_regs entry params) f3 = Inr f'"
    using kvm_acceptsD [OF assms(4)] by metis
  have "configure_boot E V entry params (m, f) = (Inr (), (m', f'))"
    unfolding configure_boot_def
    by (simp add: io_simps on_mem_def on_vcpu_def kvm_get_def kvm_set_def set_all_msrs_def s0 seg pt f
        kvm_acceptsD(5) [OF assms(4)])
  moreover have "read_word E m' 0x508 = Some (boot_gdt ! 1)"
    using read_word_store [OF assms(1,2,3), of "0x508" m'] pt(3) [of "0x508"] seg(6) [of 1] by simp
  moreover have "\<forall>va < 2 ^ 30. page_walk E m' (sr_cr3 s) va = Some va"
    using page_walk_identity [OF assms(1-3) pt(2)] by (simp add: s_def)
  moreover have "sr_cr0 s AND (X86_CR0_PE OR X86_CR0_PG) = X86_CR0_PE OR X86_CR0_PG"
    using bits_kept_or [of "sr_cr0 s0" X86_CR0_PE X86_CR0_PG]
    by (simp add: s_def seg X86_CR0_PE_def or.assoc)
  moreover have "sr_efer s AND (EFER_LME OR EFER_LMA) = EFER_LME OR EFER_LMA"
    using bits_kept_or [of "sr_efer s0" EFER_LME EFER_LMA] by (simp add: s_def seg EFER_LME_def EFER_LMA_def)
  moreover have "sr_cr4 s AND X86_CR4_PAE = X86_CR4_PAE"
    using bits_kept_or [of "sr_cr4 s1" X86_CR4_PAE X86_CR4_PAE] by (simp add: s_def)
  ultimately show ?thesis using f(1,4) by (intro exI) (auto simp: s_def seg code_segment simp del: One_nat_def)
qed



end
