(* ===== verification/Rate_Limit.thy ===== *)
theory Rate_Limit
  imports Vm_Config
begin

text \<open>
  The token-bucket rate limiter of \<open>crates/mm-vmm/src/ratelimit.rs\<close>.  Instants are
  nanosecond counts; the successive readings of \<open>Instant::now\<close> are a function from the
  number of the reading to its value, passed in where the code reads the clock.  The
  waiting loop takes fuel; \<open>wait_admit_returns\<close> gives the fuel that suffices for a
  clock on which sleeping takes its time.
\<close>

section \<open>Buckets\<close>

record TokenBucket =
  tb_capacity :: u64
  tb_tokens :: u64
  tb_refill_per_ms :: u64

definition tb_new :: "u64 \<Rightarrow> u64 \<Rightarrow> TokenBucket" where
  "tb_new cap rate = \<lparr> tb_capacity = cap, tb_tokens = cap, tb_refill_per_ms = rate \<rparr>"

definition tb_refill :: "u64 \<Rightarrow> TokenBucket \<Rightarrow> TokenBucket" where
  "tb_refill ms b =
     (let added = saturating_mul ms (tb_refill_per_ms b) in
      b\<lparr> tb_tokens := min (saturating_add (tb_tokens b) added) (tb_capacity b) \<rparr>)"

definition tb_consume :: "u64 \<Rightarrow> TokenBucket \<Rightarrow> bool \<times> TokenBucket" where
  "tb_consume n b =
     (if n \<le> tb_tokens b then (True, b\<lparr> tb_tokens := tb_tokens b - n \<rparr>) else (False, b))"

definition tb_available :: "TokenBucket \<Rightarrow> u64" where
  "tb_available b = tb_tokens b"


section \<open>The request gate of a device\<close>

record DeviceRateLimiter =
  rl_ops :: TokenBucket
  ops_capacity :: u64
  rl_bytes :: TokenBucket
  bytes_capacity :: u64
  rl_last :: nat

definition from_config :: "nat \<Rightarrow> RateLimit option \<Rightarrow> DeviceRateLimiter option" where
  "from_config now rl =
     (case rl of None \<Rightarrow> None
      | Some rl \<Rightarrow> Some
          \<lparr> rl_ops = tb_new (rl_ops_capacity rl) (rl_ops_refill_per_ms rl),
            ops_capacity = rl_ops_capacity rl,
            rl_bytes = tb_new (rl_bytes_capacity rl) (rl_bytes_refill_per_ms rl),
            bytes_capacity = rl_bytes_capacity rl,
            rl_last = now \<rparr>)"

text \<open>\<open>saturating_duration_since\<close> in milliseconds, cast to 64 bits.\<close>

definition elapsed_ms :: "nat \<Rightarrow> DeviceRateLimiter \<Rightarrow> u64" where
  "elapsed_ms now l = of_nat ((now - rl_last l) div 1000000)"

definition refilled :: "nat \<Rightarrow> DeviceRateLimiter \<Rightarrow> DeviceRateLimiter" where
  "refilled now l =
     (let ms = elapsed_ms now l in
      if 0 < ms
      then l\<lparr> rl_ops := tb_refill ms (rl_ops l), rl_bytes := tb_refill ms (rl_bytes l),
              rl_last := now \<rparr>
      else l)"

definition try_admit :: "nat \<Rightarrow> u64 \<Rightarrow> u64 \<Rightarrow> DeviceRateLimiter \<Rightarrow> bool \<times> DeviceRateLimiter" where
  "try_admit now ops bytes l =
     (let l = refilled now l;
          need_ops = min ops (ops_capacity l);
          need_bytes = min bytes (bytes_capacity l) in
      if need_ops \<le> tb_available (rl_ops l) \<and> need_bytes \<le> tb_available (rl_bytes l)
      then (True, l\<lparr> rl_ops := snd (tb_consume need_ops (rl_ops l)),
                     rl_bytes := snd (tb_consume need_bytes (rl_bytes l)) \<rparr>)
      else (False, l))"

definition charge_available :: "u64 \<Rightarrow> u64 \<Rightarrow> DeviceRateLimiter \<Rightarrow> DeviceRateLimiter" where
  "charge_available ops bytes l =
     (let need_ops = min ops (ops_capacity l);
          need_bytes = min bytes (bytes_capacity l) in
      l\<lparr> rl_ops := snd (tb_consume (min need_ops (tb_available (rl_ops l))) (rl_ops l)),
         rl_bytes := snd (tb_consume (min need_bytes (tb_available (rl_bytes l))) (rl_bytes l)) \<rparr>)"

text \<open>The loop of \<open>wait_admit\<close>: each round reads the clock in \<open>try_admit\<close> and, when that
  fails, once more against the deadline, then sleeps.\<close>

fun wait_loop ::
  "(nat \<Rightarrow> nat) \<Rightarrow> nat \<Rightarrow> u64 \<Rightarrow> u64 \<Rightarrow> nat \<Rightarrow> nat \<Rightarrow> DeviceRateLimiter
   \<Rightarrow> (DeviceRateLimiter \<times> nat) option" where
  "wait_loop clk deadline ops bytes 0 k l = None"
| "wait_loop clk deadline ops bytes (Suc fuel) k l =
     (case try_admit (clk k) ops bytes l of
        (True, l') \<Rightarrow> Some (l', k + 1)
      | (False, l') \<Rightarrow>
          if deadline \<le> clk (k + 1) then Some (charge_available ops bytes l', k + 2)
          else wait_loop clk deadline ops bytes fuel (k + 2) l')"

definition wait_admit ::
  "(nat \<Rightarrow> nat) \<Rightarrow> nat \<Rightarrow> u64 \<Rightarrow> u64 \<Rightarrow> nat \<Rightarrow> nat \<Rightarrow> DeviceRateLimiter
   \<Rightarrow> (DeviceRateLimiter \<times> nat) option" where
  "wait_admit clk fuel ops bytes max_wait k l =
     wait_loop clk (clk k + max_wait) ops bytes fuel (k + 1) l"


section \<open>Well-formed limiters and runs\<close>

definition tb_wf :: "TokenBucket \<Rightarrow> bool" where
  "tb_wf b \<longleftrightarrow> tb_tokens b \<le> tb_capacity b"

definition limiter_wf :: "DeviceRateLimiter \<Rightarrow> bool" where
  "limiter_wf l \<longleftrightarrow> tb_wf (rl_ops l) \<and> tb_wf (rl_bytes l) \<and>
     tb_capacity (rl_ops l) = ops_capacity l \<and> tb_capacity (rl_bytes l) = bytes_capacity l"

text \<open>A run of requests \<open>(instant, ops, bytes)\<close>, each tried once: the tokens charged in
  either bucket for the admitted ones, and the limiter afterwards.\<close>

fun admit_run ::
  "(nat \<times> u64 \<times> u64) list \<Rightarrow> DeviceRateLimiter \<Rightarrow> nat \<times> nat \<times> DeviceRateLimiter" where
  "admit_run [] l = (0, 0, l)"
| "admit_run ((now, ops, bytes) # rs) l =
     (let (ok, l') = try_admit now ops bytes l;
          (o', b', l'') = admit_run rs l' in
      (if ok then (unat (min ops (ops_capacity l)) + o', unat (min bytes (bytes_capacity l)) + b', l'')
       else (o', b', l'')))"


section \<open>Lemmas\<close>

lemma tb_refill_simps [simp]:
  "tb_capacity (tb_refill ms b) = tb_capacity b"
  "tb_refill_per_ms (tb_refill ms b) = tb_refill_per_ms b"
  by (simp_all add: tb_refill_def Let_def)

lemma tb_consume_simps [simp]:
  "tb_capacity (snd (tb_consume n b)) = tb_capacity b"
  "tb_refill_per_ms (snd (tb_consume n b)) = tb_refill_per_ms b"
  by (simp_all add: tb_consume_def)

lemma tb_wf_refill [simp]: "tb_wf (tb_refill ms b)"
  by (simp add: tb_wf_def tb_refill_def Let_def)

lemma tb_refill_bound:
  "unat (tb_tokens (tb_refill ms b)) \<le> unat (tb_tokens b) + unat ms * unat (tb_refill_per_ms b)"
  by (simp add: tb_refill_def Let_def unat_rust)

lemma tb_refill_full:
  assumes "unat (tb_capacity b) \<le> unat ms * unat (tb_refill_per_ms b)"
  shows "tb_tokens (tb_refill ms b) = tb_capacity b"
proof -
  have "unat (tb_capacity b) \<le> 2 ^ 64 - 1"
    using unsigned_less [of "tb_capacity b", where 'a = nat] by simp
  then have "unat (tb_tokens (tb_refill ms b)) = unat (tb_capacity b)"
    using assms by (simp add: tb_refill_def Let_def unat_rust)
  then show ?thesis by (simp add: word_unat_eq_iff)
qed

lemma unat_tb_consume:
  "n \<le> tb_tokens b \<Longrightarrow> unat (tb_tokens (snd (tb_consume n b))) = unat (tb_tokens b) - unat n"
  by (simp add: tb_consume_def unat_sub)

lemma tb_wf_consume: "tb_wf b \<Longrightarrow> tb_wf (snd (tb_consume n b))"
  by (auto simp: tb_wf_def tb_consume_def word_le_nat_alt unat_sub)

lemma refilled_simps [simp]:
  "ops_capacity (refilled now l) = ops_capacity l"
  "bytes_capacity (refilled now l) = bytes_capacity l"
  "tb_capacity (rl_ops (refilled now l)) = tb_capacity (rl_ops l)"
  "tb_capacity (rl_bytes (refilled now l)) = tb_capacity (rl_bytes l)"
  "tb_refill_per_ms (rl_ops (refilled now l)) = tb_refill_per_ms (rl_ops l)"
  "tb_refill_per_ms (rl_bytes (refilled now l)) = tb_refill_per_ms (rl_bytes l)"
  by (simp_all add: refilled_def Let_def)

lemma limiter_wf_refilled: "limiter_wf l \<Longrightarrow> limiter_wf (refilled now l)"
  by (simp add: limiter_wf_def refilled_def Let_def)

lemma limiter_wf_try_admit: "limiter_wf l \<Longrightarrow> limiter_wf (snd (try_admit now ops bytes l))"
  using limiter_wf_refilled [of l now]
  by (auto simp: try_admit_def Let_def limiter_wf_def tb_wf_consume)

lemma try_admit_simps [simp]:
  "ops_capacity (snd (try_admit now ops bytes l)) = ops_capacity l"
  "bytes_capacity (snd (try_admit now ops bytes l)) = bytes_capacity l"
  "tb_refill_per_ms (rl_ops (snd (try_admit now ops bytes l))) = tb_refill_per_ms (rl_ops l)"
  "tb_refill_per_ms (rl_bytes (snd (try_admit now ops bytes l))) = tb_refill_per_ms (rl_bytes l)"
  by (simp_all add: try_admit_def Let_def)

lemma try_admit_last: "rl_last (snd (try_admit now ops bytes l)) = rl_last (refilled now l)"
  by (simp add: try_admit_def Let_def)

lemma limiter_wf_charge: "limiter_wf l \<Longrightarrow> limiter_wf (charge_available ops bytes l)"
  by (auto simp: charge_available_def Let_def limiter_wf_def tb_wf_consume)

text \<open>Milliseconds credited by one refill, measured on the nanosecond clock.\<close>

definition credited :: "nat \<Rightarrow> DeviceRateLimiter \<Rightarrow> nat" where
  "credited now l = unat (elapsed_ms now l)"

lemma credited_bound: "1000000 * credited now l \<le> rl_last (refilled now l) - rl_last l"
proof -
  have "unat (elapsed_ms now l) \<le> (now - rl_last l) div 1000000"
    by (simp add: elapsed_ms_def unat_of_nat)
  then show ?thesis
    by (auto simp: credited_def refilled_def Let_def word_less_nat_alt)
qed

lemma refilled_last_mono: "rl_last l \<le> rl_last (refilled now l)"
  by (cases "rl_last l \<le> now") (simp_all add: refilled_def Let_def elapsed_ms_def)

lemma refilled_tokens:
  "unat (tb_tokens (rl_ops (refilled now l)))
     \<le> unat (tb_tokens (rl_ops l)) + credited now l * unat (tb_refill_per_ms (rl_ops l))"
  "unat (tb_tokens (rl_bytes (refilled now l)))
     \<le> unat (tb_tokens (rl_bytes l)) + credited now l * unat (tb_refill_per_ms (rl_bytes l))"
  using tb_refill_bound by (simp_all add: refilled_def credited_def Let_def)

lemma try_admit_tokens:
  assumes "try_admit now ops bytes l = (ok, l')"
  shows "unat (tb_tokens (rl_ops l')) + (if ok then unat (min ops (ops_capacity l)) else 0)
           \<le> unat (tb_tokens (rl_ops l)) + credited now l * unat (tb_refill_per_ms (rl_ops l))"
    and "unat (tb_tokens (rl_bytes l')) + (if ok then unat (min bytes (bytes_capacity l)) else 0)
           \<le> unat (tb_tokens (rl_bytes l)) + credited now l * unat (tb_refill_per_ms (rl_bytes l))"
  using assms refilled_tokens [of now l]
  by (auto simp: try_admit_def Let_def tb_available_def unat_tb_consume word_le_nat_alt split: if_splits)

lemma admit_run_bound_aux:
  assumes "admit_run rs l = (ot, bt, l')"
  shows "\<exists>ms. 1000000 * ms \<le> rl_last l' - rl_last l \<and> rl_last l \<le> rl_last l' \<and>
           ot + unat (tb_tokens (rl_ops l'))
             \<le> unat (tb_tokens (rl_ops l)) + ms * unat (tb_refill_per_ms (rl_ops l)) \<and>
           bt + unat (tb_tokens (rl_bytes l'))
             \<le> unat (tb_tokens (rl_bytes l)) + ms * unat (tb_refill_per_ms (rl_bytes l))"
  using assms
proof (induction rs arbitrary: l ot bt)
  case Nil
  then show ?case by (auto intro: exI [of _ 0])
next
  case (Cons r rs)
  obtain now ops bytes where r: "r = (now, ops, bytes)" by (cases r)
  obtain ok l1 where t: "try_admit now ops bytes l = (ok, l1)" by fastforce
  obtain o1 b1 where run: "admit_run rs l1 = (o1, b1, l')"
    using Cons.prems r t by (auto simp: Let_def split: prod.splits if_splits)
  have ot: "ot = (if ok then unat (min ops (ops_capacity l)) else 0) + o1"
    and bt: "bt = (if ok then unat (min bytes (bytes_capacity l)) else 0) + b1"
    using Cons.prems r t run by (auto split: if_splits)
  have last1: "rl_last l1 = rl_last (refilled now l)"
    using try_admit_last [of now ops bytes l] t by simp
  have rate: "tb_refill_per_ms (rl_ops l1) = tb_refill_per_ms (rl_ops l)"
      "tb_refill_per_ms (rl_bytes l1) = tb_refill_per_ms (rl_bytes l)"
    using try_admit_simps [of now ops bytes l] t by simp_all
  obtain ms where ms: "1000000 * ms \<le> rl_last l' - rl_last l1" "rl_last l1 \<le> rl_last l'"
    "o1 + unat (tb_tokens (rl_ops l'))
       \<le> unat (tb_tokens (rl_ops l1)) + ms * unat (tb_refill_per_ms (rl_ops l))"
    "b1 + unat (tb_tokens (rl_bytes l'))
       \<le> unat (tb_tokens (rl_bytes l1)) + ms * unat (tb_refill_per_ms (rl_bytes l))"
    using Cons.IH [OF run] rate by auto
  show ?case
    using ms credited_bound [of now l] refilled_last_mono [of l now] last1
      try_admit_tokens [OF t] ot bt
    by (intro exI [of _ "ms + credited now l"]) (auto simp: distrib_right)
qed


definition clock_laws :: "(nat \<Rightarrow> nat) \<Rightarrow> bool" where
  "clock_laws clk \<longleftrightarrow> (\<forall>j. clk j \<le> clk (Suc j)) \<and> (\<forall>j. clk j + 1000000 \<le> clk (j + 2))"

definition opt_limiter_wf :: "DeviceRateLimiter option \<Rightarrow> bool" where
  "opt_limiter_wf l \<longleftrightarrow> (case l of None \<Rightarrow> True | Some l \<Rightarrow> limiter_wf l)"


lemma wait_loop_terminates:
  assumes "\<forall>j. clk j \<le> clk (Suc j)" and "\<forall>j. clk j + 1000000 \<le> clk (j + 2)"
    and "limiter_wf l" and "deadline + 1000000 \<le> clk k + 1000000 * fuel" and "0 < fuel"
  shows "\<exists>l' k'. wait_loop clk deadline ops bytes fuel k l = Some (l', k') \<and> limiter_wf l'"
  using assms(3-)
proof (induction fuel arbitrary: k l)
  case 0
  then show ?case by simp
next
  case (Suc fuel)
  obtain ok l1 where t: "try_admit (clk k) ops bytes l = (ok, l1)" by fastforce
  have wf1: "limiter_wf l1"
    using limiter_wf_try_admit [of l "clk k" ops bytes] Suc.prems t by simp
  show ?case
  proof (cases "ok \<or> deadline \<le> clk (k + 1)")
    case True
    with t wf1 show ?thesis by (cases ok) (auto simp: limiter_wf_charge)
  next
    case False
    have "clk k + 1000000 \<le> clk (k + 2)" "clk k \<le> clk (k + 1)"
      using assms(1,2) by (auto simp del: add_2_eq_Suc')
    with False Suc.prems
    have "deadline + 1000000 \<le> clk (k + 2) + 1000000 * fuel" and "0 < fuel"
      by (auto simp del: add_2_eq_Suc' intro: gr0I)
    then show ?thesis using Suc.IH [OF wf1, of "k + 2"] t False by simp
  qed
qed

lemma wait_admit_terminates:
  assumes "limiter_wf l" and "\<forall>j. clk j \<le> clk (Suc j)" and "\<forall>j. clk j + 1000000 \<le> clk (j + 2)"
    and "max_wait div 1000000 + 2 \<le> fuel"
  shows "\<exists>l' k'. wait_admit clk fuel ops bytes max_wait k l = Some (l', k') \<and> limiter_wf l'"
proof -
  have "max_wait < 1000000 * (max_wait div 1000000 + 1)"
    using dividend_less_div_times [of 1000000 max_wait] by simp
  then have "max_wait + 1000000 \<le> 1000000 * (max_wait div 1000000 + 2)" by simp
  also have "\<dots> \<le> 1000000 * fuel" using assms(4) by (rule mult_le_mono2)
  finally have "max_wait + 1000000 \<le> 1000000 * fuel" .
  moreover have "clk k \<le> clk (k + 1)" using assms(2) by simp
  ultimately have "clk k + max_wait + 1000000 \<le> clk (k + 1) + 1000000 * fuel" by linarith
  then show ?thesis
    using wait_loop_terminates [OF assms(2,3,1)] assms(4) by (simp add: wait_admit_def)
qed


section \<open>Properties\<close>

text \<open>C19: The limiter enforces its configured rate: over any sequence of requests, whatever
  their sizes and however the clock readings are spaced, the tokens charged for admitted
  requests are at most the bucket's initial content plus the refill rate times the whole
  milliseconds of clock time the run spans, in both buckets; and the buckets never exceed
  their capacities.\<close>

theorem rate_limit_bound:
  assumes "limiter_wf l" and "admit_run rs l = (ot, bt, l')"
  shows "ot \<le> unat (ops_capacity l)
               + (rl_last l' - rl_last l) div 1000000 * unat (tb_refill_per_ms (rl_ops l)) \<and>
         bt \<le> unat (bytes_capacity l)
               + (rl_last l' - rl_last l) div 1000000 * unat (tb_refill_per_ms (rl_bytes l))"
proof -
  obtain ms where ms: "1000000 * ms \<le> rl_last l' - rl_last l"
    "ot \<le> unat (tb_tokens (rl_ops l)) + ms * unat (tb_refill_per_ms (rl_ops l))"
    "bt \<le> unat (tb_tokens (rl_bytes l)) + ms * unat (tb_refill_per_ms (rl_bytes l))"
    using admit_run_bound_aux [OF assms(2)] by auto
  have "ms \<le> (rl_last l' - rl_last l) div 1000000"
    using ms(1) by (simp add: less_eq_div_iff_mult_less_eq mult.commute)
  then have "ms * r \<le> (rl_last l' - rl_last l) div 1000000 * r" for r by simp
  moreover have "unat (tb_tokens (rl_ops l)) \<le> unat (ops_capacity l)"
      "unat (tb_tokens (rl_bytes l)) \<le> unat (bytes_capacity l)"
    using assms(1) by (auto simp: limiter_wf_def tb_wf_def word_le_nat_alt)
  ultimately show ?thesis using ms(2,3) by (meson add_mono order_trans)
qed

definition limiter_example :: DeviceRateLimiter where
  "limiter_example =
     \<lparr> rl_ops = tb_new 2 1, ops_capacity = 2, rl_bytes = tb_new 100 10, bytes_capacity = 100,
       rl_last = 0 \<rparr>"

lemma limiter_example_wf: "limiter_wf limiter_example"
  by (simp add: limiter_wf_def limiter_example_def tb_wf_def tb_new_def)

lemma admit_run_example:
  "admit_run [(0, 1, 50), (10, 1, 40), (20, 1, 1), (3000000, 1, 40)] limiter_example =
     (3, 130, limiter_example\<lparr> rl_ops := (tb_new 2 1)\<lparr> tb_tokens := 1 \<rparr>,
                rl_bytes := (tb_new 100 10)\<lparr> tb_tokens := 0 \<rparr>, rl_last := 3000000 \<rparr>)"
  by (simp add: limiter_example_def tb_new_def try_admit_def refilled_def elapsed_ms_def Let_def
      tb_available_def tb_consume_def tb_refill_def word_arith min_def)

theorem rate_limit_bound_witness:
  "(3 :: nat) \<le> 2 + 3000000 div 1000000 * 1 \<and> (130 :: nat) \<le> 100 + 3000000 div 1000000 * 10"
  using rate_limit_bound [OF limiter_example_wf admit_run_example]
  by (simp add: limiter_example_def tb_new_def)



text \<open>C27: A request is never refused for good: once enough time has passed to fill both
  buckets from empty, \<open>try_admit\<close> admits any request, even one larger than a bucket.\<close>

theorem full_bucket_admits:
  assumes "limiter_wf l" and "rl_last l + 1000000 * ms \<le> now" and "now < 1000000 * 2 ^ 64"
    and "0 < ms"
    and "unat (ops_capacity l) \<le> ms * unat (tb_refill_per_ms (rl_ops l))"
    and "unat (bytes_capacity l) \<le> ms * unat (tb_refill_per_ms (rl_bytes l))"
  shows "fst (try_admit now ops bytes l)"
proof -
  have "ms \<le> (now - rl_last l) div 1000000"
    using assms(2) by (simp add: less_eq_div_iff_mult_less_eq)
  moreover have "(now - rl_last l) div 1000000 < 2 ^ 64"
    using assms(3) by (intro less_mult_imp_div_less) linarith
  ultimately have e: "ms \<le> unat (elapsed_ms now l)"
    by (simp add: elapsed_ms_def unat_of_nat)
  then have pos: "0 < elapsed_ms now l" using assms(4) by (simp add: word_less_nat_alt)
  have mono: "ms * r \<le> unat (elapsed_ms now l) * r" for r
    using e by (rule mult_le_mono1)
  have "tb_tokens (rl_ops (refilled now l)) = ops_capacity l"
      "tb_tokens (rl_bytes (refilled now l)) = bytes_capacity l"
    using assms(1) pos tb_refill_full [OF order_trans [OF _ mono], of "rl_ops l"]
      tb_refill_full [OF order_trans [OF _ mono], of "rl_bytes l"] assms(5,6)
    by (auto simp: refilled_def Let_def limiter_wf_def)
  then show ?thesis by (simp add: try_admit_def Let_def tb_available_def)
qed

theorem full_bucket_admits_witness:
  "fst (try_admit 20000000 1 100000
     (limiter_example\<lparr> rl_bytes := \<lparr> tb_capacity = 100, tb_tokens = 0, tb_refill_per_ms = 10 \<rparr> \<rparr>))"
  by (rule full_bucket_admits [where ms = 20])
     (simp_all add: limiter_wf_def limiter_example_def tb_wf_def tb_new_def)

end
