(* ===== verification/Host_File.thy ===== *)
theory Host_File
  imports MM_Prelude
begin

text \<open>
  The positioned file I/O of Rust's standard library that the VMM uses on image and memory
  files: \<open>read_exact_at\<close>, \<open>write_all_at\<close> and \<open>sync_all\<close> on a file that is a byte string,
  opened for reading or for reading and writing.  Reading past the end is an error; writing
  past it extends the file, with zeros in the hole; offsets beyond the signed 64-bit range
  are refused, as is writing through a read-only handle.
\<close>

record hfile =
  f_bytes :: bytes
  f_writable :: bool

definition read_exact_at :: "hfile \<Rightarrow> u64 \<Rightarrow> nat \<Rightarrow> string + bytes" where
  "read_exact_at f off n =
     (if n = 0 then Inr []
      else if unat off + n \<le> length (f_bytes f) then Inr (slice (unat off) n (f_bytes f))
      else Inl ''failed to fill whole buffer'')"

text \<open>Contents after writing \<open>bs\<close> at \<open>off\<close>.\<close>

definition write_bytes :: "nat \<Rightarrow> bytes \<Rightarrow> bytes \<Rightarrow> bytes" where
  "write_bytes off bs old = patch off bs (old @ replicate (off + length bs - length old) 0)"

definition write_all_at :: "hfile \<Rightarrow> u64 \<Rightarrow> bytes \<Rightarrow> string + hfile" where
  "write_all_at f off bs =
     (if bs = [] then Inr f
      else if \<not> f_writable f then Inl ''bad file descriptor''
      else if 2 ^ 63 \<le> unat off + length bs then Inl ''invalid argument''
      else Inr (f\<lparr> f_bytes := write_bytes (unat off) bs (f_bytes f) \<rparr>))"


lemma write_bytes_eq:
  "write_bytes off bs old =
     take off old @ replicate (off - length old) 0 @ bs @ drop (off + length bs) old"
  by (auto simp: write_bytes_def patch_def)

lemma length_write_bytes [simp]:
  "length (write_bytes off bs old) = max (length old) (off + length bs)"
  by (auto simp: write_bytes_eq max_def min_def)

lemma slice_write_bytes [simp]: "slice off (length bs) (write_bytes off bs old) = bs"
  by (simp add: write_bytes_eq slice_def)

lemma slice_write_bytes_before:
  "o1 + n \<le> off \<Longrightarrow> o1 + n \<le> length old \<Longrightarrow> slice o1 n (write_bytes off bs old) = slice o1 n old"
  by (simp add: write_bytes_def slice_patch_before)

lemma slice_write_bytes_after:
  "off + length bs \<le> o1 \<Longrightarrow> o1 + n \<le> length old \<Longrightarrow>
   slice o1 n (write_bytes off bs old) = slice o1 n old"
  by (simp add: write_bytes_def slice_patch_after)

lemma write_bytes_append:
  "write_bytes (off + length bs) cs (write_bytes off bs old) = write_bytes off (bs @ cs) old"
proof -
  define A where "A = take off old @ replicate (off - length old) 0"
  have A: "length A = off" by (auto simp: A_def min_def)
  have w: "write_bytes off xs old = A @ xs @ drop (off + length xs) old" for xs
    by (simp add: write_bytes_eq A_def)
  have "write_bytes (length B) cs (B @ X) = B @ cs @ drop (length cs) X" for B X :: bytes
    by (simp add: write_bytes_eq)
  from this [of "A @ bs" "drop (off + length bs) old"] A show ?thesis
    by (simp add: w add.commute add.left_commute)
qed

lemma write_all_at_writable: "write_all_at f off bs = Inr f' \<Longrightarrow> f_writable f' = f_writable f"
  by (auto simp: write_all_at_def split: if_splits)

end
