(* ===== verification/Virtio_Block.thy ===== *)
theory Virtio_Block
  imports Virtio_Mmio Rate_Limit Host_File
begin

text \<open>
  The block device of \<open>crates/mm-vmm/src/devices/block.rs\<close>: the device methods, the
  service of one request, the drain of the request queue and one round of the worker's
  poll loop.  Descriptor chains are arbitrary, so the theorems hold for a hostile guest.
\<close>

section \<open>The device\<close>

definition SECTOR_SIZE :: u64 where "SECTOR_SIZE = 512"
definition VIRTIO_BLK_HDR_LEN :: nat where "VIRTIO_BLK_HDR_LEN = 16"
abbreviation VIRTIO_BLK_T_IN :: u32 where "VIRTIO_BLK_T_IN \<equiv> 0"
abbreviation VIRTIO_BLK_T_OUT :: u32 where "VIRTIO_BLK_T_OUT \<equiv> 1"
abbreviation VIRTIO_BLK_T_FLUSH :: u32 where "VIRTIO_BLK_T_FLUSH \<equiv> 4"
abbreviation VIRTIO_BLK_S_OK :: u8 where "VIRTIO_BLK_S_OK \<equiv> 0"
abbreviation VIRTIO_BLK_S_IOERR :: u8 where "VIRTIO_BLK_S_IOERR \<equiv> 1"
abbreviation VIRTIO_BLK_S_UNSUPP :: u8 where "VIRTIO_BLK_S_UNSUPP \<equiv> 2"
abbreviation VIRTIO_BLK_F_RO :: u64 where "VIRTIO_BLK_F_RO \<equiv> 0x20"
abbreviation VIRTIO_BLK_F_FLUSH :: u64 where "VIRTIO_BLK_F_FLUSH \<equiv> 0x200"

text \<open>\<open>bk_worker\<close> holds what was moved into the worker thread when it was started.\<close>

record 'q Block =
  bk_capacity_sectors :: u64
  bk_read_only :: bool
  bk_file :: "hfile option"
  bk_queue_max_sizes :: "u16 list"
  bk_rate_limit :: "RateLimit option"
  bk_pause :: bool
  bk_worker :: "('q \<times> hfile \<times> bool \<times> RateLimit option \<times> bool) option"

text \<open>\<open>opened\<close> is the outcome of opening the image in the given mode.\<close>

definition block_new :: "(bool \<Rightarrow> string + hfile) \<Rightarrow> bool \<Rightarrow> RateLimit option \<Rightarrow> VmmError + 'q Block" where
  "block_new opened read_only rate_limit =
     (case opened (\<not> read_only) of
        Inl e \<Rightarrow> Inl (Io e)
      | Inr f \<Rightarrow> Inr \<lparr> bk_capacity_sectors = of_nat (length (f_bytes f)) div SECTOR_SIZE,
                      bk_read_only = read_only, bk_file = Some f,
                      bk_queue_max_sizes = [QUEUE_SIZE], bk_rate_limit = rate_limit,
                      bk_pause = False, bk_worker = None \<rparr>)"

definition block_features :: "'q Block \<Rightarrow> u64" where
  "block_features b =
     (let f = VIRTIO_F_VERSION_1 OR VIRTIO_BLK_F_FLUSH in
      if bk_read_only b then f OR VIRTIO_BLK_F_RO else f)"

definition block_read_config :: "'q Block \<Rightarrow> u64 \<Rightarrow> bytes \<Rightarrow> bytes" where
  "block_read_config b off data = config_bytes (le_bytes 8 (bk_capacity_sectors b)) off (length data)"

definition block_set_pause_handle :: "'q Block \<Rightarrow> 'q Block" where
  "block_set_pause_handle b = b\<lparr> bk_pause := True \<rparr>"

definition block_activate :: "('q, 'm, 'e) venv \<Rightarrow> 'q list \<Rightarrow> 'e list \<Rightarrow> ('q Block, unit) io" where
  "block_activate E queues evts b =
     (if queues = [] then (Inl (Device ''block: missing request queue''), b)
      else if evts = [] then (Inl (Device ''block: missing queue eventfd''), b)
      else case bk_file b of
             None \<Rightarrow> (Inl (Device ''block: already activated''), b)
           | Some f \<Rightarrow>
               (let w = (last queues, f, bk_read_only b, bk_rate_limit b, bk_pause b);
                    b = b\<lparr> bk_file := None, bk_rate_limit := None, bk_pause := False \<rparr> in
                case thread_spawn E ''mm-blk'' of
                  Inl e \<Rightarrow> (Inl (Io e), b)
                | Inr _ \<Rightarrow> (Inr (), b\<lparr> bk_worker := Some w \<rparr>)))"

definition block_vtable :: "('q, 'm, 'e) venv \<Rightarrow> ('q Block, 'q, 'e) vtable" where
  "block_vtable E =
     \<lparr> v_device_type = (\<lambda>_. TYPE_BLOCK), v_queue_max_sizes = bk_queue_max_sizes,
       v_features = block_features, v_read_config = block_read_config,
       v_write_config = (\<lambda>_ _ b. b), v_activate = block_activate E \<rparr>"


section \<open>Requests\<close>

record ('q, 'm, 'e) blk =
  bw_queue :: 'q
  bw_mem :: 'm
  bw_intr :: "'e Interrupt"
  bw_file :: hfile
  bw_read_only :: bool
  bw_limiter :: "DeviceRateLimiter option"
  bw_clk :: nat
  bw_slot :: "QueueCursor list option"

fun read_request ::
  "('q, 'm, 'e) venv \<Rightarrow> hfile \<Rightarrow> u64 \<Rightarrow> u32 \<Rightarrow> desc list \<Rightarrow> ('m, u32) io" where
  "read_request E f offset tot [] m = (Inr tot, m)"
| "read_request E f offset tot (d # ds) m =
     (if \<not> d_write_only d
      then (Inl (Device ''block: read request with read-only data descriptor''), m)
      else case read_exact_at f offset (unat (d_len d)) of
             Inl e \<Rightarrow> (Inl (Io e), m)
           | Inr buf \<Rightarrow>
               (case m_write E m (d_addr d) buf of
                  Inl e \<Rightarrow> (Inl (Device e), m)
                | Inr m' \<Rightarrow> read_request E f (offset + ucast (d_len d)) (tot + d_len d) ds m'))"

fun write_request ::
  "('q, 'm, 'e) venv \<Rightarrow> 'm \<Rightarrow> u64 \<Rightarrow> desc list \<Rightarrow> (hfile, unit) io" where
  "write_request E m offset [] f = (Inr (), f)"
| "write_request E m offset (d # ds) f =
     (case m_read E m (d_addr d) (unat (d_len d)) of
        Inl e \<Rightarrow> (Inl (Device e), f)
      | Inr buf \<Rightarrow>
          (case write_all_at f offset buf of
             Inl e \<Rightarrow> (Inl (Io e), f)
           | Inr f' \<Rightarrow> write_request E m (offset + ucast (d_len d)) ds f'))"

text \<open>The status of a request, the bytes it wrote to the guest, and its effect.\<close>

definition perform ::
  "('q, 'm, 'e) venv \<Rightarrow> u32 \<Rightarrow> u64 \<Rightarrow> desc list \<Rightarrow> ('q, 'm, 'e) blk
   \<Rightarrow> (u8 \<times> u32) \<times> ('q, 'm, 'e) blk" where
  "perform E req_type sector data s =
     (if req_type = VIRTIO_BLK_T_IN then
        (case read_request E (bw_file s) (sector * SECTOR_SIZE) 0 data (bw_mem s) of
           (Inl _, m) \<Rightarrow> ((VIRTIO_BLK_S_IOERR, 0), s\<lparr> bw_mem := m \<rparr>)
         | (Inr n, m) \<Rightarrow> ((VIRTIO_BLK_S_OK, n), s\<lparr> bw_mem := m \<rparr>))
      else if req_type = VIRTIO_BLK_T_OUT \<and> bw_read_only s then ((VIRTIO_BLK_S_IOERR, 0), s)
      else if req_type = VIRTIO_BLK_T_OUT then
        (case write_request E (bw_mem s) (sector * SECTOR_SIZE) data (bw_file s) of
           (Inl _, f) \<Rightarrow> ((VIRTIO_BLK_S_IOERR, 0), s\<lparr> bw_file := f \<rparr>)
         | (Inr _, f) \<Rightarrow> ((VIRTIO_BLK_S_OK, 0), s\<lparr> bw_file := f \<rparr>))
      else if req_type = VIRTIO_BLK_T_FLUSH then ((VIRTIO_BLK_S_OK, 0), s)
      else ((VIRTIO_BLK_S_UNSUPP, 0), s))"

definition service_request ::
  "('q, 'm, 'e) venv \<Rightarrow> desc list \<Rightarrow> (('q, 'm, 'e) blk, u32) io" where
  "service_request E descs s =
     (if length descs < 2 then (Inl (Device ''block: request chain too short''), s)
      else if unat (d_len (descs ! 0)) < VIRTIO_BLK_HDR_LEN
      then (Inl (Device ''block: short request header''), s)
      else case m_read E (bw_mem s) (d_addr (descs ! 0)) VIRTIO_BLK_HDR_LEN of
             Inl e \<Rightarrow> (Inl (Device e), s)
           | Inr hdr \<Rightarrow>
               (let req_type = le_word (slice 0 4 hdr);
                    sector = le_word (slice 8 8 hdr);
                    data = butlast (tl descs) in
                case perform E req_type sector data s of
                  ((status, written), s) \<Rightarrow>
                    (case m_write E (bw_mem s) (d_addr (last descs)) [status] of
                       Inl e \<Rightarrow> (Inl (Device e), s)
                     | Inr m \<Rightarrow> (Inr (written + 1), s\<lparr> bw_mem := m \<rparr>))))"


section \<open>The queue\<close>

text \<open>Rate limiting waits at most 200 ms; 202 rounds of its loop are enough for that.\<close>

definition block_throttle ::
  "(nat \<Rightarrow> nat) \<Rightarrow> desc list \<Rightarrow> ('q, 'm, 'e) blk \<Rightarrow> ('q, 'm, 'e) blk option" where
  "block_throttle clk descs s =
     (case bw_limiter s of
        None \<Rightarrow> Some s
      | Some l \<Rightarrow>
          (let data_bytes = sum_list (map (\<lambda>d. ucast (d_len d)) (butlast (tl descs))) in
           map_option (\<lambda>(l', k). s\<lparr> bw_limiter := Some l', bw_clk := k \<rparr>)
             (wait_admit clk 202 1 data_bytes 200000000 (bw_clk s) l)))"

definition block_pop ::
  "('q, 'm, 'e) venv \<Rightarrow> ('q, 'm, 'e) blk \<Rightarrow> (chain \<times> ('q, 'm, 'e) blk) option" where
  "block_pop E s = map_option (\<lambda>(c, q). (c, s\<lparr> bw_queue := q \<rparr>)) (q_pop E (bw_queue s) (bw_mem s))"

text \<open>One round of the drain.\<close>

definition block_round ::
  "(nat \<Rightarrow> nat) \<Rightarrow> ('q, 'm, 'e) venv \<Rightarrow> chain \<Rightarrow> ('q, 'm, 'e) blk
   \<Rightarrow> ((VmmError + unit) \<times> ('q, 'm, 'e) blk) option" where
  "block_round clk E c s =
     (case block_throttle clk (c_descs c) s of
        None \<Rightarrow> None
      | Some s \<Rightarrow> Some
          (case service_request E (c_descs c) s of
             (Inl e, s) \<Rightarrow> (Inl e, s)
           | (Inr used_len, s) \<Rightarrow>
               (case q_add_used E (bw_queue s) (bw_mem s) (c_head c) used_len of
                  Inl e \<Rightarrow> (Inl (Device e), s)
                | Inr (q, m) \<Rightarrow> (Inr (), s\<lparr> bw_queue := q, bw_mem := m \<rparr>))))"

definition block_signal :: "('q, 'm, 'e) venv \<Rightarrow> (('q, 'm, 'e) blk, unit) io" where
  "block_signal E s = (case signal_used_queue E (bw_intr s) of (r, i) \<Rightarrow> (r, s\<lparr> bw_intr := i \<rparr>))"

definition block_process_queue ::
  "(nat \<Rightarrow> nat) \<Rightarrow> ('q, 'm, 'e) venv \<Rightarrow> nat \<Rightarrow> ('q, 'm, 'e) blk
   \<Rightarrow> ((VmmError + unit) \<times> ('q, 'm, 'e) blk) option" where
  "block_process_queue clk E fuel s =
     map_option (finish (block_signal E)) (drain (block_pop E) (block_round clk E) fuel False s)"

text \<open>One round of the worker: the outcome of the poll, then the two descriptors.\<close>

definition block_worker_round ::
  "(nat \<Rightarrow> nat) \<Rightarrow> ('q, 'm, 'e) venv \<Rightarrow> nat \<Rightarrow> poll_result \<Rightarrow> bool \<Rightarrow> bool \<Rightarrow> ('q, 'm, 'e) blk
   \<Rightarrow> (control \<times> ('q, 'm, 'e) blk) option" where
  "block_worker_round clk E fuel p evt_read_ok checkpoint_requested s =
     (case p of
        PollInterrupted \<Rightarrow> Some (Continue, s)
      | PollFailed \<Rightarrow> Some (Exit, s)
      | Polled notify pause \<Rightarrow>
          if notify \<and> \<not> evt_read_ok then Some (Exit, s)
          else
            (case (if notify then map_option snd (block_process_queue clk E fuel s) else Some s) of
               None \<Rightarrow> None
             | Some s \<Rightarrow>
                 if \<not> pause then Some (Continue, s)
                 else
                   (case block_process_queue clk E fuel s of
                      None \<Rightarrow> None
                    | Some (_, s) \<Rightarrow>
                        (let s = s\<lparr> bw_slot := Some [cursor_of_state (q_state E (bw_queue s))] \<rparr> in
                         Some (if checkpoint_requested then Park else Exit, s)))))"


section \<open>Lemmas on requests\<close>

lemma read_request_ring:
  assumes "ring_laws E pend used" and "read_request E f off tot ds m = (r, m')"
  shows "pend q m' = pend q m \<and> used q m' = used q m"
  using assms(2)
proof (induction ds arbitrary: off tot m)
  case Nil
  then show ?case by simp
next
  case (Cons d ds)
  have w: "pend q m1 = pend q m0 \<and> used q m1 = used q m0" if "m_write E m0 a bs = Inr m1" for m0 m1 a bs
    using ring_lawsD(6,7) [OF assms(1) that] by simp
  from Cons show ?case by (fastforce split: if_splits sum.splits dest!: w)
qed

lemma perform_ring:
  assumes "ring_laws E pend used" and "perform E t sec data s = (r, s')"
  shows "bw_queue s' = bw_queue s \<and> pend q (bw_mem s') = pend q (bw_mem s) \<and>
         used q (bw_mem s') = used q (bw_mem s) \<and> bw_intr s' = bw_intr s \<and>
         bw_limiter s' = bw_limiter s \<and> bw_read_only s' = bw_read_only s"
  using assms(2) read_request_ring [OF assms(1), of "bw_file s" "sec * SECTOR_SIZE" 0 data "bw_mem s"]
  by (auto simp: perform_def split: if_splits prod.splits sum.splits)

text \<open>A request changes the state only through \<open>perform\<close> and the status byte.\<close>

lemma service_request_cases:
  assumes "service_request E ds s = (r, s')"
  obtains "s' = s"
  | t sec data s1 a v m where "s1 = snd (perform E t sec data s)"
      "s' = s1 \<or> m_write E (bw_mem s1) a [v] = Inr m \<and> s' = s1\<lparr> bw_mem := m \<rparr>"
proof (cases "s' = s")
  case True
  then show thesis by (rule that(1))
next
  case False
  with assms obtain hdr where hdr: "2 \<le> length ds"
    "m_read E (bw_mem s) (d_addr (ds ! 0)) VIRTIO_BLK_HDR_LEN = Inr hdr"
    by (auto simp: service_request_def not_less split: if_splits sum.splits)
  obtain status written s1 where p:
    "perform E (le_word (slice 0 4 hdr)) (le_word (slice 8 8 hdr)) (butlast (tl ds)) s = ((status, written), s1)"
    by (metis prod.collapse)
  from assms False hdr p
  have "s' = s1 \<or> (\<exists>m. m_write E (bw_mem s1) (d_addr (last ds)) [status] = Inr m \<and> s' = s1\<lparr> bw_mem := m \<rparr>)"
    by (auto simp: service_request_def Let_def not_less split: if_splits sum.splits)
  then show thesis using p that(2) by (metis snd_conv)
qed

lemma service_request_ring:
  assumes "ring_laws E pend used" and "service_request E ds s = (r, s')"
  shows "bw_queue s' = bw_queue s \<and> pend q (bw_mem s') = pend q (bw_mem s) \<and>
         used q (bw_mem s') = used q (bw_mem s) \<and> bw_intr s' = bw_intr s \<and>
         bw_limiter s' = bw_limiter s"
  using assms(2)
proof (cases rule: service_request_cases)
  case 1
  then show ?thesis by simp
next
  case (2 t sec data s1 a v m)
  have "bw_queue s1 = bw_queue s \<and> pend q (bw_mem s1) = pend q (bw_mem s) \<and>
        used q (bw_mem s1) = used q (bw_mem s) \<and> bw_intr s1 = bw_intr s \<and> bw_limiter s1 = bw_limiter s"
    using perform_ring [OF assms(1), of t sec data s "fst (perform E t sec data s)" s1 q] 2(1) by simp
  with 2(2) ring_lawsD(6,7) [OF assms(1)] show ?thesis by auto
qed

lemma write_request_read_only_handle:
  "\<not> f_writable f \<Longrightarrow> snd (write_request E m off ds f) = f"
  by (induction E m off ds f rule: write_request.induct)
     (auto simp: write_all_at_def split: sum.splits)

lemma perform_read_only: "bw_read_only s \<Longrightarrow> bw_file (snd (perform E t sec data s)) = bw_file s"
  by (simp add: perform_def split: prod.splits sum.splits)

lemma perform_read_only_flag: "bw_read_only (snd (perform E t sec data s)) = bw_read_only s"
  by (simp add: perform_def split: prod.splits sum.splits)

lemma service_request_read_only:
  assumes "bw_read_only s" and "service_request E ds s = (r, s')"
  shows "bw_file s' = bw_file s \<and> bw_read_only s'"
  using assms(2)
proof (cases rule: service_request_cases)
  case 1
  then show ?thesis using assms(1) by simp
next
  case (2 t sec data s1 a v m)
  then show ?thesis
    using assms(1) perform_read_only [OF assms(1), of E t sec data] perform_read_only_flag [of E t sec data s]
    by auto
qed

lemma block_throttle_simps:
  "block_throttle clk ds s = Some s' \<Longrightarrow>
   bw_file s' = bw_file s \<and> bw_read_only s' = bw_read_only s \<and> bw_queue s' = bw_queue s \<and>
   bw_mem s' = bw_mem s \<and> bw_intr s' = bw_intr s"
  by (auto simp: block_throttle_def Let_def split: option.splits)

text \<open>The bytes a read moves: descriptor by descriptor, the next bytes of the disk.\<close>

fun write_chunks :: "('q, 'm, 'e) venv \<Rightarrow> (u64 \<times> bytes) list \<Rightarrow> 'm \<Rightarrow> string + 'm" where
  "write_chunks E [] m = Inr m"
| "write_chunks E ((a, bs) # cs) m = res_bind (m_write E m a bs) (write_chunks E cs)"

fun disk_chunks :: "bytes \<Rightarrow> nat \<Rightarrow> desc list \<Rightarrow> (u64 \<times> bytes) list" where
  "disk_chunks disk off [] = []"
| "disk_chunks disk off (d # ds) =
     (d_addr d, slice off (unat (d_len d)) disk) # disk_chunks disk (off + unat (d_len d)) ds"

definition descs_len :: "desc list \<Rightarrow> nat" where
  "descs_len ds = sum_list (map (unat \<circ> d_len) ds)"

lemma descs_len_simps [simp]:
  "descs_len [] = 0"
  "descs_len (d # ds) = unat (d_len d) + descs_len ds"
  by (simp_all add: descs_len_def)

lemma unat_off_add:
  "unat (off :: u64) + unat (n :: u32) < 2 ^ 64 \<Longrightarrow> unat (off + ucast n) = unat off + unat n"
  by (simp add: unat_word_ariths)

lemma concat_disk_chunks:
  "concat (map snd (disk_chunks disk off ds)) = slice off (descs_len ds) disk"
proof (induction ds arbitrary: off)
  case Nil
  then show ?case by (simp add: slice_def)
next
  case (Cons d ds)
  then show ?case
    using take_add [of "unat (d_len d)" "descs_len ds" "drop off disk"]
    by (simp add: slice_def drop_drop add.commute)
qed

lemma read_request_ok:
  assumes "unat off + descs_len ds \<le> length (f_bytes f)" and "unat off + descs_len ds < 2 ^ 64"
    and "\<forall>d \<in> set ds. d_write_only d"
    and "write_chunks E (disk_chunks (f_bytes f) (unat off) ds) m = Inr m'"
  shows "read_request E f off tot ds m = (Inr (tot + of_nat (descs_len ds)), m')"
  using assms
proof (induction ds arbitrary: off tot m)
  case Nil
  then show ?case by simp
next
  case (Cons d ds)
  have off: "unat (off + ucast (d_len d)) = unat off + unat (d_len d)"
    using Cons.prems(2) by (intro unat_off_add) simp
  have r: "read_exact_at f off (unat (d_len d)) = Inr (slice (unat off) (unat (d_len d)) (f_bytes f))"
    using Cons.prems(1) by (auto simp: read_exact_at_def slice_def)
  obtain m1 where m1: "m_write E m (d_addr d) (slice (unat off) (unat (d_len d)) (f_bytes f)) = Inr m1"
    "write_chunks E (disk_chunks (f_bytes f) (unat off + unat (d_len d)) ds) m1 = Inr m'"
    using Cons.prems(4) by (auto simp: res_bind_Inr_iff)
  have "read_request E f (off + ucast (d_len d)) (tot + d_len d) ds m1 =
        (Inr (tot + d_len d + of_nat (descs_len ds)), m')"
    using Cons.prems m1(2) off by (intro Cons.IH) auto
  then show ?case using Cons.prems(3) r m1(1) by (simp add: add.assoc)
qed

lemma write_request_ok:
  assumes "f_writable f" and "unat off + descs_len ds < 2 ^ 63"
    and "map (\<lambda>d. m_read E m (d_addr d) (unat (d_len d))) ds = map Inr bufs"
    and "map length bufs = map (unat \<circ> d_len) ds"
  shows "\<exists>f'. write_request E m off ds f = (Inr (), f') \<and> f_writable f' \<and>
           f_bytes f' = (if concat bufs = [] then f_bytes f
                         else write_bytes (unat off) (concat bufs) (f_bytes f))"
  using assms
proof (induction ds arbitrary: off f bufs)
  case Nil
  then show ?case by simp
next
  case (Cons d ds)
  obtain buf bufs' where b: "bufs = buf # bufs'" using Cons.prems(3) by (cases bufs) auto
  have len: "length buf = unat (d_len d)" using Cons.prems(4) b by simp
  have off: "unat (off + ucast (d_len d)) = unat off + length buf"
    using Cons.prems(2) len by (simp add: unat_off_add)
  obtain f1 where f1: "write_all_at f off buf = Inr f1" "f_writable f1"
    "f_bytes f1 = (if buf = [] then f_bytes f else write_bytes (unat off) buf (f_bytes f))"
  proof (cases "buf = []")
    case True
    then show thesis using that [of f] Cons.prems(1) by (simp add: write_all_at_def)
  next
    case False
    have "\<not> 2 ^ 63 \<le> unat off + length buf" using Cons.prems(2) len by simp
    with False show thesis
      using that [of "f\<lparr> f_bytes := write_bytes (unat off) buf (f_bytes f) \<rparr>"] Cons.prems(1)
      by (simp add: write_all_at_def)
  qed
  obtain f' where f': "write_request E m (off + ucast (d_len d)) ds f1 = (Inr (), f')" "f_writable f'"
    "f_bytes f' = (if concat bufs' = [] then f_bytes f1
                   else write_bytes (unat off + length buf) (concat bufs') (f_bytes f1))"
    using Cons.IH [OF f1(2), of "off + ucast (d_len d)" bufs'] Cons.prems b len off
    by fastforce
  have "write_request E m off (d # ds) f = (Inr (), f')"
    using Cons.prems(3) b f1(1) f'(1) by simp
  moreover have "f_bytes f' = (if concat bufs = [] then f_bytes f
                               else write_bytes (unat off) (concat bufs) (f_bytes f))"
  proof -
    define cs where "cs = concat bufs'"
    have "concat bufs = buf @ cs" by (simp add: b cs_def)
    moreover have "f_bytes f' = (if cs = [] then f_bytes f1
                                 else write_bytes (unat off + length buf) cs (f_bytes f1))"
      using f'(3) unfolding cs_def .
    ultimately show ?thesis
      using f1(3) write_bytes_append [of "unat off" buf cs "f_bytes f"] by simp
  qed
  ultimately show ?case using f'(2) by blast
qed


section \<open>Lemmas on the queue\<close>

interpretation blk: virtio_device "block_vtable E" for E :: "('q, 'm, 'e) venv"
proof (unfold_locales, goal_cases)
  case 1
  then show ?case
    by (simp add: block_vtable_def block_features_def VIRTIO_F_VERSION_1_def bit_simps
        Let_def)
next
  case 2
  then show ?case by (simp add: block_vtable_def block_read_config_def config_bytes_def)
next
  case 3
  then show ?case by (simp add: block_vtable_def)
next
  case 4
  then show ?case by (simp add: block_vtable_def block_activate_def)
next
  case 5
  then show ?case by (simp add: block_vtable_def)
next
  case 6
  then show ?case
    by (simp add: block_vtable_def block_activate_def Let_def split: option.splits sum.splits)
next
  case 7
  then show ?case
    by (simp add: block_vtable_def block_activate_def block_features_def Let_def
        split: option.splits sum.splits)
qed

lemma block_round_read_only:
  assumes "bw_read_only s" and "block_round clk E c s = Some (r, s')"
  shows "bw_file s' = bw_file s \<and> bw_read_only s'"
proof -
  obtain s1 where t: "block_throttle clk (c_descs c) s = Some s1"
    using assms(2) by (auto simp: block_round_def split: option.splits)
  note t1 = block_throttle_simps [OF t]
  obtain r2 s2 where sr: "service_request E (c_descs c) s1 = (r2, s2)" by fastforce
  have "bw_file s2 = bw_file s \<and> bw_read_only s2"
    using service_request_read_only [OF _ sr] t1 assms(1) by simp
  then show ?thesis
    using assms(2) t sr by (auto simp: block_round_def split: sum.splits)
qed

text \<open>A chain the device can complete: header and status descriptors on backed memory.\<close>

definition good_chain :: "(u64 \<Rightarrow> nat \<Rightarrow> bool) \<Rightarrow> chain \<Rightarrow> bool" where
  "good_chain valid c \<longleftrightarrow>
     2 \<le> length (c_descs c) \<and> VIRTIO_BLK_HDR_LEN \<le> unat (d_len (c_descs c ! 0)) \<and>
     valid (d_addr (c_descs c ! 0)) VIRTIO_BLK_HDR_LEN \<and> valid (d_addr (last (c_descs c))) 1"

lemma service_request_completes:
  assumes "mem_laws E valid" and "good_chain valid c"
  shows "\<exists>n s'. service_request E (c_descs c) s = (Inr n, s')"
proof -
  obtain hdr where h: "m_read E (bw_mem s) (d_addr (c_descs c ! 0)) VIRTIO_BLK_HDR_LEN = Inr hdr"
    using mem_lawsD(1) [OF assms(1)] assms(2) unfolding good_chain_def by blast
  have w: "\<exists>m'. m_write E m (d_addr (last (c_descs c))) [v] = Inr m'" for m v
    using mem_lawsD(2) [OF assms(1), of _ "[v]"] assms(2) by (simp add: good_chain_def)
  obtain st wr s1 where p:
    "perform E (le_word (slice 0 4 hdr)) (le_word (slice 8 8 hdr)) (butlast (tl (c_descs c))) s = ((st, wr), s1)"
    by (metis prod.collapse)
  obtain m' where "m_write E (bw_mem s1) (d_addr (last (c_descs c))) [st] = Inr m'" using w by blast
  with h p assms(2) show ?thesis
    by (simp add: service_request_def good_chain_def not_less)
qed

lemma block_throttle_returns:
  assumes "clock_laws clk" and "opt_limiter_wf (bw_limiter s)"
  shows "\<exists>s'. block_throttle clk ds s = Some s' \<and> opt_limiter_wf (bw_limiter s')"
proof (cases "bw_limiter s")
  case None
  then show ?thesis by (simp add: block_throttle_def opt_limiter_wf_def)
next
  case (Some l)
  let ?n = "sum_list (map (\<lambda>d. ucast (d_len d)) (butlast (tl ds))) :: u64"
  have "limiter_wf l" using assms(2) Some by (simp add: opt_limiter_wf_def)
  then obtain l' k where "wait_admit clk 202 1 ?n 200000000 (bw_clk s) l = Some (l', k)" "limiter_wf l'"
    using wait_admit_terminates [of l clk 200000000 202 1 ?n "bw_clk s"] assms(1)
    by (auto simp: clock_laws_def)
  with Some show ?thesis by (simp add: block_throttle_def opt_limiter_wf_def)
qed

definition block_pending :: "('q \<Rightarrow> 'm \<Rightarrow> chain list) \<Rightarrow> ('q, 'm, 'e) blk \<Rightarrow> chain list" where
  "block_pending pend s = pend (bw_queue s) (bw_mem s)"

definition block_used :: "('q \<Rightarrow> 'm \<Rightarrow> (u16 \<times> u32) list) \<Rightarrow> ('q, 'm, 'e) blk \<Rightarrow> (u16 \<times> u32) list" where
  "block_used used s = used (bw_queue s) (bw_mem s)"

lemma block_pop_none:
  "ring_laws E pend used \<Longrightarrow> block_pop E s = None \<longleftrightarrow> block_pending pend s = []"
  using ring_lawsD(1) by (simp add: block_pop_def block_pending_def)

lemma block_pop_some:
  assumes "ring_laws E pend used" and "block_pop E s = Some (c, s1)"
  shows "block_pending pend s = c # block_pending pend s1 \<and> block_used used s1 = block_used used s \<and>
         bw_limiter s1 = bw_limiter s \<and> bw_intr s1 = bw_intr s"
  using assms(2) ring_lawsD(2,3) [OF assms(1)]
  by (auto simp: block_pop_def block_pending_def block_used_def)

text \<open>One round, whatever its outcome, returns the popped chain on success and nothing else.\<close>

lemma block_round_ring:
  assumes "ring_laws E pend used" and "block_round clk E c s = Some (r, s')"
  shows "block_pending pend s' = block_pending pend s \<and> bw_intr s' = bw_intr s \<and>
         (r = Inr () \<longrightarrow> (\<exists>n. block_used used s' = block_used used s @ [(c_head c, n)])) \<and>
         (r \<noteq> Inr () \<longrightarrow> block_used used s' = block_used used s)"
proof -
  obtain s1 where t: "block_throttle clk (c_descs c) s = Some s1"
    using assms(2) by (auto simp: block_round_def split: option.splits)
  note t1 = block_throttle_simps [OF t]
  obtain r2 s2 where sr: "service_request E (c_descs c) s1 = (r2, s2)" by fastforce
  note ring = service_request_ring [OF assms(1) sr]
  have au: "pend q' m' = pend q m \<and> used q' m' = used q m @ [(h, n)]"
    if "q_add_used E q m h n = Inr (q', m')" for q m h n q' m'
    using ring_lawsD(4,5) [OF assms(1) that] by simp
  show ?thesis
    using assms(2) t sr t1 ring [of "bw_queue s"]
    by (cases r2)
       (auto simp: block_round_def block_pending_def block_used_def split: sum.splits dest!: au)
qed

lemma block_round_returns:
  assumes "ring_laws E pend used" and "clock_laws clk" and "opt_limiter_wf (bw_limiter s)"
  shows "\<exists>r s'. block_round clk E c s = Some (r, s') \<and> opt_limiter_wf (bw_limiter s')"
proof -
  obtain s1 where t: "block_throttle clk (c_descs c) s = Some s1" "opt_limiter_wf (bw_limiter s1)"
    using block_throttle_returns [OF assms(2,3)] by blast
  obtain r2 s2 where sr: "service_request E (c_descs c) s1 = (r2, s2)" by fastforce
  have "bw_limiter s2 = bw_limiter s1" using service_request_ring [OF assms(1) sr] by simp
  then show ?thesis
    using t sr by (cases r2) (auto simp: block_round_def split: sum.splits)
qed

lemma block_round_unlimited:
  assumes "ring_laws E pend used" and "bw_limiter s = None"
  shows "\<exists>r s'. block_round clk E c s = Some (r, s') \<and> bw_limiter s' = None"
proof -
  obtain r2 s2 where sr: "service_request E (c_descs c) s = (r2, s2)" by fastforce
  have "bw_limiter s2 = None" using service_request_ring [OF assms(1) sr] assms(2) by simp
  with assms(2) sr show ?thesis
    by (cases r2) (auto simp: block_round_def block_throttle_def split: sum.splits)
qed

lemma block_round_good:
  assumes "mem_laws E valid" and "good_chain valid c" and "block_round clk E c s = Some (r, s')"
  shows "r = Inr ()"
proof -
  obtain s1 where t: "block_throttle clk (c_descs c) s = Some s1"
    using assms(3) by (auto simp: block_round_def split: option.splits)
  obtain n s2 where "service_request E (c_descs c) s1 = (Inr n, s2)"
    using service_request_completes [OF assms(1,2)] by blast
  moreover obtain q m where "q_add_used E (bw_queue s2) (bw_mem s2) (c_head c) n = Inr (q, m)"
    using mem_lawsD(3) [OF assms(1)] by blast
  ultimately show ?thesis using assms(3) t by (simp add: block_round_def)
qed


section \<open>Properties\<close>

text \<open>C23: A read-only disk is never written: whatever chains a guest queues, however
  malformed, draining the queue leaves the backing file of a read-only device unchanged.\<close>

theorem block_read_only_safe:
  assumes "bw_read_only s" and "block_process_queue clk E fuel s = Some (r, s')"
  shows "bw_file s' = bw_file s"
proof -
  obtain r1 b1 s1 where d: "drain (block_pop E) (block_round clk E) fuel False s = Some (r1, b1, s1)"
    and f: "finish (block_signal E) (r1, b1, s1) = (r, s')"
    using assms(2) by (auto simp: block_process_queue_def)
  have "bw_read_only s1 \<and> bw_file s1 = bw_file s"
    using assms(1)
    by (intro drain_invariant [OF d, of "\<lambda>t. bw_read_only t \<and> bw_file t = bw_file s"])
       (auto simp: block_pop_def dest: block_round_read_only)
  with f show ?thesis
    by (cases r1) (auto simp: block_signal_def split: if_splits prod.splits)
qed

definition blk_example :: "bool \<Rightarrow> chain list \<Rightarrow> bytes \<Rightarrow> bytes \<Rightarrow> (ringq, page, nat) blk" where
  "blk_example ro cs mem disk =
     \<lparr> bw_queue = \<lparr> rq_state = fresh_state 256, rq_avail = cs, rq_used = [] \<rparr>, bw_mem = page_of mem,
       bw_intr = interrupt_new 0, bw_file = \<lparr> f_bytes = disk, f_writable = \<not> ro \<rparr>,
       bw_read_only = ro, bw_limiter = None, bw_clk = 0, bw_slot = None \<rparr>"

text \<open>A write of four bytes at sector 0: header at 0, data at 16, status at 20.\<close>

definition write_chain :: chain where
  "write_chain = \<lparr> c_head = 7, c_descs =
     [\<lparr> d_addr = 0, d_len = 16, d_write_only = False \<rparr>,
      \<lparr> d_addr = 16, d_len = 4, d_write_only = False \<rparr>,
      \<lparr> d_addr = 20, d_len = 1, d_write_only = True \<rparr>] \<rparr>"

definition write_mem :: bytes where
  "write_mem = [1, 0, 0, 0] @ replicate 12 0 @ [9, 8, 7, 6] @ [0xff]"

theorem block_read_only_safe_witness:
  "\<exists>r s'. block_process_queue id ring_env 3 (blk_example True [write_chain] write_mem (replicate 8 5)) = Some (r, s') \<and>
     f_bytes (bw_file s') = replicate 8 5"
proof -
  obtain r s' where p: "block_process_queue id ring_env 3
      (blk_example True [write_chain] write_mem (replicate 8 5)) = Some (r, s')"
  proof -
    have "\<not> Option.is_none (block_process_queue id ring_env 3
            (blk_example True [write_chain] write_mem (replicate 8 5)))"
      by code_simp
    then show thesis using that by (auto simp: Option.is_none_def)
  qed
  have "bw_file s' = bw_file (blk_example True [write_chain] write_mem (replicate 8 5))"
    by (rule block_read_only_safe [OF _ p]) (simp add: blk_example_def)
  with p show ?thesis by (auto simp: blk_example_def)
qed


lemma write_chain_good: "good_chain in_page write_chain"
  by (simp add: good_chain_def write_chain_def VIRTIO_BLK_HDR_LEN_def in_page_def)


text \<open>C10: What is written is what is read back: on a writable disk, a write request at a
  sector succeeds, and a later read request at the same sector, scattered over any
  descriptors of the same total length, delivers exactly the bytes written, concatenated.\<close>

theorem block_write_then_read:
  assumes "f_writable (bw_file s)" and "\<not> bw_read_only s"
    and "unat sector * 512 + descs_len out < 2 ^ 63" and "0 < descs_len out"
    and "map (\<lambda>d. m_read E (bw_mem s) (d_addr d) (unat (d_len d))) out = map Inr bufs"
    and "map length bufs = map (unat \<circ> d_len) out"
    and "descs_len inp = descs_len out" and "\<forall>d \<in> set inp. d_write_only d"
  shows "\<exists>s1 chunks. perform E VIRTIO_BLK_T_OUT sector out s = ((VIRTIO_BLK_S_OK, 0), s1) \<and>
     bw_mem s1 = bw_mem s \<and> map fst chunks = map d_addr inp \<and> concat (map snd chunks) = concat bufs \<and>
     (\<forall>m'. write_chunks E chunks (bw_mem s1) = Inr m' \<longrightarrow>
        perform E VIRTIO_BLK_T_IN sector inp s1 =
          ((VIRTIO_BLK_S_OK, of_nat (descs_len inp)), s1\<lparr> bw_mem := m' \<rparr>))"
proof -
  have off: "unat (sector * SECTOR_SIZE) = unat sector * 512"
    using assms(3) by (simp add: SECTOR_SIZE_def unat_word_ariths)
  have len: "length (concat bufs) = descs_len out"
    using assms(6) by (simp add: length_concat descs_len_def)
  then have ne: "concat bufs \<noteq> []" using assms(4) by force
  obtain f' where f': "write_request E (bw_mem s) (sector * SECTOR_SIZE) out (bw_file s) = (Inr (), f')"
    "f_bytes f' = write_bytes (unat sector * 512) (concat bufs) (f_bytes (bw_file s))"
    using write_request_ok [OF assms(1) _ assms(5,6), of "sector * SECTOR_SIZE"] assms(3) ne
    by (auto simp: off simp del: concat_eq_Nil_conv)
  let ?s1 = "s\<lparr> bw_file := f' \<rparr>"
  let ?chunks = "disk_chunks (f_bytes f') (unat sector * 512) inp"
  have "perform E VIRTIO_BLK_T_OUT sector out s = ((VIRTIO_BLK_S_OK, 0), ?s1)"
    using assms(2) f'(1) by (simp add: perform_def)
  moreover have "map fst (disk_chunks d o' ds) = map d_addr ds" for d o' ds
    by (induction ds arbitrary: o') auto
  moreover have "concat (map snd ?chunks) = concat bufs"
    using f'(2) assms(7) len slice_write_bytes [of "unat sector * 512" "concat bufs"]
    by (simp add: concat_disk_chunks)
  moreover have "perform E VIRTIO_BLK_T_IN sector inp ?s1 =
      ((VIRTIO_BLK_S_OK, of_nat (descs_len inp)), ?s1\<lparr> bw_mem := m' \<rparr>)"
    if "write_chunks E ?chunks (bw_mem ?s1) = Inr m'" for m'
  proof -
    have "read_request E f' (sector * SECTOR_SIZE) 0 inp (bw_mem s) = (Inr (0 + of_nat (descs_len inp)), m')"
      using that assms(3,7,8) f'(2) len by (intro read_request_ok) (auto simp: off)
    then show ?thesis by (simp add: perform_def)
  qed
  ultimately show ?thesis by (intro exI [of _ ?s1] exI [of _ ?chunks]) simp
qed

theorem block_write_then_read_witness:
  "\<exists>s1 (chunks :: (u64 \<times> bytes) list). perform ring_env VIRTIO_BLK_T_OUT 0 [\<lparr> d_addr = 16, d_len = 4, d_write_only = False \<rparr>]
       (blk_example False [] write_mem (replicate 512 0)) = ((VIRTIO_BLK_S_OK, 0), s1) \<and>
     map fst chunks = [64, 128] \<and> concat (map snd chunks) = [9, 8, 7, 6]"
proof -
  let ?s = "blk_example False [] write_mem (replicate 512 0)"
  let ?out = "[\<lparr> d_addr = 16, d_len = 4, d_write_only = False \<rparr>]"
  let ?inp = "[\<lparr> d_addr = 64, d_len = 1, d_write_only = True \<rparr>, \<lparr> d_addr = 128, d_len = 3, d_write_only = True \<rparr>]"
  have "page_read (page_of write_mem) 16 4 = [9, 8, 7, 6]" by code_simp
  then have r: "map (\<lambda>d. m_read ring_env (bw_mem ?s) (d_addr d) (unat (d_len d))) ?out = map Inr [[9, 8, 7, 6]]"
    by (simp add: ring_env_def in_page_def blk_example_def)
  show ?thesis
    using block_write_then_read [of ?s 0 ?out ring_env "[[9, 8, 7, 6]]" ?inp] r
    by (fastforce simp: blk_example_def)
qed




end
