(* ===== verification/Backlog.thy ===== *)
theory Backlog
  imports MM_Prelude "HOL-Library.Sublist"
begin

text \<open>
  The bounded receive backlog that the network and the vsock device keep while the guest has
  no receive buffer posted: a FIFO that drops its oldest element when it is full.  The
  contract is the locale \<open>backlog\<close>; \<open>Virtio_Net\<close> and \<open>Virtio_Vsock\<close> interpret it on their
  own backlogs.
\<close>

locale backlog =
  fixes cap :: nat and items :: "'b \<Rightarrow> 'x list" and enq :: "'x \<Rightarrow> 'b \<Rightarrow> 'b"
  assumes cap_pos: "0 < cap"
    and items_enq: "items (enq x b) = (if cap \<le> length (items b) then tl (items b) else items b) @ [x]"
begin

lemma enq_bounded: "length (items b) \<le> cap \<Longrightarrow> length (items (enq x b)) \<le> cap"
  using cap_pos by (auto simp: items_enq)

lemma enq_subseq: "subseq (items (enq x b)) (items b @ [x])"
  by (simp add: items_enq subseq_append') (meson list_emb_append2 list_emb_append_mono
      subseq_order.order_refl suffix_imp_subseq suffix_tl)

text \<open>After any arrivals the backlog holds exactly the newest elements, in order.\<close>

lemma fold_enq:
  assumes "length (items b) \<le> cap"
  shows "items (fold enq xs b) = drop (length (items b) + length xs - cap) (items b @ xs)"
  using assms
proof (induction xs arbitrary: b)
  case Nil
  then show ?case by simp
next
  case (Cons x xs)
  let ?k = "length (items b)"
  have IH: "items (fold enq xs (enq x b)) =
      drop (length (items (enq x b)) + length xs - cap) (items (enq x b) @ xs)"
    using Cons.IH [OF enq_bounded [OF Cons.prems]] .
  show ?case
  proof (cases "cap \<le> ?k")
    case True
    then have k: "?k = cap" "items b \<noteq> []" using Cons.prems cap_pos by auto
    then have "items (enq x b) = drop 1 (items b) @ [x]" by (simp add: items_enq drop_Suc)
    moreover have "drop (length xs) (drop 1 (items b) @ x # xs) = drop (Suc (length xs)) (items b @ x # xs)"
      using k(2) by (cases "items b") simp_all
    ultimately show ?thesis using IH k cap_pos by simp
  next
    case False
    then show ?thesis using IH by (simp add: items_enq)
  qed
qed

lemma fold_enq_no_loss:
  "length (items b) + length xs \<le> cap \<Longrightarrow> items (fold enq xs b) = items b @ xs"
  using fold_enq [of b xs] by simp

end

end
