(* ===== verification/Virtio_Net.thy ===== *)
theory Virtio_Net
  imports Virtio_Mmio Rate_Limit Backlog
begin

text \<open>
  The network device of \<open>crates/mm-vmm/src/devices/net.rs\<close>.  The TAP is the list of the
  answers its reads will give and the list of the frames written to it; the field
  \<open>nw_delivered\<close> is a ghost that records the frames handed to the guest, and no
  definition reads it.
\<close>

section \<open>The device\<close>

definition VIRTIO_NET_HDR_LEN :: nat where "VIRTIO_NET_HDR_LEN = 12"
definition VIRTIO_NET_F_MAC :: u64 where "VIRTIO_NET_F_MAC = 0x20"
definition MAX_FRAME_LEN :: nat where "MAX_FRAME_LEN = 65562"
definition RX_BACKLOG_MAX :: nat where "RX_BACKLOG_MAX = 64"
definition RX_QUEUE_INDEX :: nat where "RX_QUEUE_INDEX = 0"
definition TX_QUEUE_INDEX :: nat where "TX_QUEUE_INDEX = 1"

record tap =
  tap_in :: "(string + bytes) list"
  tap_out :: "bytes list"

record 'q Net =
  nt_tap :: "tap option"
  nt_mac :: bytes
  nt_queue_max_sizes :: "u16 list"
  nt_rate_limit :: "RateLimit option"
  nt_pause :: bool
  nt_worker :: "('q \<times> 'q \<times> tap \<times> RateLimit option \<times> bool) option"

definition net_new :: "tap \<Rightarrow> bytes \<Rightarrow> RateLimit option \<Rightarrow> 'q Net" where
  "net_new t m rl =
     \<lparr> nt_tap = Some t, nt_mac = m, nt_queue_max_sizes = [QUEUE_SIZE, QUEUE_SIZE],
       nt_rate_limit = rl, nt_pause = False, nt_worker = None \<rparr>"

definition net_features :: "'q Net \<Rightarrow> u64" where
  "net_features n = VIRTIO_F_VERSION_1 OR VIRTIO_NET_F_MAC"

definition net_read_config :: "'q Net \<Rightarrow> u64 \<Rightarrow> bytes \<Rightarrow> bytes" where
  "net_read_config n off data = config_bytes (nt_mac n) off (length data)"

definition net_set_pause_handle :: "'q Net \<Rightarrow> 'q Net" where
  "net_set_pause_handle n = n\<lparr> nt_pause := True \<rparr>"

text \<open>\<open>nonblock\<close> and \<open>epoll\<close> are the outcomes of making the TAP non-blocking and of creating
  the event manager.\<close>

definition net_activate ::
  "('q, 'm, 'e) venv \<Rightarrow> string + unit \<Rightarrow> string + unit \<Rightarrow> 'q list \<Rightarrow> 'e list \<Rightarrow> ('q Net, unit) io" where
  "net_activate E nonblock epoll queues evts n =
     (if length queues < 2 \<or> length evts < 2
      then (Inl (Device ''net: expected rx and tx queues''), n)
      else case nt_tap n of
             None \<Rightarrow> (Inl (Device ''net: already activated''), n)
           | Some t \<Rightarrow>
               (let tx = queues ! TX_QUEUE_INDEX; rx = queues ! RX_QUEUE_INDEX;
                    n1 = n\<lparr> nt_tap := None \<rparr>;
                    n2 = n1\<lparr> nt_rate_limit := None, nt_pause := False \<rparr> in
                case nonblock of
                  Inl e \<Rightarrow> (Inl (Io e), n1)
                | Inr _ \<Rightarrow>
                    (case epoll of
                       Inl e \<Rightarrow> (Inl (Device e), n2)
                     | Inr _ \<Rightarrow>
                         (case thread_spawn E ''mm-net'' of
                            Inl e \<Rightarrow> (Inl (Io e), n2)
                          | Inr _ \<Rightarrow>
                              (Inr (), n2\<lparr> nt_worker := Some (rx, tx, t, nt_rate_limit n, nt_pause n) \<rparr>)))))"

definition net_vtable ::
  "('q, 'm, 'e) venv \<Rightarrow> string + unit \<Rightarrow> string + unit \<Rightarrow> ('q Net, 'q, 'e) vtable" where
  "net_vtable E nonblock epoll =
     \<lparr> v_device_type = (\<lambda>_. TYPE_NET), v_queue_max_sizes = nt_queue_max_sizes,
       v_features = net_features, v_read_config = net_read_config,
       v_write_config = (\<lambda>_ _ n. n), v_activate = net_activate E nonblock epoll \<rparr>"


section \<open>Transmission\<close>

record ('q, 'm, 'e) netw =
  nw_rx_queue :: 'q
  nw_tx_queue :: 'q
  nw_tap :: tap
  nw_mem :: 'm
  nw_intr :: "'e Interrupt"
  nw_rx_backlog :: "bytes list"
  nw_limiter :: "DeviceRateLimiter option"
  nw_clk :: nat
  nw_slot :: "QueueCursor list option"
  nw_pause_done :: bool
  nw_delivered :: "bytes list"

fun gather :: "('q, 'm, 'e) venv \<Rightarrow> 'm \<Rightarrow> desc list \<Rightarrow> VmmError + bytes" where
  "gather E m [] = Inr []"
| "gather E m (d # ds) =
     (case m_read E m (d_addr d) (unat (d_len d)) of
        Inl e \<Rightarrow> Inl (Device e)
      | Inr buf \<Rightarrow> res_bind (gather E m ds) (\<lambda>rest. Inr (buf @ rest)))"

text \<open>Send one assembled frame: throttle, then write what follows the header to the TAP.\<close>

definition net_send ::
  "(nat \<Rightarrow> nat) \<Rightarrow> bytes \<Rightarrow> ('q, 'm, 'e) netw \<Rightarrow> ('q, 'm, 'e) netw option" where
  "net_send clk frame s =
     (if length frame \<le> VIRTIO_NET_HDR_LEN then Some s
      else
        (case (case nw_limiter s of
                 None \<Rightarrow> Some s
               | Some l \<Rightarrow> map_option (\<lambda>(l', k). s\<lparr> nw_limiter := Some l', nw_clk := k \<rparr>)
                   (wait_admit clk 202 1 (of_nat (length frame - VIRTIO_NET_HDR_LEN)) 200000000 (nw_clk s) l)) of
           None \<Rightarrow> None
         | Some s \<Rightarrow> Some (s\<lparr> nw_tap := (nw_tap s)\<lparr> tap_out :=
                        tap_out (nw_tap s) @ [drop VIRTIO_NET_HDR_LEN frame] \<rparr> \<rparr>)))"

definition tx_pop ::
  "('q, 'm, 'e) venv \<Rightarrow> ('q, 'm, 'e) netw \<Rightarrow> (chain \<times> ('q, 'm, 'e) netw) option" where
  "tx_pop E s = map_option (\<lambda>(c, q). (c, s\<lparr> nw_tx_queue := q \<rparr>)) (q_pop E (nw_tx_queue s) (nw_mem s))"

definition tx_round ::
  "(nat \<Rightarrow> nat) \<Rightarrow> ('q, 'm, 'e) venv \<Rightarrow> chain \<Rightarrow> ('q, 'm, 'e) netw
   \<Rightarrow> ((VmmError + unit) \<times> ('q, 'm, 'e) netw) option" where
  "tx_round clk E c s =
     (case gather E (nw_mem s) (c_descs c) of
        Inl e \<Rightarrow> Some (Inl e, s)
      | Inr frame \<Rightarrow>
          (case net_send clk frame s of
             None \<Rightarrow> None
           | Some s \<Rightarrow> Some
               (case q_add_used E (nw_tx_queue s) (nw_mem s) (c_head c) 0 of
                  Inl e \<Rightarrow> (Inl (Device e), s)
                | Inr (q, m) \<Rightarrow> (Inr (), s\<lparr> nw_tx_queue := q, nw_mem := m \<rparr>))))"

definition net_signal :: "('q, 'm, 'e) venv \<Rightarrow> (('q, 'm, 'e) netw, unit) io" where
  "net_signal E s = (case signal_used_queue E (nw_intr s) of (r, i) \<Rightarrow> (r, s\<lparr> nw_intr := i \<rparr>))"

definition process_tx ::
  "(nat \<Rightarrow> nat) \<Rightarrow> ('q, 'm, 'e) venv \<Rightarrow> nat \<Rightarrow> ('q, 'm, 'e) netw
   \<Rightarrow> ((VmmError + unit) \<times> ('q, 'm, 'e) netw) option" where
  "process_tx clk E fuel s =
     map_option (finish (net_signal E)) (drain (tx_pop E) (tx_round clk E) fuel False s)"


section \<open>Reception\<close>

text \<open>Copy a frame into the descriptors of a chain: the bytes copied and the memory.\<close>

fun scatter :: "('q, 'm, 'e) venv \<Rightarrow> bytes \<Rightarrow> nat \<Rightarrow> desc list \<Rightarrow> ('m, nat) io" where
  "scatter E frame copied [] m = (Inr copied, m)"
| "scatter E frame copied (d # ds) m =
     (if length frame \<le> copied then (Inr copied, m)
      else
        let want = min (unat (d_len d)) (length frame - copied) in
        case m_write E m (d_addr d) (slice copied want frame) of
          Inl e \<Rightarrow> (Inl (Device e), m)
        | Inr m' \<Rightarrow> scatter E frame (copied + want) ds m')"

definition deliver_to_guest :: "('q, 'm, 'e) venv \<Rightarrow> bytes \<Rightarrow> (('q, 'm, 'e) netw, bool) io" where
  "deliver_to_guest E frame s =
     (case q_pop E (nw_rx_queue s) (nw_mem s) of
        None \<Rightarrow> (Inr False, s)
      | Some (c, q) \<Rightarrow>
          (let s = s\<lparr> nw_rx_queue := q \<rparr> in
           case scatter E frame 0 (c_descs c) (nw_mem s) of
             (Inl e, m) \<Rightarrow> (Inl e, s\<lparr> nw_mem := m \<rparr>)
           | (Inr copied, m) \<Rightarrow>
               (case q_add_used E (nw_rx_queue s) m (c_head c) (of_nat copied) of
                  Inl e \<Rightarrow> (Inl (Device e), s\<lparr> nw_mem := m \<rparr>)
                | Inr (q, m) \<Rightarrow>
                    (Inr True, s\<lparr> nw_rx_queue := q, nw_mem := m,
                                 nw_delivered := nw_delivered s @ [frame] \<rparr>))))"

text \<open>The loop of \<open>drain_backlog\<close>, recursive in the number of buffered frames.\<close>

fun drain_backlog_loop ::
  "('q, 'm, 'e) venv \<Rightarrow> nat \<Rightarrow> nat \<Rightarrow> (('q, 'm, 'e) netw, nat) io" where
  "drain_backlog_loop E 0 delivered s = (Inr delivered, s)"
| "drain_backlog_loop E (Suc n) delivered s =
     (case nw_rx_backlog s of
        [] \<Rightarrow> (Inr delivered, s)
      | frame # rest \<Rightarrow>
          (case deliver_to_guest E frame (s\<lparr> nw_rx_backlog := rest \<rparr>) of
             (Inl e, s) \<Rightarrow> (Inl e, s)
           | (Inr True, s) \<Rightarrow> drain_backlog_loop E n (delivered + 1) s
           | (Inr False, s) \<Rightarrow> (Inr delivered, s\<lparr> nw_rx_backlog := frame # nw_rx_backlog s \<rparr>)))"

definition drain_backlog :: "('q, 'm, 'e) venv \<Rightarrow> (('q, 'm, 'e) netw, nat) io" where
  "drain_backlog E s = drain_backlog_loop E (length (nw_rx_backlog s)) 0 s"

definition enqueue_backlog :: "bytes \<Rightarrow> ('q, 'm, 'e) netw \<Rightarrow> ('q, 'm, 'e) netw" where
  "enqueue_backlog frame s =
     (let b = (if RX_BACKLOG_MAX \<le> length (nw_rx_backlog s) then tl (nw_rx_backlog s) else nw_rx_backlog s) in
      s\<lparr> nw_rx_backlog := b @ [frame] \<rparr>)"

text \<open>A received frame with its virtio-net header: zero but for \<open>num_buffers = 1\<close>.\<close>

definition with_header :: "bytes \<Rightarrow> bytes" where
  "with_header payload = replicate 10 0 @ [1, 0] @ take (MAX_FRAME_LEN - VIRTIO_NET_HDR_LEN) payload"

text \<open>The receive loop, recursive in the reads the TAP will answer; it ends where a read would
  block, fails or returns nothing.\<close>

fun rx_loop ::
  "('q, 'm, 'e) venv \<Rightarrow> (string + bytes) list \<Rightarrow> bool \<Rightarrow> (('q, 'm, 'e) netw, bool) io" where
  "rx_loop E [] signalled s = (Inr signalled, s\<lparr> nw_tap := (nw_tap s)\<lparr> tap_in := [] \<rparr> \<rparr>)"
| "rx_loop E (Inl e # rs) signalled s = (Inr signalled, s\<lparr> nw_tap := (nw_tap s)\<lparr> tap_in := rs \<rparr> \<rparr>)"
| "rx_loop E (Inr payload # rs) signalled s =
     (if payload = [] then (Inr signalled, s\<lparr> nw_tap := (nw_tap s)\<lparr> tap_in := rs \<rparr> \<rparr>)
      else
        let frame = with_header payload in
        if nw_rx_backlog s = [] then
          (case deliver_to_guest E frame s of
             (Inl e, s) \<Rightarrow> (Inl e, s\<lparr> nw_tap := (nw_tap s)\<lparr> tap_in := rs \<rparr> \<rparr>)
           | (Inr True, s) \<Rightarrow> rx_loop E rs True s
           | (Inr False, s) \<Rightarrow> rx_loop E rs signalled (enqueue_backlog frame s))
        else rx_loop E rs signalled (enqueue_backlog frame s))"

definition process_rx :: "('q, 'm, 'e) venv \<Rightarrow> (('q, 'm, 'e) netw, unit) io" where
  "process_rx E =
     io_bind (drain_backlog E) (\<lambda>delivered s.
       io_bind (rx_loop E (tap_in (nw_tap s)) (0 < delivered)) (\<lambda>signalled.
         if signalled then net_signal E else io_return ()) s)"

text \<open>One event of the epoll loop; a pause drains, captures the cursors and parks or stops.\<close>

datatype net_event = TapReadable | TxNotify | RxNotify | PauseEvent

definition net_process ::
  "(nat \<Rightarrow> nat) \<Rightarrow> ('q, 'm, 'e) venv \<Rightarrow> nat \<Rightarrow> net_event \<Rightarrow> bool \<Rightarrow> ('q, 'm, 'e) netw
   \<Rightarrow> (control \<times> ('q, 'm, 'e) netw) option" where
  "net_process clk E fuel ev checkpoint_requested s =
     (case ev of
        TapReadable \<Rightarrow> Some (Continue, snd (process_rx E s))
      | TxNotify \<Rightarrow> map_option (\<lambda>(r, s). (Continue, s)) (process_tx clk E fuel s)
      | RxNotify \<Rightarrow> Some (Continue, snd (process_rx E s))
      | PauseEvent \<Rightarrow> map_option (\<lambda>(r, s).
          let s = snd (process_rx E s);
              s = s\<lparr> nw_slot := Some [cursor_of_state (q_state E (nw_rx_queue s)),
                                      cursor_of_state (q_state E (nw_tx_queue s))] \<rparr> in
          if checkpoint_requested then (Park, s) else (Exit, s\<lparr> nw_pause_done := True \<rparr>))
          (process_tx clk E fuel s))"


section \<open>Lemmas\<close>

interpretation net: virtio_device "net_vtable E nonblock epoll" for E :: "('q, 'm, 'e) venv" and nonblock epoll
proof (unfold_locales, goal_cases)
  case 1
  then show ?case
    by (simp add: net_vtable_def net_features_def VIRTIO_F_VERSION_1_def VIRTIO_NET_F_MAC_def bit_simps)
next
  case 2
  then show ?case by (simp add: net_vtable_def net_read_config_def config_bytes_def)
next
  case 3
  then show ?case by (simp add: net_vtable_def)
next
  case 4
  then show ?case by (simp add: net_vtable_def net_activate_def)
next
  case 5
  then show ?case by (simp add: net_vtable_def)
next
  case 6
  then show ?case
    by (simp add: net_vtable_def net_activate_def Let_def split: option.splits sum.splits)
next
  case 7
  then show ?case by (simp add: net_vtable_def net_features_def)
qed

interpretation rxq: backlog RX_BACKLOG_MAX nw_rx_backlog enqueue_backlog
  by unfold_locales (simp_all add: RX_BACKLOG_MAX_def enqueue_backlog_def Let_def)

lemma enqueue_backlog_simps [simp]:
  "nw_delivered (enqueue_backlog f s) = nw_delivered s"
  "nw_rx_queue (enqueue_backlog f s) = nw_rx_queue s"
  "nw_mem (enqueue_backlog f s) = nw_mem s"
  by (simp_all add: enqueue_backlog_def Let_def)

lemma deliver_to_guest_backlog:
  assumes "deliver_to_guest E f s = (r, s')"
  shows "nw_rx_backlog s' = nw_rx_backlog s \<and> nw_tap s' = nw_tap s \<and>
         nw_delivered s' = (if r = Inr True then nw_delivered s @ [f] else nw_delivered s)"
  using assms by (auto simp: deliver_to_guest_def Let_def split: option.splits prod.splits sum.splits)

text \<open>Draining the backlog hands over a prefix of it, in order; on an error the frame whose
  delivery failed is lost.\<close>

lemma drain_backlog_loop_order:
  assumes "drain_backlog_loop E n k s = (r, s')" and "length (nw_rx_backlog s) \<le> n"
  shows "nw_tap s' = nw_tap s \<and> length (nw_rx_backlog s') \<le> length (nw_rx_backlog s) \<and>
         prefix (nw_delivered s) (nw_delivered s') \<and>
         subseq (nw_delivered s' @ nw_rx_backlog s') (nw_delivered s @ nw_rx_backlog s) \<and>
         (is_ok r \<longrightarrow> nw_delivered s' @ nw_rx_backlog s' = nw_delivered s @ nw_rx_backlog s)"
  using assms
proof (induction n arbitrary: k s)
  case 0
  then show ?case by simp
next
  case (Suc n)
  show ?case
  proof (cases "nw_rx_backlog s")
    case Nil
    then show ?thesis using Suc.prems by simp
  next
    case (Cons f rest)
    obtain r1 s1 where d: "deliver_to_guest E f (s\<lparr> nw_rx_backlog := rest \<rparr>) = (r1, s1)" by fastforce
    note d1 = deliver_to_guest_backlog [OF d]
    consider e where "r1 = Inl e" | "r1 = Inr True" | "r1 = Inr False"
      by (cases r1) auto
    then show ?thesis
    proof cases
      case 1
      then show ?thesis using Suc.prems Cons d d1 by (auto intro: list_emb_append_mono)
    next
      case 2
      then have "drain_backlog_loop E n (k + 1) s1 = (r, s')" using Suc.prems Cons d by simp
      from Suc.IH [OF this] Suc.prems Cons d1 2 show ?thesis
        by (auto simp: prefix_def)
    next
      case 3
      then show ?thesis using Suc.prems Cons d d1 by auto
    qed
  qed
qed

text \<open>The frames a receive loop takes from the TAP.\<close>

fun rx_frames :: "(string + bytes) list \<Rightarrow> bytes list" where
  "rx_frames [] = []"
| "rx_frames (Inl e # rs) = []"
| "rx_frames (Inr p # rs) = (if p = [] then [] else with_header p # rx_frames rs)"

text \<open>How reception relates two states when the frames \<open>fs\<close> arrive in between: the guest gets
  frames in arrival order, a frame disappears only by overflow or on an error, and the
  backlog stays within its bound.\<close>

definition rx_rel ::
  "('q, 'm, 'e) netw \<Rightarrow> bytes list \<Rightarrow> VmmError + 'a \<Rightarrow> ('q, 'm, 'e) netw \<Rightarrow> bool" where
  "rx_rel s fs r s' \<longleftrightarrow>
     length (nw_rx_backlog s') \<le> RX_BACKLOG_MAX \<and> prefix (nw_delivered s) (nw_delivered s') \<and>
     subseq (nw_delivered s' @ nw_rx_backlog s') (nw_delivered s @ nw_rx_backlog s @ fs) \<and>
     (is_ok r \<and> length (nw_rx_backlog s) + length fs \<le> RX_BACKLOG_MAX \<longrightarrow>
        nw_delivered s' @ nw_rx_backlog s' = nw_delivered s @ nw_rx_backlog s @ fs)"

lemma rx_rel_stop:
  assumes "nw_rx_backlog s' = nw_rx_backlog s" "nw_delivered s' = nw_delivered s"
    and "length (nw_rx_backlog s) \<le> RX_BACKLOG_MAX" and "is_ok r \<longrightarrow> fs = []"
  shows "rx_rel s fs r s'"
proof -
  have "subseq (nw_delivered s @ nw_rx_backlog s) ((nw_delivered s @ nw_rx_backlog s) @ fs)"
    by (rule prefix_imp_subseq) simp
  with assms show ?thesis by (auto simp: rx_rel_def)
qed

lemma rx_rel_enqueue:
  assumes "rx_rel (enqueue_backlog f s) fs r s'"
  shows "rx_rel s (f # fs) r s'"
proof -
  have "subseq (nw_rx_backlog (enqueue_backlog f s)) (nw_rx_backlog s @ [f])"
    by (rule rxq.enq_subseq)
  then have "subseq (nw_delivered s @ nw_rx_backlog (enqueue_backlog f s) @ fs)
               (nw_delivered s @ (nw_rx_backlog s @ [f]) @ fs)"
    by (intro list_emb_append_mono subseq_order.order_refl)
  with assms have "subseq (nw_delivered s' @ nw_rx_backlog s') (nw_delivered s @ nw_rx_backlog s @ f # fs)"
    by (auto simp: rx_rel_def intro: subseq_order.order_trans)
  moreover have "nw_rx_backlog (enqueue_backlog f s) = nw_rx_backlog s @ [f]"
    if "length (nw_rx_backlog s) + length (f # fs) \<le> RX_BACKLOG_MAX"
    using that by (simp add: rxq.items_enq)
  ultimately show ?thesis using assms by (simp add: rx_rel_def)
qed

lemma rx_rel_deliver:
  assumes "nw_rx_backlog s = []" and "nw_rx_backlog s1 = []" and "nw_delivered s1 = nw_delivered s @ [f]"
    and "rx_rel s1 fs r s'"
  shows "rx_rel s (f # fs) r s'"
  using assms by (auto simp: rx_rel_def prefix_def)

lemma rx_loop_rel:
  assumes "rx_loop E rs sg s = (r, s')" and "length (nw_rx_backlog s) \<le> RX_BACKLOG_MAX"
  shows "rx_rel s (rx_frames rs) r s'"
  using assms
proof (induction rs arbitrary: sg s)
  case Nil
  then show ?case by (auto intro: rx_rel_stop)
next
  case (Cons a rs)
  show ?case
  proof (cases "\<exists>p. a = Inr p \<and> p \<noteq> []")
    case False
    then show ?thesis using Cons.prems by (cases a) (auto intro: rx_rel_stop)
  next
    case True
    then obtain p where p: "a = Inr p" "p \<noteq> []" by blast
    let ?f = "with_header p"
    have queue: ?thesis if "rx_loop E rs sg (enqueue_backlog ?f s) = (r, s')"
      using rx_rel_enqueue [OF Cons.IH [OF that]] rxq.enq_bounded [OF Cons.prems(2)] p by simp
    obtain r1 s1 where d: "deliver_to_guest E ?f s = (r1, s1)" by fastforce
    note d1 = deliver_to_guest_backlog [OF d]
    have "s1 = s" if "r1 = Inr False"
      using d that by (auto simp: deliver_to_guest_def Let_def split: option.splits prod.splits sum.splits)
    then consider "nw_rx_backlog s \<noteq> [] \<or> r1 = Inr False \<and> s1 = s" | e where "nw_rx_backlog s = []" "r1 = Inl e"
      | "nw_rx_backlog s = []" "r1 = Inr True"
      by (cases r1) auto
    then show ?thesis
    proof cases
      case 1
      then have "rx_loop E rs sg (enqueue_backlog ?f s) = (r, s')" using Cons.prems p d
        by (auto simp: Let_def split: if_splits)
      then show ?thesis by (rule queue)
    next
      case 2
      then show ?thesis using Cons.prems p d d1 by (auto simp: Let_def intro: rx_rel_stop)
    next
      case 3
      then have "rx_loop E rs True s1 = (r, s')" using Cons.prems p d by (simp add: Let_def)
      from rx_rel_deliver [OF _ _ _ Cons.IH [OF this]] 3 d1 Cons.prems p show ?thesis by simp
    qed
  qed
qed


lemma process_rx_rel:
  assumes "process_rx E s = (r, s')" and "length (nw_rx_backlog s) \<le> RX_BACKLOG_MAX"
  shows "rx_rel s (rx_frames (tap_in (nw_tap s))) r s'"
proof -
  let ?fs = "rx_frames (tap_in (nw_tap s))"
  obtain r1 s1 where d: "drain_backlog E s = (r1, s1)" by fastforce
  then have dl: "drain_backlog_loop E (length (nw_rx_backlog s)) 0 s = (r1, s1)"
    by (simp add: drain_backlog_def)
  note d1 = drain_backlog_loop_order [OF dl order_refl]
  show ?thesis
  proof (cases r1)
    case (Inl e)
    then have "r = Inl e" "s' = s1" using assms(1) d by (simp_all add: process_rx_def io_bind_def)
    moreover have "subseq (nw_delivered s1 @ nw_rx_backlog s1) (nw_delivered s @ nw_rx_backlog s @ ?fs)"
    proof (rule subseq_order.order_trans)
      show "subseq (nw_delivered s1 @ nw_rx_backlog s1) (nw_delivered s @ nw_rx_backlog s)" using d1 by simp
      show "subseq (nw_delivered s @ nw_rx_backlog s) (nw_delivered s @ nw_rx_backlog s @ ?fs)"
        by (rule prefix_imp_subseq) simp
    qed
    ultimately show ?thesis using d1 assms(2) by (simp add: rx_rel_def)
  next
    case (Inr k)
    obtain r2 s2 where l: "rx_loop E (tap_in (nw_tap s1)) (0 < k) s1 = (r2, s2)" by fastforce
    have rel: "rx_rel s1 ?fs r2 s2"
      using rx_loop_rel [OF l] d1 assms(2) by simp
    have s': "nw_rx_backlog s' = nw_rx_backlog s2" "nw_delivered s' = nw_delivered s2" "is_ok r \<longrightarrow> is_ok r2"
      using assms(1) d Inr l
      by (auto simp: process_rx_def io_bind_def io_return_def net_signal_def
          split: sum.splits prod.splits if_splits)
    have eq: "nw_delivered s1 @ nw_rx_backlog s1 @ ?fs = nw_delivered s @ nw_rx_backlog s @ ?fs"
      using d1 Inr by (metis append_assoc is_ok_iff)
    have "length (nw_rx_backlog s1) \<le> length (nw_rx_backlog s)" "prefix (nw_delivered s) (nw_delivered s1)"
      using d1 by simp_all
    with rel eq s' show ?thesis
      by (auto simp: rx_rel_def intro: prefix_order.order_trans)
  qed
qed

lemma gather_ok:
  "mem_laws E valid \<Longrightarrow> \<forall>d \<in> set ds. valid (d_addr d) (unat (d_len d)) \<Longrightarrow> \<exists>f. gather E m ds = Inr f"
proof (induction ds)
  case Nil
  then show ?case by simp
next
  case (Cons d ds)
  obtain b where "m_read E m (d_addr d) (unat (d_len d)) = Inr b"
    using mem_lawsD(1) [OF Cons.prems(1)] Cons.prems(2) by fastforce
  with Cons show ?case by auto
qed

text \<open>What the TAP gets of assembled frames: the payloads, too short frames skipped.\<close>

definition tx_frames :: "bytes list \<Rightarrow> bytes list" where
  "tx_frames fs = map (drop VIRTIO_NET_HDR_LEN) (filter (\<lambda>f. VIRTIO_NET_HDR_LEN < length f) fs)"

lemma net_send_returns:
  assumes "clock_laws clk" and "opt_limiter_wf (nw_limiter s)"
  shows "\<exists>s'. net_send clk f s = Some s' \<and> opt_limiter_wf (nw_limiter s') \<and>
     nw_tx_queue s' = nw_tx_queue s \<and> nw_mem s' = nw_mem s \<and> nw_intr s' = nw_intr s \<and>
     tap_out (nw_tap s') = tap_out (nw_tap s) @
tx_frames [f]"
proof (cases "length f \<le> VIRTIO_NET_HDR_LEN")
  case True
  then show ?thesis using assms(2) by (simp add: tx_frames_def net_send_def)
next
  case False
  show ?thesis
  proof (cases "nw_limiter s")
    case None
    then show ?thesis using False by (simp add: tx_frames_def net_send_def opt_limiter_wf_def)
  next
    case (Some l)
    then obtain l' k where "wait_admit clk 202 1 (of_nat (length f - VIRTIO_NET_HDR_LEN)) 200000000 (nw_clk s) l
        = Some (l', k)" "limiter_wf l'"
      using wait_admit_terminates [of l clk 200000000 202 1
          "of_nat (length f - VIRTIO_NET_HDR_LEN)" "nw_clk s"] assms
      by (auto simp: clock_laws_def opt_limiter_wf_def)
    with False Some show ?thesis by (simp add: tx_frames_def net_send_def opt_limiter_wf_def)
  qed
qed


section \<open>Properties\<close>


definition netw_example :: "chain list \<Rightarrow> chain list \<Rightarrow> (string + bytes) list \<Rightarrow> bytes \<Rightarrow> (ringq, page, nat) netw" where
  "netw_example rx tx reads mem =
     \<lparr> nw_rx_queue = \<lparr> rq_state = fresh_state 256, rq_avail = rx, rq_used = [] \<rparr>,
       nw_tx_queue = \<lparr> rq_state = fresh_state 256, rq_avail = tx, rq_used = [] \<rparr>,
       nw_tap = \<lparr> tap_in = reads, tap_out = [] \<rparr>, nw_mem = page_of mem, nw_intr = interrupt_new 0,
       nw_rx_backlog = [], nw_limiter = None, nw_clk = 0, nw_slot = None, nw_pause_done = False,
       nw_delivered = [] \<rparr>"

definition rx_chain :: chain where
  "rx_chain = \<lparr> c_head = 3, c_descs = [\<lparr> d_addr = 100, d_len = 64, d_write_only = True \<rparr>] \<rparr>"



definition tx_chain :: "u64 \<Rightarrow> u16 \<Rightarrow> chain" where
  "tx_chain a h = \<lparr> c_head = h, c_descs = [\<lparr> d_addr = a, d_len = 14, d_write_only = False \<rparr>] \<rparr>"

definition tx_mem :: bytes where "tx_mem = map of_nat [0..<40]"

lemma gather_tx_chain:
  "gather ring_env (page_of tx_mem) (c_descs (tx_chain 0 5)) = Inr (map of_nat [0..<14])"
  "gather ring_env (page_of tx_mem) (c_descs (tx_chain 20 6)) = Inr (map of_nat [20..<34])"
  by (simp_all add: tx_chain_def ring_env_def in_page_def page_read_def page_of_def tx_mem_def upt_rec)


end
