(* ===== verification/Virtio_Balloon.thy ===== *)
theory Virtio_Balloon
  imports Virtio_Mmio
begin

text \<open>
  The memory balloon of \<open>crates/mm-vmm/src/devices/balloon.rs\<close>: its configuration space, its
  activation and the drain of the inflate and deflate queues.  The regions of guest memory,
  \<open>madvise\<close> and the dirty bitmap are library code: the fields of a record \<open>madv\<close>.
\<close>

section \<open>The device\<close>

abbreviation PAGES_PER_MIB :: u32 where "PAGES_PER_MIB \<equiv> 256"
definition BALLOON_PFN_SHIFT :: nat where "BALLOON_PFN_SHIFT = 12"
definition PAGE_SIZE :: nat where "PAGE_SIZE = 4096"
definition INFLATE_QUEUE :: nat where "INFLATE_QUEUE = 0"
definition DEFLATE_QUEUE :: nat where "DEFLATE_QUEUE = 1"

text \<open>\<open>bl_workers\<close> holds the queues moved into the workers that were started, with the
  direction each of them serves.\<close>

record 'q Balloon =
  bl_target_pages :: u32
  bl_actual :: u32
  bl_queue_max_sizes :: "u16 list"
  bl_workers :: "('q \<times> bool) list"

definition balloon_new :: "u64 \<Rightarrow> 'q Balloon" where
  "balloon_new mib_target =
     (let mib = (if unat mib_target < 2 ^ 32 then ucast mib_target else (- 1 :: u32) div PAGES_PER_MIB) in
      \<lparr> bl_target_pages = saturating_mul mib PAGES_PER_MIB, bl_actual = 0,
        bl_queue_max_sizes = [QUEUE_SIZE, QUEUE_SIZE], bl_workers = [] \<rparr>)"

definition balloon_features :: "'q Balloon \<Rightarrow> u64" where
  "balloon_features b = VIRTIO_F_VERSION_1"

definition balloon_read_config :: "'q Balloon \<Rightarrow> u64 \<Rightarrow> bytes \<Rightarrow> bytes" where
  "balloon_read_config b off data =
     config_bytes (le_bytes 4 (bl_target_pages b) @ le_bytes 4 (bl_actual b)) off (length data)"

definition spawn_balloon_worker ::
  "('q, 'm, 'e) venv \<Rightarrow> string \<Rightarrow> 'q \<Rightarrow> bool \<Rightarrow> ('q Balloon, unit) io" where
  "spawn_balloon_worker E name queue reclaim b =
     (case thread_spawn E name of
        Inl e \<Rightarrow> (Inl (Io e), b)
      | Inr _ \<Rightarrow> (Inr (), b\<lparr> bl_workers := bl_workers b @ [(queue, reclaim)] \<rparr>))"

definition balloon_activate :: "('q, 'm, 'e) venv \<Rightarrow> 'q list \<Rightarrow> 'e list \<Rightarrow> ('q Balloon, unit) io" where
  "balloon_activate E queues evts b =
     (if length queues < 2 \<or> length evts < 2
      then (Inl (Device ''balloon: expected inflate and deflate queues''), b)
      else io_bind (spawn_balloon_worker E ''mm-balloon-inflate'' (queues ! INFLATE_QUEUE) True)
             (\<lambda>_. spawn_balloon_worker E ''mm-balloon-deflate'' (queues ! DEFLATE_QUEUE) False) b)"

definition balloon_vtable :: "('q, 'm, 'e) venv \<Rightarrow> ('q Balloon, 'q, 'e) vtable" where
  "balloon_vtable E =
     \<lparr> v_device_type = (\<lambda>_. TYPE_BALLOON), v_queue_max_sizes = bl_queue_max_sizes,
       v_features = balloon_features, v_read_config = balloon_read_config,
       v_write_config = (\<lambda>_ _ b. b), v_activate = balloon_activate E \<rparr>"


section \<open>The workers\<close>

text \<open>Guest memory as the balloon uses it: the region and offset of an address, the length of
  a region, page advice (\<open>True\<close> for \<open>MADV_DONTNEED\<close>) and the marking of a page as dirty.\<close>

record 'm madv =
  to_region_addr :: "u64 \<Rightarrow> (nat \<times> u64) option"
  region_len :: "nat \<Rightarrow> u64"
  madvise :: "nat \<Rightarrow> u64 \<Rightarrow> bool \<Rightarrow> 'm \<Rightarrow> 'm"
  set_addr_range :: "nat \<Rightarrow> u64 \<Rightarrow> 'm \<Rightarrow> 'm"

definition advise_page :: "'m madv \<Rightarrow> u64 \<Rightarrow> bool \<Rightarrow> 'm \<Rightarrow> 'm" where
  "advise_page A guest_addr reclaim m =
     (case to_region_addr A guest_addr of
        None \<Rightarrow> m
      | Some (region, offset) \<Rightarrow>
          if unat (region_len A region) < unat offset + PAGE_SIZE then m
          else let m = madvise A region offset reclaim m in
               if reclaim then set_addr_range A region offset m else m)"

text \<open>The page frame numbers of a buffer: its complete groups of four bytes.\<close>

fun pfns :: "bytes \<Rightarrow> u32 list" where
  "pfns (a # b # c # d # rest) = le_word [a, b, c, d] # pfns rest"
| "pfns _ = []"

definition advise_all :: "'m madv \<Rightarrow> bool \<Rightarrow> bytes \<Rightarrow> u32 \<times> 'm \<Rightarrow> u32 \<times> 'm" where
  "advise_all A reclaim raw =
     fold (\<lambda>pfn (pages, m). (pages + 1, advise_page A (push_bit BALLOON_PFN_SHIFT (ucast pfn)) reclaim m))
       (pfns raw)"

fun advise_descs ::
  "('q, 'm, 'e) venv \<Rightarrow> 'm madv \<Rightarrow> bool \<Rightarrow> desc list \<Rightarrow> u32 \<times> 'm \<Rightarrow> (VmmError + u32) \<times> 'm" where
  "advise_descs E A reclaim [] (pages, m) = (Inr pages, m)"
| "advise_descs E A reclaim (d # ds) (pages, m) =
     (case m_read E m (d_addr d) (unat (d_len d)) of
        Inl e \<Rightarrow> (Inl (Device e), m)
      | Inr raw \<Rightarrow> advise_descs E A reclaim ds (advise_all A reclaim raw (pages, m)))"

record ('q, 'm, 'e) balw =
  lw_queue :: 'q
  lw_mem :: 'm
  lw_intr :: "'e Interrupt"
  lw_actual :: u32

definition balloon_pop ::
  "('q, 'm, 'e) venv \<Rightarrow> ('q, 'm, 'e) balw \<Rightarrow> (chain \<times> ('q, 'm, 'e) balw) option" where
  "balloon_pop E s = map_option (\<lambda>(c, q). (c, s\<lparr> lw_queue := q \<rparr>)) (q_pop E (lw_queue s) (lw_mem s))"

definition balloon_round ::
  "('q, 'm, 'e) venv \<Rightarrow> 'm madv \<Rightarrow> bool \<Rightarrow> chain \<Rightarrow> ('q, 'm, 'e) balw
   \<Rightarrow> ((VmmError + unit) \<times> ('q, 'm, 'e) balw) option" where
  "balloon_round E A reclaim c s = Some
     (case advise_descs E A reclaim (c_descs c) (0, lw_mem s) of
        (Inl e, m) \<Rightarrow> (Inl e, s\<lparr> lw_mem := m \<rparr>)
      | (Inr pages, m) \<Rightarrow>
          (let s = s\<lparr> lw_mem := m,
                     lw_actual := (if reclaim then lw_actual s + pages
                                   else saturating_sub (lw_actual s) pages) \<rparr> in
           case q_add_used E (lw_queue s) (lw_mem s) (c_head c) 0 of
             Inl e \<Rightarrow> (Inl (Device e), s)
           | Inr (q, m) \<Rightarrow> (Inr (), s\<lparr> lw_queue := q, lw_mem := m \<rparr>)))"

definition balloon_signal :: "('q, 'm, 'e) venv \<Rightarrow> (('q, 'm, 'e) balw, unit) io" where
  "balloon_signal E s = (case signal_used_queue E (lw_intr s) of (r, i) \<Rightarrow> (r, s\<lparr> lw_intr := i \<rparr>))"

definition balloon_process_queue ::
  "('q, 'm, 'e) venv \<Rightarrow> 'm madv \<Rightarrow> bool \<Rightarrow> nat \<Rightarrow> ('q, 'm, 'e) balw
   \<Rightarrow> ((VmmError + unit) \<times> ('q, 'm, 'e) balw) option" where
  "balloon_process_queue E A reclaim fuel s =
     map_option (finish (balloon_signal E)) (drain (balloon_pop E) (balloon_round E A reclaim) fuel False s)"

text \<open>One round of a worker: \<open>evt_ok\<close> tells whether the notification could be read; an error
  of the queue is logged and the worker goes on.\<close>

definition balloon_worker_round ::
  "('q, 'm, 'e) venv \<Rightarrow> 'm madv \<Rightarrow> bool \<Rightarrow> nat \<Rightarrow> bool \<Rightarrow> ('q, 'm, 'e) balw
   \<Rightarrow> (control \<times> ('q, 'm, 'e) balw) option" where
  "balloon_worker_round E A reclaim fuel evt_ok s =
     (if \<not> evt_ok then Some (Exit, s)
      else map_option (\<lambda>(r, s). (Continue, s)) (balloon_process_queue E A reclaim fuel s))"


section \<open>Lemmas\<close>

interpretation bln: virtio_device "balloon_vtable E" for E :: "('q, 'm, 'e) venv"
proof (unfold_locales, goal_cases)
  case 1
  then show ?case
    by (simp add: balloon_vtable_def balloon_features_def VIRTIO_F_VERSION_1_def bit_simps)
next
  case 2
  then show ?case by (simp add: balloon_vtable_def balloon_read_config_def config_bytes_def)
next
  case 4
  then show ?case by (simp add: balloon_vtable_def balloon_activate_def)
next
  case (6 qs evts d)
  then show ?case
    by (simp add: balloon_vtable_def balloon_activate_def spawn_balloon_worker_def io_bind_def
        split: sum.splits)
qed (simp_all add: balloon_vtable_def balloon_features_def)

lemma length_pfns [simp]: "length (pfns bs) = length bs div 4"
  by (induction bs rule: pfns.induct) auto

text \<open>Advice on a page: the operating system may change that page only, and the bitmap marks
  exactly the page it is told to.\<close>

definition madv_laws ::
  "'m madv \<Rightarrow> (nat \<Rightarrow> u64 \<Rightarrow> 'p set) \<Rightarrow> ('m \<Rightarrow> 'p \<Rightarrow> 'v) \<Rightarrow> ('m \<Rightarrow> 'p \<Rightarrow> bool) \<Rightarrow> bool" where
  "madv_laws A pg view dirty \<longleftrightarrow>
     (\<forall>r off b m p. dirty (madvise A r off b m) p = dirty m p) \<and>
     (\<forall>r off m p. view (madvise A r off True m) p \<noteq> view m p \<longrightarrow> p \<in> pg r off) \<and>
     (\<forall>r off m p. view (madvise A r off False m) p = view m p) \<and>
     (\<forall>r off m p. view (set_addr_range A r off m) p = view m p) \<and>
     (\<forall>r off m p. dirty (set_addr_range A r off m) p \<longleftrightarrow> dirty m p \<or> p \<in> pg r off)"

lemma advise_page_tracks:
  assumes "madv_laws A pg view dirty"
  shows "tracks view dirty m (advise_page A a reclaim m)"
  using assms unfolding madv_laws_def
  by (cases reclaim) (auto simp: advise_page_def tracks_def Let_def split: option.splits)

lemma advise_all_tracks:
  assumes A: "madv_laws A pg view dirty"
  shows "tracks view dirty (snd pm) (snd (advise_all A reclaim raw pm))"
proof -
  have "tracks view dirty (snd pm)
      (snd (fold (\<lambda>pfn (pages, m). (pages + 1, advise_page A (push_bit BALLOON_PFN_SHIFT (ucast pfn)) reclaim m)) ps pm))"
    for ps :: "u32 list"
  proof (induction ps arbitrary: pm)
    case Nil
    then show ?case by simp
  next
    case (Cons p ps)
    obtain n m where pm: "pm = (n, m)" by fastforce
    show ?case unfolding pm
      using tracks_trans [OF advise_page_tracks [OF A, of m] Cons.IH [of "(x, y)" for x y, simplified]] by simp
  qed
  then show ?thesis by (simp add: advise_all_def)
qed

lemma advise_descs_tracks:
  assumes A: "madv_laws A pg view dirty"
  shows "tracks view dirty (snd pm) (snd (advise_descs E A reclaim ds pm))"
proof (induction ds arbitrary: pm)
  case Nil
  then show ?case by (cases pm) simp
next
  case (Cons d ds)
  obtain n m where pm: "pm = (n, m)" by fastforce
  show ?case
    using tracks_trans [OF advise_all_tracks [OF A, of pm] Cons.IH]
    by (simp add: pm split: sum.splits)
qed

lemma advise_descs_keeps:
  assumes "\<forall>q m a. pend q (advise_page A a reclaim m) = pend q m \<and> used q (advise_page A a reclaim m) = used q m"
  shows "pend q (snd (advise_descs E A reclaim ds pm)) = pend q (snd pm) \<and>
         used q (snd (advise_descs E A reclaim ds pm)) = used q (snd pm)"
proof -
  let ?f = "\<lambda>pfn :: u32. \<lambda>(pages, m). (pages + 1, advise_page A (push_bit BALLOON_PFN_SHIFT (ucast pfn)) reclaim m)"
  have "pend q (snd (fold ?f ps pm)) = pend q (snd pm) \<and> used q (snd (fold ?f ps pm)) = used q (snd pm)" for ps pm
    using assms by (induction ps arbitrary: pm) (auto split: prod.splits)
  then have all: "pend q (snd (advise_all A reclaim raw pm)) = pend q (snd pm) \<and>
      used q (snd (advise_all A reclaim raw pm)) = used q (snd pm)" for raw pm
    by (simp add: advise_all_def)
  show ?thesis
  proof (induction ds arbitrary: pm)
    case Nil
    then show ?case by (cases pm) simp
  next
    case (Cons d ds)
    then show ?case using all [of _ pm] by (cases pm) (simp split: sum.splits)
  qed
qed

lemma advise_all_pages: "fst (advise_all A reclaim raw (n, m)) = n + of_nat (length raw div 4)"
proof -
  have "fst (fold (\<lambda>pfn (pages, m). (pages + 1, advise_page A (push_bit BALLOON_PFN_SHIFT (ucast pfn)) reclaim m)) ps (n, m))
      = n + of_nat (length ps)" for ps :: "u32 list"
    by (induction ps arbitrary: n m) (auto simp: algebra_simps)
  then show ?thesis by (simp add: advise_all_def)
qed

definition chain_pages :: "chain \<Rightarrow> nat" where
  "chain_pages c = sum_list (map (\<lambda>d. unat (d_len d) div 4) (c_descs c))"

lemma advise_descs_pages:
  assumes "mem_laws E valid" and "\<forall>d \<in> set ds. valid (d_addr d) (unat (d_len d))"
  shows "\<exists>m'. advise_descs E A reclaim ds (n, m) =
      (Inr (n + of_nat (sum_list (map (\<lambda>d. unat (d_len d) div 4) ds))), m')"
  using assms(2)
proof (induction ds arbitrary: n m)
  case Nil
  then show ?case by simp
next
  case (Cons d ds)
  obtain raw where r: "m_read E m (d_addr d) (unat (d_len d)) = Inr raw"
    using mem_lawsD(1) [OF assms(1)] Cons.prems by fastforce
  obtain n1 m1 where a: "advise_all A reclaim raw (n, m) = (n1, m1)" by fastforce
  with advise_all_pages [of A reclaim raw n m] mem_lawsD(5) [OF assms(1) r]
  have "n1 = n + of_nat (unat (d_len d) div 4)" by simp
  with Cons.IH [of n1 m1] Cons.prems r a show ?case by (simp add: algebra_simps)
qed


section \<open>Properties\<close>

text \<open>C22: Reclaimed pages do not escape dirty tracking: \<open>madvise\<close> bypasses the dirty
  bitmap, and yet, whatever page numbers the guest puts on a balloon queue and whether or
  not the drain succeeds, every page of guest memory whose content changed is marked dirty
  when the drain ends, and no mark is lost, so that a branch copies it again.\<close>

theorem balloon_changes_are_dirty:
  assumes E: "dirty_laws E view dirty" and A: "madv_laws A pg view dirty"
    and run: "balloon_process_queue E A reclaim fuel s = Some (r, s')"
  shows "\<forall>p. (view (lw_mem s') p \<noteq> view (lw_mem s) p \<longrightarrow> dirty (lw_mem s') p) \<and>
             (dirty (lw_mem s) p \<longrightarrow> dirty (lw_mem s') p)"
proof -
  define I where "I t \<longleftrightarrow> tracks view dirty (lw_mem s) (lw_mem t)" for t :: "('a, 'b, 'c) balw"
  obtain r1 b s1 where d: "drain (balloon_pop E) (balloon_round E A reclaim) fuel False s = Some (r1, b, s1)"
    and f: "(r, s') = finish (balloon_signal E) (r1, b, s1)"
    using run by (auto simp: balloon_process_queue_def)
  have round: "I t2" if "I t" and b: "balloon_round E A reclaim c t = Some (r2, t2)" for c t r2 t2
  proof -
    obtain x m where a: "advise_descs E A reclaim (c_descs c) (0, lw_mem t) = (x, m)" by fastforce
    have "tracks view dirty (lw_mem t) m" using advise_descs_tracks [OF A, of "(0, lw_mem t)"] a by (metis snd_conv)
    moreover have "tracks view dirty m (lw_mem t2)"
      using b a dirty_lawsD(2) [OF E]
      by (auto simp: balloon_round_def Let_def split: sum.splits prod.splits)
    ultimately show ?thesis using that(1) unfolding I_def by (blast intro: tracks_trans)
  qed
  have "I s1"
    by (rule drain_invariant [OF d]) (auto simp: I_def balloon_pop_def intro: round [unfolded I_def])
  moreover have "lw_mem s' = lw_mem s1"
    using f by (cases r1) (auto simp: balloon_signal_def split: if_splits prod.splits)
  ultimately show ?thesis by (simp add: I_def tracks_def)
qed



text \<open>One region of two pages, with the dirty marks kept beside the contents.\<close>

definition madv_example :: "tracked_page madv" where
  "madv_example =
     \<lparr> to_region_addr = (\<lambda>a. if a < 8192 then Some (0, a) else None), region_len = (\<lambda>_. 8192),
       madvise = (\<lambda>r off b m. if b then (\<lambda>x. if off \<le> x \<and> x - off < 4096 then 0 else fst m x, snd m) else m),
       set_addr_range = (\<lambda>r off m. (fst m, \<lambda>x. snd m x \<or> (off \<le> x \<and> x - off < 4096))) \<rparr>"

definition balw_example :: "(ringq, tracked_page, nat) balw" where
  "balw_example =
     \<lparr> lw_queue = \<lparr> rq_state = fresh_state 256, rq_avail = [\<lparr> c_head = 9,
           c_descs = [\<lparr> d_addr = 16, d_len = 8, d_write_only = False \<rparr>] \<rparr>], rq_used = [] \<rparr>,
       lw_mem = (page_of (replicate 16 7 @ [1, 0, 0, 0, 5, 0, 0, 0]), \<lambda>_. False),
       lw_intr = interrupt_new 0, lw_actual = 0 \<rparr>"

lemma madv_example_laws: "madv_laws madv_example (\<lambda>r off. {x. off \<le> x \<and> x - off < 4096}) fst snd"
  by (auto simp: madv_laws_def madv_example_def)

theorem balloon_changes_are_dirty_witness:
  "\<exists>r s'. balloon_process_queue tracked_env madv_example True (Suc (Suc 0)) balw_example = Some (r, s') \<and>
     (\<forall>p. (fst (lw_mem s') p \<noteq> fst (lw_mem balw_example) p \<longrightarrow> snd (lw_mem s') p) \<and>
          (snd (lw_mem balw_example) p \<longrightarrow> snd (lw_mem s') p))"
proof -
  have "\<not> Option.is_none (balloon_process_queue tracked_env madv_example True (Suc (Suc 0)) balw_example)" 
    by (simp add: balloon_process_queue_def balw_example_def balloon_pop_def balloon_round_def tracked_env_def
        ring_env_def in_page_def split: sum.splits prod.splits)
  then obtain r s' where r: "balloon_process_queue tracked_env madv_example True (Suc (Suc 0)) balw_example = Some (r, s')"
    by (auto simp: Option.is_none_def)
  with balloon_changes_are_dirty [OF tracked_env_laws(3) madv_example_laws r] show ?thesis by auto
qed


end
