(* ===== verification/Vsock_Proto.thy ===== *)
theory Vsock_Proto
  imports MM_Prelude
begin

text \<open>
  The virtio-vsock protocol primitives of \<open>crates/mm-vmm/src/vsock_proto.rs\<close>: the
  44-byte packet header with its parser and serialiser, and the per-connection credit
  tracker.  The lemmas show that the two header functions are inverse to each other, and
  that the 32-bit credit arithmetic, which wraps, implements the unbounded counters of the
  virtio specification, so that a sender that respects \<open>available\<close> never overruns the
  receive buffer of its peer.
\<close>

section \<open>Packet headers\<close>

definition VSOCK_HDR_LEN :: nat where "VSOCK_HDR_LEN = 44"
abbreviation TYPE_STREAM :: u16 where "TYPE_STREAM \<equiv> 1"
abbreviation HOST_CID :: u64 where "HOST_CID \<equiv> 2"
abbreviation OP_REQUEST :: u16 where "OP_REQUEST \<equiv> 1"
abbreviation OP_RESPONSE :: u16 where "OP_RESPONSE \<equiv> 2"
abbreviation OP_RST :: u16 where "OP_RST \<equiv> 3"
abbreviation OP_SHUTDOWN :: u16 where "OP_SHUTDOWN \<equiv> 4"
abbreviation OP_RW :: u16 where "OP_RW \<equiv> 5"
abbreviation OP_CREDIT_UPDATE :: u16 where "OP_CREDIT_UPDATE \<equiv> 6"
abbreviation OP_CREDIT_REQUEST :: u16 where "OP_CREDIT_REQUEST \<equiv> 7"

record VsockHeader =
  src_cid :: u64
  dst_cid :: u64
  src_port :: u32
  dst_port :: u32
  hdr_len :: u32
  hdr_type :: u16
  hdr_op :: u16
  hdr_flags :: u32
  hdr_buf_alloc :: u32
  hdr_fwd_cnt :: u32

definition hdr_parse :: "bytes \<Rightarrow> VsockHeader option" where
  "hdr_parse b =
     (if length b < VSOCK_HDR_LEN then None
      else Some \<lparr> src_cid = le_word (slice 0 8 b), dst_cid = le_word (slice 8 8 b),
                  src_port = le_word (slice 16 4 b), dst_port = le_word (slice 20 4 b),
                  hdr_len = le_word (slice 24 4 b), hdr_type = le_word (slice 28 2 b),
                  hdr_op = le_word (slice 30 2 b), hdr_flags = le_word (slice 32 4 b),
                  hdr_buf_alloc = le_word (slice 36 4 b), hdr_fwd_cnt = le_word (slice 40 4 b) \<rparr>)"

definition hdr_to_bytes :: "VsockHeader \<Rightarrow> bytes" where
  "hdr_to_bytes h =
     patch 40 (le_bytes 4 (hdr_fwd_cnt h)) (patch 36 (le_bytes 4 (hdr_buf_alloc h))
    (patch 32 (le_bytes 4 (hdr_flags h)) (patch 30 (le_bytes 2 (hdr_op h))
    (patch 28 (le_bytes 2 (hdr_type h)) (patch 24 (le_bytes 4 (hdr_len h))
    (patch 20 (le_bytes 4 (dst_port h)) (patch 16 (le_bytes 4 (src_port h))
    (patch 8 (le_bytes 8 (dst_cid h)) (patch 0 (le_bytes 8 (src_cid h))
       (replicate VSOCK_HDR_LEN 0))))))))))"


section \<open>Credit\<close>

record CreditTracker =
  peer_buf_alloc :: u32
  peer_fwd_cnt :: u32
  tx_cnt :: u32

definition credit_new :: CreditTracker where
  "credit_new = \<lparr> peer_buf_alloc = 0, peer_fwd_cnt = 0, tx_cnt = 0 \<rparr>"

definition update_peer :: "u32 \<Rightarrow> u32 \<Rightarrow> CreditTracker \<Rightarrow> CreditTracker" where
  "update_peer buf_alloc fwd_cnt c = c\<lparr> peer_buf_alloc := buf_alloc, peer_fwd_cnt := fwd_cnt \<rparr>"

definition record_sent :: "u32 \<Rightarrow> CreditTracker \<Rightarrow> CreditTracker" where
  "record_sent n c = c\<lparr> tx_cnt := tx_cnt c + n \<rparr>"

definition credit_available :: "CreditTracker \<Rightarrow> u32" where
  "credit_available c =
     (let in_flight = tx_cnt c - peer_fwd_cnt c in saturating_sub (peer_buf_alloc c) in_flight)"

text \<open>
  The two ends of one direction of a connection: the tracker of the sender, and the
  unbounded counters of the virtio specification, \<open>sent\<close> bytes in all, of which the peer
  has \<open>consumed\<close> some and \<open>reported\<close> some of those.  A sender sends only what
  \<open>credit_available\<close> grants; the peer consumes and reports as it likes.
\<close>

record credit_link =
  tracker :: CreditTracker
  sent :: nat
  consumed :: nat
  reported :: nat

inductive credit_step :: "u32 \<Rightarrow> credit_link \<Rightarrow> credit_link \<Rightarrow> bool" for buf where
  Send: "n \<le> credit_available (tracker l) \<Longrightarrow>
    credit_step buf l (l\<lparr> tracker := record_sent n (tracker l), sent := sent l + unat n \<rparr>)"
| Consume: "consumed l + k \<le> sent l \<Longrightarrow> credit_step buf l (l\<lparr> consumed := consumed l + k \<rparr>)"
| Report: "reported l \<le> r \<Longrightarrow> r \<le> consumed l \<Longrightarrow>
    credit_step buf l (l\<lparr> tracker := update_peer buf (of_nat r) (tracker l), reported := r \<rparr>)"

definition credit_start :: credit_link where
  "credit_start = \<lparr> tracker = credit_new, sent = 0, consumed = 0, reported = 0 \<rparr>"

definition credit_inv :: "u32 \<Rightarrow> credit_link \<Rightarrow> bool" where
  "credit_inv buf l \<longleftrightarrow>
     tx_cnt (tracker l) = of_nat (sent l) \<and> peer_fwd_cnt (tracker l) = of_nat (reported l) \<and>
     peer_buf_alloc (tracker l) \<in> {0, buf} \<and>
     reported l \<le> consumed l \<and> consumed l \<le> sent l \<and> sent l - reported l \<le> unat buf"


section \<open>Header lemmas\<close>

lemmas hdr_slices = slice_patch_before slice_patch_after

lemma length_hdr_to_bytes [simp]: "length (hdr_to_bytes h) = VSOCK_HDR_LEN"
  by (simp add: hdr_to_bytes_def VSOCK_HDR_LEN_def)

lemma hdr_parse_to_bytes: "hdr_parse (hdr_to_bytes h @ rest) = Some h"
proof -
  have "hdr_parse (hdr_to_bytes h) = Some h"
    by (simp add: hdr_parse_def)
       (simp add: hdr_to_bytes_def hdr_slices VSOCK_HDR_LEN_def)
  then show ?thesis by (simp add: hdr_parse_def VSOCK_HDR_LEN_def)
qed

lemma le_bytes_slice:
  assumes "off + n \<le> length b" and "8 * n = LENGTH('a::len)"
  shows "le_bytes n (le_word (slice off n b) :: 'a word) = slice off n b"
  using le_bytes_le_word [of "slice off n b", where 'a = 'a] assms by simp

lemma hdr_to_bytes_layout:
  "hdr_to_bytes h =
     le_bytes 8 (src_cid h) @ le_bytes 8 (dst_cid h) @ le_bytes 4 (src_port h) @
     le_bytes 4 (dst_port h) @ le_bytes 4 (hdr_len h) @ le_bytes 2 (hdr_type h) @
     le_bytes 2 (hdr_op h) @ le_bytes 4 (hdr_flags h) @ le_bytes 4 (hdr_buf_alloc h) @
     le_bytes 4 (hdr_fwd_cnt h)"
  by (simp add: hdr_to_bytes_def VSOCK_HDR_LEN_def patch_def)

lemma take_slice: "take (m + n) xs = take m xs @ slice m n xs"
  by (simp add: slice_def take_add)

lemma hdr_to_bytes_parse:
  assumes "hdr_parse b = Some h"
  shows "hdr_to_bytes h = take VSOCK_HDR_LEN b"
proof -
  have len: "44 \<le> length b" and h: "the (hdr_parse b) = h"
    using assms by (auto simp: hdr_parse_def VSOCK_HDR_LEN_def split: if_splits)
  have "hdr_to_bytes h =
      slice 0 8 b @ slice 8 8 b @ slice 16 4 b @ slice 20 4 b @ slice 24 4 b @ slice 28 2 b @
      slice 30 2 b @ slice 32 4 b @ slice 36 4 b @ slice 40 4 b"
    using assms len
    by (auto simp: hdr_to_bytes_layout hdr_parse_def VSOCK_HDR_LEN_def le_bytes_slice split: if_splits)
  also have "\<dots> = take 44 b"
    using take_slice [of 40 4 b] take_slice [of 36 4 b] take_slice [of 32 4 b]
      take_slice [of 30 2 b] take_slice [of 28 2 b] take_slice [of 24 4 b]
      take_slice [of 20 4 b] take_slice [of 16 4 b] take_slice [of 8 8 b] take_slice [of 0 8 b]
    by simp
  finally show ?thesis by (simp add: VSOCK_HDR_LEN_def)
qed


section \<open>Credit lemmas\<close>

lemma unat_of_nat_diff:
  fixes a b :: nat
  assumes "b \<le> a" and "a - b < 2 ^ 32"
  shows "unat (of_nat a - of_nat b :: u32) = a - b"
proof -
  have "(of_nat a - of_nat b :: u32) = of_nat (a - b)" using assms by simp
  then show ?thesis using assms by (simp only: unat_of_nat) simp
qed

lemma credit_available_ideal:
  assumes "credit_inv buf l"
  shows "unat (credit_available (tracker l)) =
         unat (peer_buf_alloc (tracker l)) - (sent l - reported l)"
proof -
  have "sent l - reported l < 2 ^ 32"
    using assms unsigned_less [of buf, where 'a = nat] by (auto simp: credit_inv_def)
  then have "unat (tx_cnt (tracker l) - peer_fwd_cnt (tracker l)) = sent l - reported l"
    using assms unat_of_nat_diff by (auto simp: credit_inv_def)
  then show ?thesis by (simp add: credit_available_def unat_saturating_sub)
qed

lemma credit_inv_start: "credit_inv buf credit_start"
  by (simp add: credit_inv_def credit_start_def credit_new_def)

lemma credit_inv_step:
  assumes "credit_step buf l l'" and "credit_inv buf l"
  shows "credit_inv buf l'"
  using assms
proof (induction rule: credit_step.induct)
  case (Send n l)
  have "unat n \<le> unat (peer_buf_alloc (tracker l)) - (sent l - reported l)"
    using Send credit_available_ideal by (simp add: word_le_nat_alt)
  with Send.prems show ?case
    by (auto simp: credit_inv_def record_sent_def)
next
  case (Consume l k)
  then show ?case by (auto simp: credit_inv_def)
next
  case (Report l r)
  then show ?case by (auto simp: credit_inv_def update_peer_def)
qed

lemma credit_inv_reachable:
  "(credit_step buf)\<^sup>*\<^sup>* credit_start l \<Longrightarrow> credit_inv buf l"
  by (induction rule: rtranclp_induct) (auto intro: credit_inv_start credit_inv_step)


section \<open>Properties\<close>

text \<open>C34: The header codec is a bijection between headers and 44-byte strings: whatever
  follows a serialised header, parsing gives the header back; parsing fails exactly on
  inputs shorter than 44 bytes; and re-serialising a parsed header gives the bytes read.\<close>

theorem header_round_trip:
  "hdr_parse (hdr_to_bytes h @ rest) = Some h \<and>
   (hdr_parse b = None \<longleftrightarrow> length b < VSOCK_HDR_LEN) \<and>
   map_option hdr_to_bytes (hdr_parse b) = (if length b < VSOCK_HDR_LEN then None else Some (take VSOCK_HDR_LEN b))"
proof -
  have "hdr_parse b = None \<longleftrightarrow> length b < VSOCK_HDR_LEN"
    by (simp add: hdr_parse_def)
  then show ?thesis
    using hdr_parse_to_bytes [of h rest] hdr_to_bytes_parse [of b]
    by (cases "hdr_parse b") auto
qed

text \<open>C16: Flow control is safe although every counter wraps at 32 bits: in every state a
  sender can reach by sending only what \<open>available\<close> grants, against a peer that consumes
  and reports at its own pace, the bytes sitting unconsumed at the peer fit the buffer it
  advertised, and \<open>available\<close> is the advertised buffer minus the unreported bytes,
  computed on the unbounded counters.\<close>

theorem credit_never_overruns:
  assumes "(credit_step buf)\<^sup>*\<^sup>* credit_start l"
  shows "sent l - consumed l \<le> unat buf \<and>
         unat (credit_available (tracker l)) =
           unat (peer_buf_alloc (tracker l)) - (sent l - reported l)"
proof -
  have inv: "credit_inv buf l" using assms by (rule credit_inv_reachable)
  then have "sent l - consumed l \<le> unat buf" by (auto simp: credit_inv_def)
  with credit_available_ideal [OF inv] show ?thesis by simp
qed

definition credit_example :: credit_link where
  "credit_example =
     \<lparr> tracker = \<lparr> peer_buf_alloc = 10, peer_fwd_cnt = 0, tx_cnt = 7 \<rparr>,
       sent = 7, consumed = 0, reported = 0 \<rparr>"

theorem credit_never_overruns_witness:
  "sent credit_example - consumed credit_example \<le> unat (10 :: u32) \<and>
   unat (credit_available (tracker credit_example)) = 3"
proof -
  let ?l1 = "credit_start\<lparr> tracker := update_peer 10 (of_nat 0) (tracker credit_start), reported := 0 \<rparr>"
  have s1: "credit_step 10 credit_start ?l1"
    by (rule credit_step.Report) (simp_all add: credit_start_def)
  have "credit_step 10 ?l1 (?l1\<lparr> tracker := record_sent 7 (tracker ?l1), sent := sent ?l1 + unat (7 :: u32) \<rparr>)"
    by (rule credit_step.Send)
       (simp add: credit_start_def update_peer_def credit_available_def credit_new_def saturating_sub_def)
  then have s2: "credit_step 10 ?l1 credit_example"
    by (simp add: credit_example_def credit_start_def record_sent_def update_peer_def credit_new_def)
  from s1 s2 have "(credit_step 10)\<^sup>*\<^sup>* credit_start credit_example"
    by (meson converse_rtranclp_into_rtranclp rtranclp.rtrancl_refl)
  from credit_never_overruns [OF this] show ?thesis
    by (simp add: credit_example_def)
qed

end
