(* ===== verification/Virtio_Vsock.thy ===== *)
theory Virtio_Vsock
  imports Virtio_Mmio Vsock_Proto Backlog
begin

text \<open>
  The vsock device of \<open>crates/mm-vmm/src/devices/vsock.rs\<close>: the device methods, the hybrid
  handshake with host processes, and the worker that multiplexes host Unix sockets onto the
  two rings.  A socket of the host is the list of the answers its reads and writes will
  give, and the bytes written to it.  Ghost fields, which no definition reads, record what
  happened: \<open>vw_pushed\<close> the packets handed to \<open>push_to_guest\<close>, \<open>vw_delivered\<close> those
  placed in receive buffers, and per connection the payload received from the guest
  (\<open>cn_received\<close>) and flushed to the socket (\<open>cn_flushed\<close>).
\<close>

section \<open>The device\<close>

definition VSOCK_RX_QUEUE_INDEX :: nat where "VSOCK_RX_QUEUE_INDEX = 0"
definition VSOCK_TX_QUEUE_INDEX :: nat where "VSOCK_TX_QUEUE_INDEX = 1"
definition EVENT_QUEUE_INDEX :: nat where "EVENT_QUEUE_INDEX = 2"
definition BOOT_PORT :: u32 where "BOOT_PORT = 1024"
definition HOST_BUF_ALLOC :: u32 where "HOST_BUF_ALLOC = 262144"
definition FIRST_HOST_PORT :: u32 where "FIRST_HOST_PORT = 0x40000000"
definition VSOCK_RX_BACKLOG_MAX :: nat where "VSOCK_RX_BACKLOG_MAX = 256"
definition MAX_RW_PAYLOAD :: u32 where "MAX_RW_PAYLOAD = 4096"

record 'e VsockReady =
  vr_flag :: bool
  vr_evt :: 'e

definition vsock_ready_new :: "('q, 'm, 'e) venv \<Rightarrow> VmmError + 'e VsockReady" where
  "vsock_ready_new E =
     (case e_new E of Inl e \<Rightarrow> Inl (Io e) | Inr v \<Rightarrow> Inr \<lparr> vr_flag = False, vr_evt = v \<rparr>)"

definition mark_ready :: "('q, 'm, 'e) venv \<Rightarrow> 'e VsockReady \<Rightarrow> 'e VsockReady" where
  "mark_ready E r =
     (let r' = r\<lparr> vr_flag := True \<rparr> in
      if \<not> vr_flag r
      then (case e_write E (vr_evt r') of Inl _ \<Rightarrow> r' | Inr v \<Rightarrow> r'\<lparr> vr_evt := v \<rparr>)
      else r')"

text \<open>Sockets: an answer of a read is the bytes that have arrived, an answer of a write the
  number of bytes the socket has room for; when the answers run out the socket would block.\<close>

datatype sock_err = WouldBlock | SockErr string

record sock =
  so_reads :: "(sock_err + bytes) list"
  so_writes :: "(sock_err + nat) list"
  so_out :: bytes

definition sock_read :: "nat \<Rightarrow> sock \<Rightarrow> (sock_err + bytes) \<times> sock" where
  "sock_read n s =
     (case so_reads s of
        [] \<Rightarrow> (Inl WouldBlock, s)
      | Inl e # rs \<Rightarrow> (Inl e, s\<lparr> so_reads := rs \<rparr>)
      | Inr bs # rs \<Rightarrow>
          if length bs \<le> n then (Inr bs, s\<lparr> so_reads := rs \<rparr>)
          else (Inr (take n bs), s\<lparr> so_reads := Inr (drop n bs) # rs \<rparr>))"

definition sock_write :: "bytes \<Rightarrow> sock \<Rightarrow> (sock_err + nat) \<times> sock" where
  "sock_write bs s =
     (case so_writes s of
        [] \<Rightarrow> (Inl WouldBlock, s)
      | Inl e # ws \<Rightarrow> (Inl e, s\<lparr> so_writes := ws \<rparr>)
      | Inr n # ws \<Rightarrow>
          let k = min n (length bs) in (Inr k, s\<lparr> so_writes := ws, so_out := so_out s @ take k bs \<rparr>))"

text \<open>\<open>Write::write_all\<close>: recursive in the answers of the socket; its result is ignored by
  the caller.\<close>

fun sock_write_all :: "(sock_err + nat) list \<Rightarrow> bytes \<Rightarrow> sock \<Rightarrow> sock" where
  "sock_write_all [] bs s = s\<lparr> so_writes := [] \<rparr>"
| "sock_write_all (Inl e # ws) bs s =
     (if bs = [] then s\<lparr> so_writes := Inl e # ws \<rparr> else s\<lparr> so_writes := ws \<rparr>)"
| "sock_write_all (Inr n # ws) bs s =
     (if bs = [] then s\<lparr> so_writes := Inr n # ws \<rparr>
      else if n = 0 then s\<lparr> so_writes := ws \<rparr>
      else sock_write_all ws (drop n bs) (s\<lparr> so_out := so_out s @ take n bs \<rparr>))"

text \<open>What accepting on the listener will answer: a connection, with whether it can be made
  non-blocking, or an error.\<close>

type_synonym accepts = "(sock_err + bool \<times> sock) list"

record ('q, 'e) Vsock =
  vs_cid :: u64
  vs_ready :: "'e VsockReady"
  vs_listener :: "accepts option"
  vs_queue_max_sizes :: "u16 list"
  vs_pause :: bool
  vs_worker :: "('q \<times> 'q \<times> accepts option \<times> bool) option"

definition vsock_new :: "('q, 'm, 'e) venv \<Rightarrow> u64 \<Rightarrow> VmmError + ('q, 'e) Vsock" where
  "vsock_new E guest_cid =
     res_bind (vsock_ready_new E) (\<lambda>r. Inr
       \<lparr> vs_cid = guest_cid, vs_ready = r, vs_listener = None,
         vs_queue_max_sizes = [QUEUE_SIZE, QUEUE_SIZE, QUEUE_SIZE], vs_pause = False, vs_worker = None \<rparr>)"

definition with_host_bridge :: "('q, 'm, 'e) venv \<Rightarrow> u64 \<Rightarrow> accepts \<Rightarrow> VmmError + ('q, 'e) Vsock" where
  "with_host_bridge E guest_cid listener =
     res_bind (vsock_new E guest_cid) (\<lambda>v. Inr (v\<lparr> vs_listener := Some listener \<rparr>))"

definition vsock_features :: "('q, 'e) Vsock \<Rightarrow> u64" where
  "vsock_features v = VIRTIO_F_VERSION_1"

definition vsock_read_config :: "('q, 'e) Vsock \<Rightarrow> u64 \<Rightarrow> bytes \<Rightarrow> bytes" where
  "vsock_read_config v off data = config_bytes (le_bytes 8 (vs_cid v)) off (length data)"

definition vsock_set_pause_handle :: "('q, 'e) Vsock \<Rightarrow> ('q, 'e) Vsock" where
  "vsock_set_pause_handle v = v\<lparr> vs_pause := True \<rparr>"

text \<open>\<open>nonblock\<close> is the outcome of making the listener non-blocking.\<close>

definition vsock_activate ::
  "('q, 'm, 'e) venv \<Rightarrow> string + unit \<Rightarrow> 'q list \<Rightarrow> 'e list \<Rightarrow> (('q, 'e) Vsock, unit) io" where
  "vsock_activate E nonblock queues evts v =
     (if length queues \<le> EVENT_QUEUE_INDEX \<or> length evts \<le> EVENT_QUEUE_INDEX
      then (Inl (Device ''vsock: expected rx, tx, event queues''), v)
      else
        (case (if vs_listener v = None then Inr () else nonblock) of
           Inl e \<Rightarrow> (Inl (Io e), v)
         | Inr _ \<Rightarrow>
             (let v' = v\<lparr> vs_listener := None, vs_pause := False \<rparr> in
              case thread_spawn E ''mm-vsock'' of
                Inl e \<Rightarrow> (Inl (Io e), v')
              | Inr _ \<Rightarrow>
                  (Inr (), v'\<lparr> vs_worker := Some (queues ! VSOCK_RX_QUEUE_INDEX, queues ! VSOCK_TX_QUEUE_INDEX,
                                                  vs_listener v, vs_pause v) \<rparr>))))"

definition vsock_vtable :: "('q, 'm, 'e) venv \<Rightarrow> string + unit \<Rightarrow> (('q, 'e) Vsock, 'q, 'e) vtable" where
  "vsock_vtable E nonblock =
     \<lparr> v_device_type = (\<lambda>_. TYPE_VSOCK), v_queue_max_sizes = vs_queue_max_sizes,
       v_features = vsock_features, v_read_config = vsock_read_config,
       v_write_config = (\<lambda>_ _ v. v), v_activate = vsock_activate E nonblock \<rparr>"


section \<open>Connections and the handshake\<close>

datatype ConnState = Connecting | Established

record Conn =
  cn_local_port :: u32
  cn_guest_port :: u32
  cn_uds :: sock
  cn_state :: ConnState
  cn_credit :: CreditTracker
  cn_rx_fwd_cnt :: u32
  cn_last_credit_sent :: u32
  cn_to_uds :: bytes
  cn_received :: bytes
  cn_flushed :: bytes

definition conn_header :: "u64 \<Rightarrow> u16 \<Rightarrow> u32 \<Rightarrow> Conn \<Rightarrow> VsockHeader" where
  "conn_header guest_cid op len c =
     \<lparr> src_cid = HOST_CID, dst_cid = guest_cid, src_port = cn_local_port c, dst_port = cn_guest_port c,
       hdr_len = len, hdr_type = TYPE_STREAM, hdr_op = op, hdr_flags = 0,
       hdr_buf_alloc = HOST_BUF_ALLOC, hdr_fwd_cnt = cn_rx_fwd_cnt c \<rparr>"

record Pending =
  pd_uds :: sock
  pd_inbuf :: bytes

definition ascii_lower :: "char \<Rightarrow> char" where
  "ascii_lower c = (let k = of_char c :: nat in if 65 \<le> k \<and> k \<le> 90 then char_of (k + 32) else c)"

text \<open>The position of the first newline; the length when there is none.\<close>

definition newline_pos :: "bytes \<Rightarrow> nat" where
  "newline_pos buf = length (takeWhile (\<lambda>b. b \<noteq> 10) buf)"

definition parse_connect :: "bytes \<Rightarrow> (nat \<times> u32 option) option" where
  "parse_connect buf =
     (let nl = newline_pos buf; line = take nl buf; consumed = nl + 1;
          line = (if line \<noteq> [] \<and> last line = 13 then butlast line else line) in
      if nl = length buf \<or> \<not> utf8_valid line then None
      else case split_ascii_whitespace (text_of line) of
             [] \<Rightarrow> None
           | verb # rest \<Rightarrow>
               if map ascii_lower verb \<noteq> ''connect'' then Some (consumed, None)
               else Some (consumed,
                      case rest of
                        [] \<Rightarrow> None
                      | p # _ \<Rightarrow> map_option of_nat (parse_uint (2 ^ 32) p)))"


section \<open>The worker\<close>

record ('q, 'm, 'e) vsw =
  vw_cid :: u64
  vw_rx_queue :: 'q
  vw_tx_queue :: 'q
  vw_mem :: 'm
  vw_intr :: "'e Interrupt"
  vw_ready :: "'e VsockReady"
  vw_listener :: "accepts option"
  vw_pause :: bool
  vw_pending :: "Pending list"
  vw_conns :: "u32 \<rightharpoonup> Conn"
  vw_next_port :: u32
  vw_rx_backlog :: "bytes list"
  vw_slot :: "QueueCursor list option"
  vw_pushed :: "bytes list"
  vw_delivered :: "bytes list"

text \<open>Copy a packet into the descriptors of a chain: the bytes copied and the memory.\<close>

fun write_chain_pkt :: "('q, 'm, 'e) venv \<Rightarrow> bytes \<Rightarrow> nat \<Rightarrow> desc list \<Rightarrow> ('m, nat) io" where
  "write_chain_pkt E pkt copied [] m = (Inr copied, m)"
| "write_chain_pkt E pkt copied (d # ds) m =
     (if length pkt \<le> copied then (Inr copied, m)
      else
        let want = min (unat (d_len d)) (length pkt - copied) in
        case m_write E m (d_addr d) (slice copied want pkt) of
          Inl e \<Rightarrow> (Inl (Device e), m)
        | Inr m' \<Rightarrow> write_chain_pkt E pkt (copied + want) ds m')"

definition write_rx :: "('q, 'm, 'e) venv \<Rightarrow> bytes \<Rightarrow> (('q, 'm, 'e) vsw, bool) io" where
  "write_rx E pkt s =
     (case q_pop E (vw_rx_queue s) (vw_mem s) of
        None \<Rightarrow> (Inr False, s)
      | Some (c, q) \<Rightarrow>
          (let s = s\<lparr> vw_rx_queue := q \<rparr> in
           case write_chain_pkt E pkt 0 (c_descs c) (vw_mem s) of
             (Inl e, m) \<Rightarrow> (Inl e, s\<lparr> vw_mem := m \<rparr>)
           | (Inr copied, m) \<Rightarrow>
               (case q_add_used E (vw_rx_queue s) m (c_head c) (of_nat copied) of
                  Inl e \<Rightarrow> (Inl (Device e), s\<lparr> vw_mem := m \<rparr>)
                | Inr (q, m) \<Rightarrow>
                    (Inr True, s\<lparr> vw_rx_queue := q, vw_mem := m, vw_delivered := vw_delivered s @ [pkt] \<rparr>))))"

definition vsock_enqueue_backlog :: "bytes \<Rightarrow> ('q, 'm, 'e) vsw \<Rightarrow> ('q, 'm, 'e) vsw" where
  "vsock_enqueue_backlog pkt s =
     (let b = (if VSOCK_RX_BACKLOG_MAX \<le> length (vw_rx_backlog s) then tl (vw_rx_backlog s) else vw_rx_backlog s) in
      s\<lparr> vw_rx_backlog := b @ [pkt] \<rparr>)"

definition push_to_guest :: "('q, 'm, 'e) venv \<Rightarrow> bytes \<Rightarrow> (('q, 'm, 'e) vsw, bool) io" where
  "push_to_guest E pkt s =
     (let s = s\<lparr> vw_pushed := vw_pushed s @ [pkt] \<rparr> in
      if vw_rx_backlog s \<noteq> [] then (Inr False, vsock_enqueue_backlog pkt s)
      else case write_rx E pkt s of
             (Inl e, s) \<Rightarrow> (Inl e, s)
           | (Inr True, s) \<Rightarrow> (Inr True, s)
           | (Inr False, s) \<Rightarrow> (Inr False, vsock_enqueue_backlog pkt s))"

text \<open>The loop of \<open>drain_rx_backlog\<close>, recursive in the number of buffered packets.\<close>

fun drain_rx_loop :: "('q, 'm, 'e) venv \<Rightarrow> nat \<Rightarrow> bool \<Rightarrow> (('q, 'm, 'e) vsw, bool) io" where
  "drain_rx_loop E 0 delivered s = (Inr delivered, s)"
| "drain_rx_loop E (Suc n) delivered s =
     (case vw_rx_backlog s of
        [] \<Rightarrow> (Inr delivered, s)
      | pkt # rest \<Rightarrow>
          (case write_rx E pkt (s\<lparr> vw_rx_backlog := rest \<rparr>) of
             (Inl e, s) \<Rightarrow> (Inl e, s)
           | (Inr True, s) \<Rightarrow> drain_rx_loop E n True s
           | (Inr False, s) \<Rightarrow> (Inr delivered, s\<lparr> vw_rx_backlog := pkt # vw_rx_backlog s \<rparr>)))"

definition drain_rx_backlog :: "('q, 'm, 'e) venv \<Rightarrow> (('q, 'm, 'e) vsw, bool) io" where
  "drain_rx_backlog E s = drain_rx_loop E (length (vw_rx_backlog s)) False s"

definition set_conn :: "u32 \<Rightarrow> Conn \<Rightarrow> ('q, 'm, 'e) vsw \<Rightarrow> ('q, 'm, 'e) vsw" where
  "set_conn port c s = s\<lparr> vw_conns := (vw_conns s)(port \<mapsto> c) \<rparr>"

definition send_control :: "('q, 'm, 'e) venv \<Rightarrow> u32 \<Rightarrow> u16 \<Rightarrow> (('q, 'm, 'e) vsw, bool) io" where
  "send_control E port op s =
     (case vw_conns s port of
        None \<Rightarrow> (Inr False, s)
      | Some c \<Rightarrow>
          (let c = (if op = OP_CREDIT_UPDATE then c\<lparr> cn_last_credit_sent := cn_rx_fwd_cnt c \<rparr> else c) in
           push_to_guest E (hdr_to_bytes (conn_header (vw_cid s) op 0 c)) (set_conn port c s)))"

definition send_rw :: "('q, 'm, 'e) venv \<Rightarrow> u32 \<Rightarrow> bytes \<Rightarrow> (('q, 'm, 'e) vsw, bool) io" where
  "send_rw E port data s =
     (case vw_conns s port of
        None \<Rightarrow> (Inr False, s)
      | Some c \<Rightarrow>
          (let hdr = conn_header (vw_cid s) OP_RW (of_nat (length data)) c;
               c = c\<lparr> cn_credit := record_sent (of_nat (length data)) (cn_credit c) \<rparr> in
           push_to_guest E (hdr_to_bytes hdr @ data) (set_conn port c s)))"

definition rst_header :: "u64 \<Rightarrow> u32 \<Rightarrow> u32 \<Rightarrow> VsockHeader" where
  "rst_header to_cid from_port to_port =
     \<lparr> src_cid = HOST_CID, dst_cid = to_cid, src_port = from_port, dst_port = to_port,
       hdr_len = 0, hdr_type = TYPE_STREAM, hdr_op = OP_RST, hdr_flags = 0,
       hdr_buf_alloc = 0, hdr_fwd_cnt = 0 \<rparr>"

definition send_rst :: "('q, 'm, 'e) venv \<Rightarrow> VsockHeader \<Rightarrow> (('q, 'm, 'e) vsw, bool) io" where
  "send_rst E incoming =
     push_to_guest E (hdr_to_bytes (rst_header (src_cid incoming) (dst_port incoming) (src_port incoming)))"

definition close_conn :: "('q, 'm, 'e) venv \<Rightarrow> u32 \<Rightarrow> bool \<Rightarrow> (('q, 'm, 'e) vsw, bool) io" where
  "close_conn E port reset s =
     (case vw_conns s port of
        None \<Rightarrow> (Inr False, s)
      | Some c \<Rightarrow>
          (let s = s\<lparr> vw_conns := (vw_conns s)(port := None) \<rparr> in
           if reset
           then push_to_guest E (hdr_to_bytes (rst_header (vw_cid s) (cn_local_port c) (cn_guest_port c))) s
           else (Inr False, s)))"

text \<open>The loop of \<open>flush_to_uds\<close>: whether bytes were flushed, or that the socket failed.  The
  answers of the socket stand for the partial writes of the ring buffer's first slice.\<close>

fun flush_loop :: "nat \<Rightarrow> u32 \<Rightarrow> bool \<Rightarrow> ('q, 'm, 'e) vsw \<Rightarrow> (sock_err + bool) \<times> ('q, 'm, 'e) vsw" where
  "flush_loop 0 port advanced s = (Inr advanced, s)"
| "flush_loop (Suc fuel) port advanced s =
     (case vw_conns s port of
        None \<Rightarrow> (Inr advanced, s)
      | Some c \<Rightarrow>
          if cn_to_uds c = [] then (Inr advanced, s)
          else
            (case sock_write (cn_to_uds c) (cn_uds c) of
               (Inl WouldBlock, u) \<Rightarrow> (Inr advanced, set_conn port (c\<lparr> cn_uds := u \<rparr>) s)
             | (Inl e, u) \<Rightarrow> (Inl e, set_conn port (c\<lparr> cn_uds := u \<rparr>) s)
             | (Inr n, u) \<Rightarrow>
                 if n = 0 then (Inr advanced, set_conn port (c\<lparr> cn_uds := u \<rparr>) s)
                 else flush_loop fuel port True
                   (set_conn port
                     (c\<lparr> cn_uds := u, cn_to_uds := drop n (cn_to_uds c),
                        cn_flushed := cn_flushed c @ take n (cn_to_uds c),
                        cn_rx_fwd_cnt := cn_rx_fwd_cnt c + of_nat n \<rparr>) s)))"

definition flush_to_uds :: "('q, 'm, 'e) venv \<Rightarrow> u32 \<Rightarrow> (('q, 'm, 'e) vsw, bool) io" where
  "flush_to_uds E port s =
     (case flush_loop (case vw_conns s port of None \<Rightarrow> 0 | Some c \<Rightarrow> Suc (length (cn_to_uds c))) port False s of
        (Inl e, s) \<Rightarrow>
          (let s = snd (send_control E port OP_RST s) in
           io_bind (close_conn E port False) (\<lambda>_. io_return False) s)
      | (Inr advanced, s) \<Rightarrow>
          if advanced \<and> (case vw_conns s port of None \<Rightarrow> False | Some c \<Rightarrow> cn_rx_fwd_cnt c \<noteq> cn_last_credit_sent c)
          then send_control E port OP_CREDIT_UPDATE s
          else (Inr False, s))"

definition handle_guest_packet ::
  "('q, 'm, 'e) venv \<Rightarrow> VsockHeader \<Rightarrow> bytes \<Rightarrow> (('q, 'm, 'e) vsw, bool) io" where
  "handle_guest_packet E hdr payload s =
     (let port = dst_port hdr; op = hdr_op hdr in
      if op = OP_REQUEST \<and> port = BOOT_PORT then send_rst E hdr (s\<lparr> vw_ready := mark_ready E (vw_ready s) \<rparr>)
      else if op = OP_REQUEST then send_rst E hdr s
      else if op = OP_RESPONSE then
        (case vw_conns s port of
           None \<Rightarrow> (Inr False, s)
         | Some c \<Rightarrow>
             if cn_state c = Connecting then
               (let u = cn_uds c in
                (Inr False, set_conn port
                  (c\<lparr> cn_state := Established,
                     cn_credit := update_peer (hdr_buf_alloc hdr) (hdr_fwd_cnt hdr) (cn_credit c),
                     cn_uds := sock_write_all (so_writes u)
                       (bytes_of (''OK '' @ dec_of_nat (unat (cn_local_port c)) @ [CHR 0x0A])) u \<rparr>) s))
             else (Inr False, s))
      else if op = OP_RW then
        (case vw_conns s port of
           None \<Rightarrow> (Inr False, s)
         | Some c \<Rightarrow> flush_to_uds E port (set_conn port
             (c\<lparr> cn_credit := update_peer (hdr_buf_alloc hdr) (hdr_fwd_cnt hdr) (cn_credit c),
                cn_to_uds := cn_to_uds c @ payload, cn_received := cn_received c @ payload \<rparr>) s))
      else if op = OP_CREDIT_UPDATE then
        (case vw_conns s port of
           None \<Rightarrow> (Inr False, s)
         | Some c \<Rightarrow> (Inr False, set_conn port
             (c\<lparr> cn_credit := update_peer (hdr_buf_alloc hdr) (hdr_fwd_cnt hdr) (cn_credit c) \<rparr>) s))
      else if op = OP_CREDIT_REQUEST then
        (if vw_conns s port \<noteq> None then send_control E port OP_CREDIT_UPDATE s else (Inr False, s))
      else if op = OP_SHUTDOWN then
        (let s = snd (send_rst E hdr s) in io_bind (close_conn E port False) (\<lambda>_. io_return True) s)
      else if op = OP_RST then io_bind (close_conn E port False) (\<lambda>_. io_return False) s
      else (Inr False, s))"

fun gather_pkt :: "('q, 'm, 'e) venv \<Rightarrow> 'm \<Rightarrow> desc list \<Rightarrow> VmmError + bytes" where
  "gather_pkt E m [] = Inr []"
| "gather_pkt E m (d # ds) =
     (case m_read E m (d_addr d) (unat (d_len d)) of
        Inl e \<Rightarrow> Inl (Device e)
      | Inr buf \<Rightarrow> res_bind (gather_pkt E m ds) (\<lambda>rest. Inr (buf @ rest)))"

text \<open>One packet of the transmit queue: assemble it, return the buffer, then act on it.\<close>

definition vsock_tx_round :: "('q, 'm, 'e) venv \<Rightarrow> chain \<Rightarrow> (('q, 'm, 'e) vsw, bool) io" where
  "vsock_tx_round E c s =
     (case gather_pkt E (vw_mem s) (c_descs c) of
        Inl e \<Rightarrow> (Inl e, s)
      | Inr pkt \<Rightarrow>
          (case q_add_used E (vw_tx_queue s) (vw_mem s) (c_head c) 0 of
             Inl e \<Rightarrow> (Inl (Device e), s)
           | Inr (q, m) \<Rightarrow>
               (let s = s\<lparr> vw_tx_queue := q, vw_mem := m \<rparr> in
                case hdr_parse pkt of
                  None \<Rightarrow> (Inr False, s)
                | Some hdr \<Rightarrow>
                    (let payload = drop VSOCK_HDR_LEN pkt;
                         n = min (unat (hdr_len hdr)) (length payload) in
                     handle_guest_packet E hdr (take n payload) s))))"

fun vsock_process_tx ::
  "('q, 'm, 'e) venv \<Rightarrow> nat \<Rightarrow> bool \<Rightarrow> ('q, 'm, 'e) vsw \<Rightarrow> ((VmmError + bool) \<times> ('q, 'm, 'e) vsw) option" where
  "vsock_process_tx E 0 dirty s = None"
| "vsock_process_tx E (Suc fuel) dirty s =
     (case q_pop E (vw_tx_queue s) (vw_mem s) of
        None \<Rightarrow> Some (Inr dirty, s)
      | Some (c, q) \<Rightarrow>
          (case vsock_tx_round E c (s\<lparr> vw_tx_queue := q \<rparr>) of
             (Inl e, s) \<Rightarrow> Some (Inl e, s)
           | (Inr d, s) \<Rightarrow> vsock_process_tx E fuel (dirty \<or> d) s))"

text \<open>Accept until the listener would block or fails; a connection that cannot be made
  non-blocking is dropped.\<close>

fun accept_loop :: "accepts \<Rightarrow> Pending list \<Rightarrow> accepts \<times> Pending list" where
  "accept_loop [] ps = ([], ps)"
| "accept_loop (Inl e # as) ps = (as, ps)"
| "accept_loop (Inr (ok, u) # as) ps =
     accept_loop as (if ok then ps @ [\<lparr> pd_uds = u, pd_inbuf = [] \<rparr>] else ps)"

definition accept_uds :: "('q, 'm, 'e) vsw \<Rightarrow> ('q, 'm, 'e) vsw" where
  "accept_uds s =
     (case vw_listener s of
        None \<Rightarrow> s
      | Some as \<Rightarrow>
          (case accept_loop as (vw_pending s) of
             (as', ps) \<Rightarrow> s\<lparr> vw_listener := Some as', vw_pending := ps \<rparr>))"

text \<open>\<open>Vec::swap_remove\<close>: the last element takes the place of the removed one.\<close>

definition swap_remove :: "nat \<Rightarrow> 'x list \<Rightarrow> 'x list" where
  "swap_remove i xs = (if i + 1 = length xs then butlast xs else (butlast xs)[i := last xs])"

fun alloc_port :: "nat \<Rightarrow> ('q, 'm, 'e) vsw \<Rightarrow> (u32 \<times> ('q, 'm, 'e) vsw) option" where
  "alloc_port 0 s = None"
| "alloc_port (Suc fuel) s =
     (let p = vw_next_port s;
          s = s\<lparr> vw_next_port := (case checked_add p 1 of None \<Rightarrow> FIRST_HOST_PORT | Some n \<Rightarrow> n) \<rparr> in
      if vw_conns s p = None \<and> p \<noteq> BOOT_PORT then Some (p, s) else alloc_port fuel s)"

definition conn_new :: "u32 \<Rightarrow> u32 \<Rightarrow> sock \<Rightarrow> Conn" where
  "conn_new local_port guest_port uds =
     \<lparr> cn_local_port = local_port, cn_guest_port = guest_port, cn_uds = uds, cn_state = Connecting,
       cn_credit = credit_new, cn_rx_fwd_cnt = 0, cn_last_credit_sent = 0, cn_to_uds = [],
       cn_received = [], cn_flushed = [] \<rparr>"

definition poll_pending ::
  "('q, 'm, 'e) venv \<Rightarrow> nat \<Rightarrow> nat \<Rightarrow> ('q, 'm, 'e) vsw \<Rightarrow> ((VmmError + bool) \<times> ('q, 'm, 'e) vsw) option" where
  "poll_pending E fuel idx s =
     (let p = vw_pending s ! idx;
          dropped = s\<lparr> vw_pending := swap_remove idx (vw_pending s) \<rparr> in
      case sock_read 256 (pd_uds p) of
        (Inl WouldBlock, u) \<Rightarrow>
          Some (Inr False, s\<lparr> vw_pending := (vw_pending s)[idx := p\<lparr> pd_uds := u \<rparr>] \<rparr>)
      | (Inl (SockErr e), u) \<Rightarrow> Some (Inl (Io e), dropped)
      | (Inr bs, u) \<Rightarrow>
          if bs = [] then Some (Inr False, dropped)
          else
            (let p = p\<lparr> pd_uds := u, pd_inbuf := pd_inbuf p @ bs \<rparr> in
             case parse_connect (pd_inbuf p) of
               None \<Rightarrow>
                 Some (Inr False,
                   if 1024 < length (pd_inbuf p) then dropped
                   else s\<lparr> vw_pending := (vw_pending s)[idx := p] \<rparr>)
             | Some (_, None) \<Rightarrow> Some (Inr False, dropped)
             | Some (_, Some guest_port) \<Rightarrow>
                 map_option (\<lambda>(local_port, s).
                     send_control E local_port OP_REQUEST
                       (set_conn local_port (conn_new local_port guest_port (pd_uds p)) s))
                   (alloc_port fuel dropped)))"

text \<open>Forward bytes of the host to the guest as far as its credit goes.\<close>

fun pump_to_guest ::
  "('q, 'm, 'e) venv \<Rightarrow> nat \<Rightarrow> u32 \<Rightarrow> bool \<Rightarrow> ('q, 'm, 'e) vsw \<Rightarrow> ((VmmError + bool) \<times> ('q, 'm, 'e) vsw) option" where
  "pump_to_guest E 0 port dirty s = None"
| "pump_to_guest E (Suc fuel) port dirty s =
     (case vw_conns s port of
        None \<Rightarrow> Some (Inr dirty, s)
      | Some c \<Rightarrow>
          (let avail = unat (min (credit_available (cn_credit c)) MAX_RW_PAYLOAD) in
           if cn_state c \<noteq> Established \<or> avail = 0 then Some (Inr dirty, s)
           else
             (case sock_read avail (cn_uds c) of
                (r, u) \<Rightarrow>
                  (let s = set_conn port (c\<lparr> cn_uds := u \<rparr>) s in
                   if r = Inl WouldBlock then Some (Inr dirty, s)
                   else if r = Inr [] \<or> \<not> is_ok r then
                     (let s = snd (send_control E port OP_SHUTDOWN s) in
                      Some (io_bind (close_conn E port False) (\<lambda>_. io_return True) s))
                   else
                     (case send_rw E port (projr r) s of
                        (Inl e, s) \<Rightarrow> Some (Inl e, s)
                      | (Inr d, s) \<Rightarrow> pump_to_guest E fuel port (dirty \<or> d) s)))))"

text \<open>Which events the worker polls a connection for: readable, writable.\<close>

definition conn_events :: "Conn \<Rightarrow> bool \<times> bool" where
  "conn_events c =
     (cn_state c = Established \<and> 0 < credit_available (cn_credit c), cn_to_uds c \<noteq> [])"

text \<open>What a poll found ready.  An eventfd comes with whether it could be read, a connection
  with its readiness, a pause with whether a checkpoint was requested.\<close>

datatype Source = RxEvt bool | TxEvt bool | Listener | PendingSrc nat bool
  | ConnSrc u32 (pollin: bool) (pollout: bool) (pollhup: bool) | PauseEvt bool

text \<open>The worker logs an error and goes on; it remembers whether it owes an interrupt.\<close>

fun logged :: "bool \<Rightarrow> (VmmError + bool) \<times> 's \<Rightarrow> bool \<times> 's" where
  "logged dirty (Inl e, s) = (dirty, s)"
| "logged dirty (Inr d, s) = (dirty \<or> d, s)"

definition serve_conn ::
  "('q, 'm, 'e) venv \<Rightarrow> nat \<Rightarrow> u32 \<Rightarrow> bool \<Rightarrow> bool \<Rightarrow> bool \<Rightarrow> bool \<times> ('q, 'm, 'e) vsw
   \<Rightarrow> (bool \<times> ('q, 'm, 'e) vsw) option" where
  "serve_conn E fuel port pin pout phup ds =
     (let (dirty, s) = ds;
          (dirty, s) = (if pout then logged dirty (flush_to_uds E port s) else (dirty, s)) in
      case (if pin then map_option (logged dirty) (pump_to_guest E fuel port False s) else Some (dirty, s)) of
        None \<Rightarrow> None
      | Some (dirty, s) \<Rightarrow>
          Some (if phup then (case close_conn E port True s of
                                (Inl e, s) \<Rightarrow> (dirty, s)
                              | (Inr _, s) \<Rightarrow> (True, s))
                else (dirty, s)))"

text \<open>One ready source: what becomes of the loop, the owed interrupt and the state.\<close>

definition serve_source ::
  "('q, 'm, 'e) venv \<Rightarrow> nat \<Rightarrow> Source \<Rightarrow> bool \<times> ('q, 'm, 'e) vsw
   \<Rightarrow> (control \<times> bool \<times> ('q, 'm, 'e) vsw) option" where
  "serve_source E fuel src ds =
     (let (dirty, s) = ds in
      case src of
        RxEvt ok \<Rightarrow> Some (if ok then (Continue, logged dirty (drain_rx_backlog E s)) else (Exit, dirty, s))
      | TxEvt ok \<Rightarrow>
          if ok then map_option (\<lambda>r. (Continue, logged dirty r)) (vsock_process_tx E fuel False s)
          else Some (Exit, dirty, s)
      | Listener \<Rightarrow> Some (Continue, dirty, accept_uds s)
      | PendingSrc idx pin \<Rightarrow>
          if idx < length (vw_pending s) \<and> pin
          then map_option (\<lambda>r. (Continue, logged dirty r)) (poll_pending E fuel idx s)
          else Some (Continue, dirty, s)
      | ConnSrc port pin pout phup \<Rightarrow>
          map_option (\<lambda>r. (Continue, r)) (serve_conn E fuel port pin pout phup (dirty, s))
      | PauseEvt checkpoint_requested \<Rightarrow>
          Some (if vw_pause s
                then (if checkpoint_requested then Park else Exit, dirty,
                      s\<lparr> vw_slot := Some [cursor_of_state (q_state E (vw_rx_queue s)),
                                          cursor_of_state (q_state E (vw_tx_queue s))] \<rparr>)
                else (Park, dirty, s)))"

text \<open>One iteration of the poll loop: the ready sources in order until one of them ends the
  round, then the interrupt if one is owed.\<close>

fun serve_sources ::
  "('q, 'm, 'e) venv \<Rightarrow> nat \<Rightarrow> Source list \<Rightarrow> bool \<times> ('q, 'm, 'e) vsw
   \<Rightarrow> (control \<times> bool \<times> ('q, 'm, 'e) vsw) option" where
  "serve_sources E fuel [] ds = Some (Continue, ds)"
| "serve_sources E fuel (src # srcs) ds =
     (case serve_source E fuel src ds of
        None \<Rightarrow> None
      | Some (ctl, ds) \<Rightarrow> if ctl = Continue then serve_sources E fuel srcs ds else Some (ctl, ds))"

definition vsock_iteration ::
  "('q, 'm, 'e) venv \<Rightarrow> nat \<Rightarrow> Source list \<Rightarrow> ('q, 'm, 'e) vsw \<Rightarrow> (control \<times> ('q, 'm, 'e) vsw) option" where
  "vsock_iteration E fuel srcs s =
     (case serve_sources E fuel srcs (False, s) of
        None \<Rightarrow> None
      | Some (ctl, dirty, s) \<Rightarrow>
          Some (ctl, if dirty then s\<lparr> vw_intr := snd (signal_used_queue E (vw_intr s)) \<rparr> else s))"

definition vsw_start :: "u64 \<Rightarrow> 'q \<Rightarrow> 'q \<Rightarrow> 'm \<Rightarrow> 'e Interrupt \<Rightarrow> 'e VsockReady \<Rightarrow> accepts option \<Rightarrow> bool
   \<Rightarrow> ('q, 'm, 'e) vsw" where
  "vsw_start guest_cid rx tx m i r l pause =
     \<lparr> vw_cid = guest_cid, vw_rx_queue = rx, vw_tx_queue = tx, vw_mem = m, vw_intr = i, vw_ready = r,
       vw_listener = l, vw_pause = pause, vw_pending = [], vw_conns = Map.empty,
       vw_next_port = FIRST_HOST_PORT, vw_rx_backlog = [], vw_slot = None,
       vw_pushed = [], vw_delivered = [] \<rparr>"


section \<open>Lemmas\<close>

interpretation vsk: virtio_device "vsock_vtable E nonblock" for E :: "('q, 'm, 'e) venv" and nonblock
proof (unfold_locales, goal_cases)
  case 1
  then show ?case
    by (simp add: vsock_vtable_def vsock_features_def VIRTIO_F_VERSION_1_def bit_simps)
next
  case 2
  then show ?case by (simp add: vsock_vtable_def vsock_read_config_def config_bytes_def)
next
  case 4
  then show ?case by (simp add: vsock_vtable_def vsock_activate_def)
next
  case 6
  then show ?case
    by (simp add: vsock_vtable_def vsock_activate_def Let_def split: sum.splits)
qed (simp_all add: vsock_vtable_def vsock_features_def)

interpretation vrxq: backlog VSOCK_RX_BACKLOG_MAX vw_rx_backlog vsock_enqueue_backlog
  by unfold_locales (simp_all add: VSOCK_RX_BACKLOG_MAX_def vsock_enqueue_backlog_def Let_def)

text \<open>Sending to the guest leaves the host side of the worker alone.\<close>

definition rx_only :: "('q, 'm, 'e) vsw \<Rightarrow> ('q, 'm, 'e) vsw \<Rightarrow> bool" where
  "rx_only s s' \<longleftrightarrow> vw_conns s' = vw_conns s \<and> vw_next_port s' = vw_next_port s \<and>
     vw_pending s' = vw_pending s \<and> vw_listener s' = vw_listener s \<and> vw_pause s' = vw_pause s \<and>
     vw_cid s' = vw_cid s \<and> vw_ready s' = vw_ready s \<and> vw_tx_queue s' = vw_tx_queue s \<and>
     vw_intr s' = vw_intr s"

text \<open>The packets placed in receive buffers and those still buffered are a subsequence of those
  pushed, and the backlog is bounded.\<close>

definition rx_ok :: "('q, 'm, 'e) vsw \<Rightarrow> bool" where
  "rx_ok s \<longleftrightarrow> length (vw_rx_backlog s) \<le> VSOCK_RX_BACKLOG_MAX \<and>
     subseq (vw_delivered s @ vw_rx_backlog s) (vw_pushed s)"

lemma enqueue_simps [simp]:
  "vw_delivered (vsock_enqueue_backlog p s) = vw_delivered s"
  "vw_pushed (vsock_enqueue_backlog p s) = vw_pushed s"
  "rx_only s (vsock_enqueue_backlog p s)"
  by (simp_all add: vsock_enqueue_backlog_def rx_only_def Let_def)

lemma write_rx_facts:
  assumes "write_rx E pkt s = (r, s')"
  shows "rx_only s s' \<and> vw_rx_backlog s' = vw_rx_backlog s \<and> vw_pushed s' = vw_pushed s \<and>
         vw_delivered s' = (if r = Inr True then vw_delivered s @ [pkt] else vw_delivered s)"
  using assms by (auto simp: write_rx_def rx_only_def Let_def split: option.splits prod.splits sum.splits)

lemma enqueue_rx_ok:
  assumes "length (vw_rx_backlog s) \<le> VSOCK_RX_BACKLOG_MAX"
    and "subseq (vw_delivered s @ vw_rx_backlog s @ [pkt]) (vw_pushed s)"
  shows "rx_ok (vsock_enqueue_backlog pkt s)"
proof -
  have "subseq (vw_delivered s @ vw_rx_backlog (vsock_enqueue_backlog pkt s))
          (vw_delivered s @ vw_rx_backlog s @ [pkt])"
    by (intro list_emb_append_mono subseq_order.order_refl vrxq.enq_subseq)
  with assms vrxq.enq_bounded show ?thesis
    unfolding rx_ok_def enqueue_simps by (blast intro: subseq_order.order_trans)
qed

lemma push_to_guest_facts:
  assumes "push_to_guest E pkt s = (r, s')"
  shows "rx_only s s' \<and> vw_pushed s' = vw_pushed s @ [pkt]"
proof -
  let ?s = "s\<lparr> vw_pushed := vw_pushed s @ [pkt] \<rparr>"
  have s: "rx_only s ?s" by (simp add: rx_only_def)
  have trans: "rx_only a b \<Longrightarrow> rx_only b c \<Longrightarrow> rx_only a c" for a b c :: "('a, 'b, 'c) vsw"
    by (simp add: rx_only_def)
  obtain r1 s1 where w: "write_rx E pkt ?s = (r1, s1)" by fastforce
  have s1: "rx_only s s1" "vw_pushed s1 = vw_pushed s @ [pkt]"
    using write_rx_facts [OF w] trans [OF s] by simp_all
  show ?thesis
    using assms w s1 s trans [OF s1(1) enqueue_simps(3)] trans [OF s enqueue_simps(3)]
    by (auto simp: push_to_guest_def Let_def split: if_splits sum.splits bool.splits)
qed

lemma push_to_guest_rx_ok:
  assumes "push_to_guest E pkt s = (r, s')" and "rx_ok s"
  shows "rx_ok s'"
proof -
  let ?s = "s\<lparr> vw_pushed := vw_pushed s @ [pkt] \<rparr>"
  have b: "length (vw_rx_backlog s) \<le> VSOCK_RX_BACKLOG_MAX"
    and o1: "subseq (vw_delivered s @ vw_rx_backlog s) (vw_pushed s)"
    using assms(2) by (simp_all add: rx_ok_def)
  have o2: "subseq (vw_delivered s @ vw_rx_backlog s @ [pkt]) (vw_pushed s @ [pkt])"
    using list_emb_append_mono [OF o1 subseq_order.order_refl [of "[pkt]"]] by simp
  have o3: "subseq (vw_delivered s @ vw_rx_backlog s) (vw_pushed s @ [pkt])"
    using o1 by (rule subseq_order.order_trans) (simp add: prefix_imp_subseq)
  show ?thesis
  proof (cases "vw_rx_backlog s = []")
    case False
    then show ?thesis using assms(1) enqueue_rx_ok [of ?s pkt] b o2 by (simp add: push_to_guest_def)
  next
    case True
    obtain r1 s1 where w: "write_rx E pkt ?s = (r1, s1)" by fastforce
    note f = write_rx_facts [OF w]
    consider e where "r1 = Inl e" | "r1 = Inr True" | "r1 = Inr False" by (cases r1) auto
    then show ?thesis
    proof cases
      case 1
      then show ?thesis using assms(1) w f b o3 True by (auto simp: push_to_guest_def rx_ok_def)
    next
      case 2
      then show ?thesis using assms(1) w f b o2 True by (simp add: push_to_guest_def rx_ok_def)
    next
      case 3
      then have "s' = vsock_enqueue_backlog pkt s1" using assms(1) w True by (simp add: push_to_guest_def)
      then show ?thesis using enqueue_rx_ok [of s1 pkt] f b o2 3 True by simp
    qed
  qed
qed

lemma drain_rx_loop_facts:
  assumes "drain_rx_loop E n d s = (r, s')" and "rx_ok s"
  shows "rx_only s s' \<and> rx_ok s'"
  using assms
proof (induction n arbitrary: d s)
  case 0
  then show ?case by (simp add: rx_only_def)
next
  case (Suc n)
  show ?case
  proof (cases "vw_rx_backlog s")
    case Nil
    then show ?thesis using Suc.prems by (simp add: rx_only_def)
  next
    case (Cons pkt rest)
    obtain r1 s1 where w: "write_rx E pkt (s\<lparr> vw_rx_backlog := rest \<rparr>) = (r1, s1)" by fastforce
    note f = write_rx_facts [OF w]
    have sub: "subseq (vw_delivered s @ rest) (vw_pushed s)"
      using Suc.prems(2) Cons unfolding rx_ok_def
      by (auto intro: subseq_order.order_trans [of _ "vw_delivered s @ pkt # rest"] list_emb_append_mono)
    consider e where "r1 = Inl e" | "r1 = Inr True" | "r1 = Inr False" by (cases r1) auto
    then show ?thesis
    proof cases
      case 1
      then show ?thesis using Suc.prems Cons w f sub by (auto simp: rx_ok_def rx_only_def)
    next
      case 2
      then have "drain_rx_loop E n True s1 = (r, s')" using Suc.prems Cons w by simp
      moreover have "rx_ok s1" using Suc.prems(2) Cons f 2 by (simp add: rx_ok_def)
      ultimately show ?thesis using Suc.IH [of True s1] f by (simp add: rx_only_def)
    next
      case 3
      then show ?thesis using Suc.prems Cons w f by (auto simp: rx_ok_def rx_only_def)
    qed
  qed
qed

text \<open>The stream from the guest: what was flushed to the socket and what waits for it are the
  payload received, in order, and the credit returned is the number of bytes flushed.\<close>

definition conn_ok :: "u32 \<Rightarrow> Conn \<Rightarrow> bool" where
  "conn_ok p c \<longleftrightarrow> cn_local_port c = p \<and> FIRST_HOST_PORT \<le> p \<and>
     cn_flushed c @ cn_to_uds c = cn_received c \<and> cn_rx_fwd_cnt c = of_nat (length (cn_flushed c))"

definition vsw_inv :: "('q, 'm, 'e) vsw \<Rightarrow> bool" where
  "vsw_inv s \<longleftrightarrow> rx_ok s \<and> finite (dom (vw_conns s)) \<and> FIRST_HOST_PORT \<le> vw_next_port s \<and>
     (\<forall>p c. vw_conns s p = Some c \<longrightarrow> conn_ok p c)"

lemma vsw_inv_set_conn:
  "vsw_inv s \<Longrightarrow> conn_ok p c \<Longrightarrow> vsw_inv (set_conn p c s)"
  by (auto simp: vsw_inv_def set_conn_def rx_ok_def)

lemma set_conn_simps [simp]:
  "vw_conns (set_conn p c s) = (vw_conns s)(p \<mapsto> c)"
  "vw_cid (set_conn p c s) = vw_cid s"
  "vw_ready (set_conn p c s) = vw_ready s"
  "vw_pushed (set_conn p c s) = vw_pushed s"
  "vw_next_port (set_conn p c s) = vw_next_port s"
  "vw_mem (set_conn p c s) = vw_mem s"
  "vw_tx_queue (set_conn p c s) = vw_tx_queue s"
  by (simp_all add: set_conn_def)

lemma vsw_inv_rx_only:
  "rx_only s s' \<Longrightarrow> rx_ok s' \<Longrightarrow> vsw_inv s \<Longrightarrow> vsw_inv s'"
  by (simp add: rx_only_def vsw_inv_def)

lemma push_to_guest_inv:
  "push_to_guest E pkt s = (r, s') \<Longrightarrow> vsw_inv s \<Longrightarrow> vsw_inv s'"
  using push_to_guest_facts push_to_guest_rx_ok by (metis vsw_inv_def vsw_inv_rx_only)

lemma send_control_inv:
  assumes "send_control E p op s = (r, s')" and "vsw_inv s"
  shows "vsw_inv s'"
proof (cases "vw_conns s p")
  case None
  then show ?thesis using assms by (simp add: send_control_def)
next
  case (Some c)
  let ?c = "if op = OP_CREDIT_UPDATE then c\<lparr> cn_last_credit_sent := cn_rx_fwd_cnt c \<rparr> else c"
  have "conn_ok p ?c" using assms(2) Some by (simp add: vsw_inv_def conn_ok_def)
  from push_to_guest_inv [OF _ vsw_inv_set_conn [OF assms(2) this]] assms(1) Some show ?thesis
    unfolding send_control_def Let_def by (simp only: option.case)
qed

lemma send_rw_inv:
  assumes "send_rw E p d s = (r, s')" and "vsw_inv s"
  shows "vsw_inv s'"
proof (cases "vw_conns s p")
  case None
  then show ?thesis using assms by (simp add: send_rw_def)
next
  case (Some c)
  let ?c = "c\<lparr> cn_credit := record_sent (of_nat (length d)) (cn_credit c) \<rparr>"
  have "conn_ok p ?c" using assms(2) Some by (simp add: vsw_inv_def conn_ok_def)
  from push_to_guest_inv [OF _ vsw_inv_set_conn [OF assms(2) this]] assms(1) Some show ?thesis
    unfolding send_rw_def Let_def by (simp only: option.case)
qed

lemma send_rst_inv: "send_rst E h s = (r, s') \<Longrightarrow> vsw_inv s \<Longrightarrow> vsw_inv s'"
  unfolding send_rst_def by (rule push_to_guest_inv)

lemma vsw_inv_drop_conn: "vsw_inv s \<Longrightarrow> vsw_inv (s\<lparr> vw_conns := (vw_conns s)(p := None) \<rparr>)"
  by (auto simp: vsw_inv_def rx_ok_def split: if_splits)

lemma close_conn_inv:
  assumes "close_conn E p b s = (r, s')" and "vsw_inv s"
  shows "vsw_inv s'"
  using assms(1) push_to_guest_inv [OF _ vsw_inv_drop_conn [OF assms(2)], of E]
    vsw_inv_drop_conn [OF assms(2)] assms(2)
  by (auto simp: close_conn_def Let_def split: option.splits if_splits)

lemma close_return_inv:
  "io_bind (close_conn E p b) (\<lambda>_. io_return x) s = (r, s') \<Longrightarrow> vsw_inv s \<Longrightarrow> vsw_inv s'"
  using close_conn_inv by (fastforce simp: io_bind_def io_return_def split: prod.splits sum.splits)

lemma flush_loop_inv:
  "flush_loop n p a s = (r, s') \<Longrightarrow> vsw_inv s \<Longrightarrow> vsw_inv s'"
proof (induction n arbitrary: a s)
  case 0
  then show ?case by simp
next
  case (Suc n)
  show ?case
  proof (cases "vw_conns s p")
    case None
    then show ?thesis using Suc.prems by simp
  next
    case (Some c)
    show ?thesis
    proof (cases "cn_to_uds c = []")
      case True
      then show ?thesis using Suc.prems Some by simp
    next
      case False
      obtain w u where wu: "sock_write (cn_to_uds c) (cn_uds c) = (w, u)" by fastforce
      have ok: "conn_ok p c" using Suc.prems Some by (simp add: vsw_inv_def)
      then have ok1: "vsw_inv (set_conn p (c\<lparr> cn_uds := u \<rparr>) s)"
        using Suc.prems(2) by (intro vsw_inv_set_conn) (simp_all add: conn_ok_def)
      consider e where "w = Inl e" | "w = Inr 0" | k where "w = Inr k" "k \<noteq> 0" by (cases w) auto
      then show ?thesis
      proof cases
        case 1
        then show ?thesis using Suc.prems Some False wu ok1 by (cases e) auto
      next
        case 2
        then show ?thesis using Suc.prems Some False wu ok1 by auto
      next
        case 3
        let ?c = "c\<lparr> cn_uds := u, cn_to_uds := drop k (cn_to_uds c),
                    cn_flushed := cn_flushed c @ take k (cn_to_uds c),
                    cn_rx_fwd_cnt := cn_rx_fwd_cnt c + of_nat k \<rparr>"
        have "k \<le> length (cn_to_uds c)"
          using wu 3 by (auto simp: sock_write_def Let_def split: list.splits sum.splits)
        then have "conn_ok p ?c" using ok by (simp add: conn_ok_def)
        then have "vsw_inv (set_conn p ?c s)" using Suc.prems(2) by (rule vsw_inv_set_conn [rotated])
        with Suc.IH [of True "set_conn p ?c s"] Suc.prems(1) Some False wu 3 show ?thesis by simp
      qed
    qed
  qed
qed

lemma flush_to_uds_inv:
  assumes "flush_to_uds E p s = (r, s')" and "vsw_inv s"
  shows "vsw_inv s'"
proof -
  let ?n = "case vw_conns s p of None \<Rightarrow> 0 | Some c \<Rightarrow> Suc (length (cn_to_uds c))"
  obtain w s1 where l: "flush_loop ?n p False s = (w, s1)" by fastforce
  have s1: "vsw_inv s1" using flush_loop_inv [OF l assms(2)] .
  obtain r2 s2 where c: "send_control E p OP_RST s1 = (r2, s2)" by fastforce
  have s2: "vsw_inv s2" using send_control_inv [OF c s1] .
  show ?thesis
  proof (cases w)
    case (Inl e)
    then have "io_bind (close_conn E p False) (\<lambda>_. io_return False) s2 = (r, s')"
      using assms(1) l c by (simp add: flush_to_uds_def)
    then show ?thesis using s2 by (rule close_return_inv)
  next
    case (Inr a)
    then show ?thesis
      using assms(1) l s1 send_control_inv [OF _ s1] by (simp add: flush_to_uds_def split: if_splits)
  qed
qed

lemma handle_guest_packet_inv:
  assumes "handle_guest_packet E hdr payload s = (r, s')" and inv: "vsw_inv s"
  shows "vsw_inv s'"
proof -
  let ?p = "dst_port hdr"
  have ready: "vsw_inv (s\<lparr> vw_ready := x \<rparr>)" for x using inv by (simp add: vsw_inv_def rx_ok_def)
  have ok: "conn_ok ?p c" if "vw_conns s ?p = Some c" for c using inv that by (simp add: vsw_inv_def)
  have upd: "vsw_inv (set_conn ?p c' s)"
    if "vw_conns s ?p = Some c" "cn_local_port c' = cn_local_port c" "cn_flushed c' = cn_flushed c"
      "cn_rx_fwd_cnt c' = cn_rx_fwd_cnt c" "cn_flushed c' @ cn_to_uds c' = cn_received c'" for c c'
    using ok [OF that(1)] that by (intro vsw_inv_set_conn [OF inv]) (simp add: conn_ok_def)
  obtain r1 s1 where rst: "send_rst E hdr s = (r1, s1)" by fastforce
  have s1: "vsw_inv s1" using send_rst_inv [OF rst inv] .
  consider (boot) "hdr_op hdr = OP_REQUEST" "?p = BOOT_PORT" | (req) "hdr_op hdr = OP_REQUEST" "?p \<noteq> BOOT_PORT"
    | (resp) "hdr_op hdr = OP_RESPONSE" | (rw) "hdr_op hdr = OP_RW" | (credit) "hdr_op hdr = OP_CREDIT_UPDATE"
    | (creq) "hdr_op hdr = OP_CREDIT_REQUEST" | (shut) "hdr_op hdr = OP_SHUTDOWN" | (reset) "hdr_op hdr = OP_RST"
    | (other) "hdr_op hdr \<notin> {OP_REQUEST, OP_RESPONSE, OP_RW, OP_CREDIT_UPDATE, OP_CREDIT_REQUEST, OP_SHUTDOWN, OP_RST}"
    by blast
  then show ?thesis
  proof cases
    case boot
    then show ?thesis using assms(1) send_rst_inv [OF _ ready] by (simp add: handle_guest_packet_def)
  next
    case req
    then show ?thesis using assms(1) send_rst_inv [OF _ inv] by (simp add: handle_guest_packet_def)
  next
    case resp
    then show ?thesis using assms(1) inv ok
      by (auto simp: handle_guest_packet_def Let_def conn_ok_def split: option.splits if_splits
          intro!: upd)
  next
    case rw
    show ?thesis
    proof (cases "vw_conns s ?p")
      case None
      then show ?thesis using assms(1) inv rw by (simp add: handle_guest_packet_def Let_def)
    next
      case (Some c)
      let ?c = "c\<lparr> cn_credit := update_peer (hdr_buf_alloc hdr) (hdr_fwd_cnt hdr) (cn_credit c),
                  cn_to_uds := cn_to_uds c @ payload, cn_received := cn_received c @ payload \<rparr>"
      have "vsw_inv (set_conn ?p ?c s)" using ok [OF Some] by (intro upd [OF Some]) (auto simp: conn_ok_def)
      with assms(1) rw Some show ?thesis
        by (auto simp: handle_guest_packet_def Let_def intro: flush_to_uds_inv)
    qed
  next
    case credit
    then show ?thesis using assms(1) inv ok
      by (auto simp: handle_guest_packet_def Let_def conn_ok_def split: option.splits if_splits
          intro!: upd)
  next
    case creq
    then show ?thesis using assms(1) inv send_control_inv [OF _ inv]
      by (simp add: handle_guest_packet_def Let_def split: if_splits)
  next
    case shut
    then show ?thesis using assms(1) rst close_return_inv [OF _ s1]
      by (simp add: handle_guest_packet_def Let_def)
  next
    case reset
    then show ?thesis using assms(1) close_return_inv [OF _ inv]
      by (simp add: handle_guest_packet_def Let_def)
  next
    case other
    then show ?thesis using assms(1) inv by (simp add: handle_guest_packet_def)
  qed
qed

lemma vsock_tx_round_inv:
  assumes "vsock_tx_round E c s = (r, s')" and "vsw_inv s"
  shows "vsw_inv s'"
proof -
  have "vsw_inv (s\<lparr> vw_tx_queue := q, vw_mem := m \<rparr>)" for q m
    using assms(2) by (simp add: vsw_inv_def rx_ok_def)
  then show ?thesis using assms handle_guest_packet_inv
    by (fastforce simp: vsock_tx_round_def Let_def split: sum.splits prod.splits option.splits)
qed

lemma vsock_process_tx_inv:
  "vsock_process_tx E n d s = Some (r, s') \<Longrightarrow> vsw_inv s \<Longrightarrow> vsw_inv s'"
proof (induction n arbitrary: d s)
  case 0
  then show ?case by simp
next
  case (Suc n)
  show ?case
  proof (cases "q_pop E (vw_tx_queue s) (vw_mem s)")
    case None
    then show ?thesis using Suc.prems by simp
  next
    case (Some cq)
    obtain c q where cq: "cq = (c, q)" by fastforce
    obtain r1 s1 where t: "vsock_tx_round E c (s\<lparr> vw_tx_queue := q \<rparr>) = (r1, s1)" by fastforce
    have "vsw_inv (s\<lparr> vw_tx_queue := q \<rparr>)" using Suc.prems(2) by (simp add: vsw_inv_def rx_ok_def)
    then have s1: "vsw_inv s1" using vsock_tx_round_inv [OF t] by blast
    show ?thesis using Suc.prems(1) Some cq t s1 Suc.IH [OF _ s1] by (cases r1) auto
  qed
qed

lemma vsw_inv_pending [simp]: "vsw_inv (s\<lparr> vw_pending := x \<rparr>) = vsw_inv s"
  by (simp add: vsw_inv_def rx_ok_def)

lemma alloc_port_inv:
  "alloc_port n s = Some (p, s') \<Longrightarrow> vsw_inv s \<Longrightarrow>
   vsw_inv s' \<and> FIRST_HOST_PORT \<le> p \<and> vw_conns s p = None \<and> vw_conns s' = vw_conns s"
proof (induction n arbitrary: s)
  case 0
  then show ?case by simp
next
  case (Suc n)
  let ?s = "s\<lparr> vw_next_port := (case checked_add (vw_next_port s) 1 of None \<Rightarrow> FIRST_HOST_PORT | Some n \<Rightarrow> n) \<rparr>"
  have "FIRST_HOST_PORT \<le> vw_next_port ?s"
    using Suc.prems(2) by (auto simp: vsw_inv_def checked_add_def word_le_nat_alt unat_word_ariths
        split: option.splits if_splits)
  then have s: "vsw_inv ?s" using Suc.prems(2) by (simp add: vsw_inv_def rx_ok_def)
  show ?case
    using Suc.prems s Suc.IH [of ?s] by (auto simp: Let_def vsw_inv_def split: if_splits)
qed

lemma poll_pending_inv:
  assumes "poll_pending E fuel i s = Some (r, s')" and "vsw_inv s"
  shows "vsw_inv s'"
proof -
  have new: "vsw_inv s'"
    if "alloc_port fuel (s\<lparr> vw_pending := x \<rparr>) = Some (p, s1)"
      and "send_control E p OP_REQUEST (set_conn p (conn_new p g u) s1) = (r, s')" for x p s1 g u
  proof -
    have "vsw_inv s1" "FIRST_HOST_PORT \<le> p" using alloc_port_inv [OF that(1)] assms(2) by simp_all
    then have "vsw_inv (set_conn p (conn_new p g u) s1)"
      by (intro vsw_inv_set_conn) (simp_all add: conn_ok_def conn_new_def)
    then show ?thesis by (rule send_control_inv [OF that(2)])
  qed
  show ?thesis
    using assms new
    by (auto simp: poll_pending_def Let_def split: prod.splits sum.splits sock_err.splits if_splits option.splits)
qed

lemma pump_to_guest_inv:
  "pump_to_guest E n p d s = Some (r, s') \<Longrightarrow> vsw_inv s \<Longrightarrow> vsw_inv s'"
proof (induction n arbitrary: d s)
  case 0
  then show ?case by simp
next
  case (Suc n)
  show ?case
  proof (cases "vw_conns s p")
    case None
    then show ?thesis using Suc.prems by simp
  next
    case (Some c)
    let ?a = "unat (min (credit_available (cn_credit c)) MAX_RW_PAYLOAD)"
    obtain w u where wu: "sock_read ?a (cn_uds c) = (w, u)" by fastforce
    let ?s = "set_conn p (c\<lparr> cn_uds := u \<rparr>) s"
    have s: "vsw_inv ?s" using Suc.prems(2) Some
      by (intro vsw_inv_set_conn) (simp_all add: vsw_inv_def conn_ok_def)
    obtain r1 s1 where c1: "send_control E p OP_SHUTDOWN ?s = (r1, s1)" by fastforce
    have s1: "vsw_inv s1" using send_control_inv [OF c1 s] .
    obtain r2 s2 where c2: "send_rw E p (projr w) ?s = (r2, s2)" by fastforce
    have s2: "vsw_inv s2" using send_rw_inv [OF c2 s] .
    show ?thesis
      using Suc.prems Some wu c1 c2 s s2 close_return_inv [OF _ s1] Suc.IH [OF _ s2]
      by (cases r2) (auto simp: Let_def split: if_splits)
  qed
qed

lemma accept_uds_inv: "vsw_inv s \<Longrightarrow> vsw_inv (accept_uds s)"
  by (auto simp: accept_uds_def vsw_inv_def rx_ok_def split: option.splits prod.splits)

lemma logged_inv: "logged d rs = (d', s') \<Longrightarrow> s' = snd rs"
  by (cases "(d, rs)" rule: logged.cases) auto

lemma serve_conn_inv:
  assumes "serve_conn E fuel p pin pout phup (d, s) = Some (d', s')" and "vsw_inv s"
  shows "vsw_inv s'"
proof -
  obtain d1 s1 where 1: "(if pout then logged d (flush_to_uds E p s) else (d, s)) = (d1, s1)" by fastforce
  have s1: "vsw_inv s1"
    using 1 assms(2) flush_to_uds_inv [of E p s "fst (flush_to_uds E p s)" "snd (flush_to_uds E p s)"]
    by (auto split: if_splits dest: logged_inv)
  obtain d2 s2 where 2: "(if pin then map_option (logged d1) (pump_to_guest E fuel p False s1) else Some (d1, s1))
      = Some (d2, s2)"
    using assms(1) 1 unfolding serve_conn_def by (auto simp: Let_def split: option.splits prod.splits)
  have s2: "vsw_inv s2"
    using 2 s1 pump_to_guest_inv [of E fuel p False s1] by (fastforce split: if_splits dest: logged_inv)
  obtain r3 s3 where 3: "close_conn E p True s2 = (r3, s3)" by fastforce
  have "vsw_inv s3" using close_conn_inv [OF 3 s2] .
  then show ?thesis using assms(1) 1 2 3 s2 unfolding serve_conn_def
    by (auto simp: Let_def split: if_splits sum.splits)
qed

lemma serve_source_inv:
  assumes "serve_source E fuel src (d, s) = Some (ctl, d', s')" and inv: "vsw_inv s"
  shows "vsw_inv s'"
proof (cases src)
  case (RxEvt ok)
  obtain r s1 where 1: "drain_rx_backlog E s = (r, s1)" by fastforce
  have "vsw_inv s1"
    using drain_rx_loop_facts [OF 1 [unfolded drain_rx_backlog_def]] inv
    by (metis vsw_inv_def vsw_inv_rx_only)
  then show ?thesis using assms RxEvt 1
    by (auto simp: serve_source_def split: if_splits dest: logged_inv)
next
  case (TxEvt ok)
  then show ?thesis using assms vsock_process_tx_inv [of E fuel False s]
    by (fastforce simp: serve_source_def split: if_splits dest: logged_inv)
next
  case Listener
  then show ?thesis using assms accept_uds_inv by (auto simp: serve_source_def)
next
  case (PendingSrc i pin)
  then show ?thesis using assms poll_pending_inv [of E fuel i s]
    by (fastforce simp: serve_source_def split: if_splits dest: logged_inv)
next
  case (ConnSrc p a b c)
  then show ?thesis using assms serve_conn_inv [of E fuel p a b c d s] by (auto simp: serve_source_def)
next
  case (PauseEvt b)
  then show ?thesis using assms by (auto simp: serve_source_def vsw_inv_def rx_ok_def split: if_splits)
qed

lemma serve_sources_inv:
  "serve_sources E fuel srcs (d, s) = Some (ctl, d', s') \<Longrightarrow> vsw_inv s \<Longrightarrow> vsw_inv s'"
proof (induction srcs arbitrary: d s)
  case Nil
  then show ?case by simp
next
  case (Cons src srcs)
  then obtain ctl1 d1 s1 where 1: "serve_source E fuel src (d, s) = Some (ctl1, d1, s1)"
    by (auto split: option.splits)
  have "vsw_inv s1" using serve_source_inv [OF 1 Cons.prems(2)] .
  then show ?case using Cons.IH [of d1 s1] Cons.prems(1) 1 by (auto split: if_splits)
qed

lemma vsock_iteration_inv:
  assumes "vsock_iteration E fuel srcs s = Some (ctl, s')" and "vsw_inv s"
  shows "vsw_inv s'"
proof -
  obtain d1 s1 where 1: "serve_sources E fuel srcs (False, s) = Some (ctl, d1, s1)"
    and s': "s' = (if d1 then s1\<lparr> vw_intr := snd (signal_used_queue E (vw_intr s1)) \<rparr> else s1)"
    using assms(1) by (auto simp: vsock_iteration_def split: option.splits)
  have "vsw_inv s1" using serve_sources_inv [OF 1 assms(2)] .
  then show ?thesis by (simp add: s' vsw_inv_def rx_ok_def)
qed

text \<open>The states of the worker: iterations of the poll loop on whatever is ready, while the
  guest changes memory and rings at any time.\<close>

inductive vsock_reach :: "('q, 'm, 'e) venv \<Rightarrow> ('q, 'm, 'e) vsw \<Rightarrow> ('q, 'm, 'e) vsw \<Rightarrow> bool"
  for E s0 where
  Start: "vsock_reach E s0 s0"
| Iterate: "vsock_reach E s0 s \<Longrightarrow> vsock_iteration E fuel srcs s = Some (ctl, s') \<Longrightarrow> vsock_reach E s0 s'"
| Guest: "vsock_reach E s0 s \<Longrightarrow>
    vsock_reach E s0 (s\<lparr> vw_mem := m, vw_rx_queue := rxq, vw_tx_queue := txq \<rparr>)"

lemma vsock_reach_inv: "vsock_reach E s0 s \<Longrightarrow> vsw_inv s0 \<Longrightarrow> vsw_inv s"
proof (induction rule: vsock_reach.induct)
  case (Guest s m rxq txq)
  then show ?case by (simp add: vsw_inv_def rx_ok_def)
qed (auto intro: vsock_iteration_inv)

lemma vsw_start_inv: "vsw_inv (vsw_start c rx tx m i r l p)"
  by (simp add: vsw_inv_def vsw_start_def rx_ok_def VSOCK_RX_BACKLOG_MAX_def)

text \<open>Sending within the credit uses it up exactly.\<close>

lemma credit_available_record_sent:
  assumes "n \<le> credit_available c"
  shows "credit_available (record_sent n c) = credit_available c - n"
proof -
  let ?f = "tx_cnt c - peer_fwd_cnt c"
  have b: "unat n \<le> unat (peer_buf_alloc c) - unat ?f"
    using assms by (simp add: credit_available_def word_le_nat_alt unat_rust)
  have "unat (?f + n) = unat ?f + unat n" if "n \<noteq> 0"
  proof (rule unat_add_lem [THEN iffD1])
    have "unat n \<noteq> 0" using that by (simp add: unat_eq_0)
    then show "unat ?f + unat n < 2 ^ LENGTH(32)"
      using b unsigned_less [of "peer_buf_alloc c", where 'a = nat] by linarith
  qed
  then have f: "unat (tx_cnt c + n - peer_fwd_cnt c) = unat ?f + unat n"
    by (cases "n = 0") (simp_all add: algebra_simps)
  have "unat (credit_available c - n) = unat (credit_available c) - unat n"
    using assms by (simp add: unat_sub)
  then show ?thesis
    using b f unfolding word_unat_eq_iff
    by (simp add: credit_available_def record_sent_def unat_rust)
qed

text \<open>The ports the allocator tries: it counts up and wraps to the first host port.\<close>

definition next_host_port :: "u32 \<Rightarrow> u32" where
  "next_host_port p = (case checked_add p 1 of None \<Rightarrow> FIRST_HOST_PORT | Some n \<Rightarrow> n)"

lemma alloc_port_None:
  "alloc_port n s = None \<Longrightarrow> FIRST_HOST_PORT \<le> vw_next_port s \<Longrightarrow> i < n \<Longrightarrow>
   (next_host_port ^^ i) (vw_next_port s) \<in> dom (vw_conns s)"
proof (induction n arbitrary: s i)
  case 0
  then show ?case by simp
next
  case (Suc n)
  let ?s = "s\<lparr> vw_next_port := next_host_port (vw_next_port s) \<rparr>"
  have ge: "FIRST_HOST_PORT \<le> next_host_port (vw_next_port s)"
    using Suc.prems(2) by (auto simp: next_host_port_def checked_add_def word_le_nat_alt unat_word_ariths
        split: option.splits if_splits)
  have "vw_next_port s \<noteq> BOOT_PORT"
    using Suc.prems(2) by (auto simp: FIRST_HOST_PORT_def BOOT_PORT_def)
  then have *: "alloc_port n ?s = None" "vw_next_port s \<in> dom (vw_conns s)"
    using Suc.prems(1) by (auto simp: Let_def next_host_port_def split: if_splits)
  show ?case
  proof (cases i)
    case 0
    then show ?thesis using * by simp
  next
    case (Suc j)
    then show ?thesis using Suc.IH [OF *(1), of j] ge Suc.prems(3) by (simp add: funpow_swap1)
  qed
qed

lemma unat_next_host_port:
  assumes "FIRST_HOST_PORT \<le> p"
  shows "unat (next_host_port p) = 2 ^ 30 + (unat p - 2 ^ 30 + 1) mod (3 * 2 ^ 30)"
proof -
  have p: "2 ^ 30 \<le> unat p" "unat p < 2 ^ 32"
    using assms unsigned_less [of p, where 'a = nat] by (simp_all add: FIRST_HOST_PORT_def word_le_nat_alt)
  show ?thesis
  proof (cases "unat p = 2 ^ 32 - 1")
    case True
    then show ?thesis by (simp add: next_host_port_def checked_add_def FIRST_HOST_PORT_def)
  next
    case False
    then have "(unat p - 2 ^ 30 + 1) mod (3 * 2 ^ 30) = unat p - 2 ^ 30 + 1" using p by simp
    then show ?thesis using False p
      by (simp add: next_host_port_def checked_add_def unat_word_ariths)
  qed
qed

lemma unat_next_host_ports:
  assumes "FIRST_HOST_PORT \<le> p"
  shows "FIRST_HOST_PORT \<le> (next_host_port ^^ i) p \<and>
         unat ((next_host_port ^^ i) p) = 2 ^ 30 + (unat p - 2 ^ 30 + i) mod (3 * 2 ^ 30)"
proof (induction i)
  case 0
  have "unat p - 2 ^ 30 < 3 * 2 ^ 30" "2 ^ 30 \<le> unat p"
    using assms unsigned_less [of p, where 'a = nat] by (simp_all add: FIRST_HOST_PORT_def word_le_nat_alt)
  then show ?case using assms by simp
next
  case (Suc i)
  let ?q = "(next_host_port ^^ i) p"
  have "unat (next_host_port ?q) = 2 ^ 30 + ((unat p - 2 ^ 30 + i) mod (3 * 2 ^ 30) + 1) mod (3 * 2 ^ 30)"
    using unat_next_host_port [of ?q] Suc by simp
  then have "unat (next_host_port ?q) = 2 ^ 30 + (unat p - 2 ^ 30 + Suc i) mod (3 * 2 ^ 30)"
    by (simp only: mod_add_left_eq) simp
  then show ?case by (simp add: FIRST_HOST_PORT_def word_le_nat_alt)
qed

lemma next_host_ports_inj:
  assumes "FIRST_HOST_PORT \<le> p" and "n \<le> 3 * 2 ^ 30"
  shows "inj_on (\<lambda>i. (next_host_port ^^ i) p) {..<n}"
proof (rule linorder_inj_onI)
  fix i j :: nat
  assume ij: "i < j" "i \<in> {..<n}" "j \<in> {..<n}"
  show "(next_host_port ^^ i) p \<noteq> (next_host_port ^^ j) p"
  proof
    assume "(next_host_port ^^ i) p = (next_host_port ^^ j) p"
    then have "(unat p - 2 ^ 30 + j) mod (3 * 2 ^ 30) = (unat p - 2 ^ 30 + i) mod (3 * 2 ^ 30)"
      using unat_next_host_ports [OF assms(1), of i] unat_next_host_ports [OF assms(1), of j] by simp
    then have "(3 * 2 ^ 30 :: nat) dvd j - i"
      using ij(1) by (subst (asm) mod_eq_dvd_iff_nat) simp_all
    then show False using ij assms(2) by (auto dest!: dvd_imp_le)
  qed
qed auto

lemma sock_read_length: "sock_read n u = (Inr bs, u') \<Longrightarrow> length bs \<le> n"
  by (auto simp: sock_read_def split: list.splits sum.splits if_splits)

lemma send_control_pushed:
  assumes "send_control E port op s = (r, s')" and "vw_conns s port = Some c"
  shows "\<exists>h. vw_pushed s' = vw_pushed s @ [hdr_to_bytes h]"
  using assms push_to_guest_facts unfolding send_control_def Let_def option.case
  by (fastforce simp: set_conn_def)

lemma send_rw_pushed:
  assumes "send_rw E port data s = (r, s')" and "vw_conns s port = Some c"
  shows "\<exists>h. vw_pushed s' = vw_pushed s @ [hdr_to_bytes h @ data]"
    and "vw_conns s' port = Some (c\<lparr> cn_credit := record_sent (of_nat (length data)) (cn_credit c) \<rparr>)"
proof -
  let ?s = "set_conn port (c\<lparr> cn_credit := record_sent (of_nat (length data)) (cn_credit c) \<rparr>) s"
  have "push_to_guest E (hdr_to_bytes (conn_header (vw_cid s) OP_RW (of_nat (length data)) c) @ data) ?s = (r, s')"
    using assms by (simp add: send_rw_def Let_def)
  from push_to_guest_facts [OF this]
  show "\<exists>h. vw_pushed s' = vw_pushed s @ [hdr_to_bytes h @ data]"
    and "vw_conns s' port = Some (c\<lparr> cn_credit := record_sent (of_nat (length data)) (cn_credit c) \<rparr>)"
    by (auto simp: rx_only_def)
qed

lemma close_return_pushed:
  "io_bind (close_conn E port False) (\<lambda>_. io_return x) s = (r, s') \<Longrightarrow> vw_pushed s' = vw_pushed s"
  by (auto simp: io_bind_def io_return_def close_conn_def split: option.splits)

text \<open>The readiness signal changes only on the boot request.\<close>

lemma push_ready [simp]: "vw_ready (snd (push_to_guest E pkt s)) = vw_ready s"
  using push_to_guest_facts [of E pkt s] by (metis prod.collapse rx_only_def)

lemma send_ready [simp]:
  "vw_ready (snd (send_rst E hdr s)) = vw_ready s"
  "vw_ready (snd (send_control E port op s)) = vw_ready s"
  "vw_ready (snd (close_conn E port b s)) = vw_ready s"
  by (simp_all add: send_rst_def send_control_def close_conn_def Let_def split: option.splits)

lemma close_return_ready [simp]:
  "vw_ready (snd (io_bind (close_conn E port b) (\<lambda>_. io_return x) s)) = vw_ready s"
proof -
  obtain r1 s1 where c: "close_conn E port b s = (r1, s1)" by fastforce
  then have "vw_ready s1 = vw_ready s" by (metis send_ready(3) snd_conv)
  with c show ?thesis by (cases r1) (simp_all add: io_bind_def io_return_def)
qed

lemma flush_loop_ready [simp]: "vw_ready (snd (flush_loop n port a s)) = vw_ready s"
  by (induction n port a s rule: flush_loop.induct)
    (auto split: option.splits prod.splits sum.splits sock_err.splits)

lemma flush_to_uds_ready [simp]: "vw_ready (snd (flush_to_uds E port s)) = vw_ready s"
proof -
  let ?n = "case vw_conns s port of None \<Rightarrow> 0 | Some c \<Rightarrow> Suc (length (cn_to_uds c))"
  obtain w s1 where l: "flush_loop ?n port False s = (w, s1)" by fastforce
  then have "vw_ready s1 = vw_ready s" using flush_loop_ready [of ?n port False s] by simp
  with l show ?thesis by (cases w) (simp_all add: flush_to_uds_def Let_def)
qed

text \<open>The handshake line of a host process.\<close>

lemma decimal_ascii: "c \<in> set (dec_of_nat n) \<Longrightarrow> \<not> is_ascii_ws c \<and> (of_char c :: nat) < 128 \<and> of_char c \<noteq> (10 :: nat) \<and> of_char c \<noteq> (13 :: nat)"
  using dec_of_nat_digits [of n] by (auto simp: is_ascii_ws_def)

lemma parse_connect_line:
  "parse_connect (bytes_of (''CONNECT '' @ dec_of_nat (unat p) @ [CHR 0x0A]) @ rest) =
     Some (length (dec_of_nat (unat p)) + 9, Some p)"
proof -
  let ?d = "dec_of_nat (unat p)" and ?v = "''CONNECT ''"
  define line where "line = bytes_of (?v @ ?d)"
  have ascii: "b < 0x80 \<and> b \<noteq> 10 \<and> b \<noteq> 13" if b: "b \<in> set line" for b
  proof -
    obtain c where c: "c \<in> set (?v @ ?d)" "b = of_nat (of_char c)"
      using b unfolding line_def bytes_of_def set_map by blast
    have k: "(of_char c :: nat) < 128" "of_char c \<noteq> (10 :: nat)" "of_char c \<noteq> (13 :: nat)"
      using c(1) decimal_ascii by auto
    have "unat b = of_char c" using k(1) unfolding c(2) by (simp only: unat_of_nat) simp
    then show ?thesis using k by (auto simp: word_less_nat_alt)
  qed
  have nl: "newline_pos (line @ 10 # rest) = length line"
    using ascii by (simp add: newline_pos_def takeWhile_append2)
  have "line \<noteq> []" by (simp add: line_def bytes_of_def)
  then have cr: "last line \<noteq> 13" using ascii last_in_set by blast
  have utf: "utf8_valid line" using ascii by (intro utf8_valid_ascii) blast
  have "text_of line = ''CONNECT'' @ CHR '' '' # ?d" by (simp add: line_def)
  moreover have "\<forall>c \<in> set ''CONNECT''. \<not> is_ascii_ws c" "is_ascii_ws (CHR '' '')"
    by (simp_all add: is_ascii_ws_def)
  ultimately have words: "split_ascii_whitespace (text_of line) = [''CONNECT'', ?d]"
    using split_ascii_whitespace_Cons [of "''CONNECT''" "CHR '' ''" ?d] split_ascii_whitespace_word [of ?d]
      decimal_ascii by auto
  have low: "map ascii_lower ''CONNECT'' = ''connect''" by code_simp
  have buf: "bytes_of (?v @ ?d @ [CHR 0x0A]) @ rest = line @ 10 # rest"
    by (simp add: line_def bytes_of_def)
  have "parse_uint (2 ^ 32) ?d = Some (unat p)"
    using unsigned_less [of p, where 'a = nat] by simp
  moreover have "length line = length ?d + 8" by (simp add: line_def)
  ultimately show ?thesis
    unfolding buf parse_connect_def Let_def nl using utf words low by (simp add: cr)
qed


section \<open>Properties\<close>

text \<open>C5: The worker keeps both streams in order: in every state it can reach, whatever the
  guest does to memory and rings and whatever the host sockets answer, at most 256 packets
  are buffered, the packets placed in receive buffers followed by the buffered ones are a
  subsequence of the packets pushed, and on every connection the bytes flushed to the host
  socket followed by the waiting ones are exactly the payload received from the guest,
  while the credit returned to the guest counts exactly the bytes flushed, modulo
  \<open>2^32\<close>.\<close>

theorem vsock_streams_in_order:
  assumes "vsock_reach E (vsw_start c rx tx m i r l p) s"
  shows "length (vw_rx_backlog s) \<le> VSOCK_RX_BACKLOG_MAX \<and>
     subseq (vw_delivered s @ vw_rx_backlog s) (vw_pushed s) \<and>
     (\<forall>port cn. vw_conns s port = Some cn \<longrightarrow>
        cn_local_port cn = port \<and> cn_flushed cn @ cn_to_uds cn = cn_received cn \<and>
        cn_rx_fwd_cnt cn = of_nat (length (cn_flushed cn)))"
  using vsock_reach_inv [OF assms vsw_start_inv] by (simp add: vsw_inv_def rx_ok_def conn_ok_def)

text \<open>C18: A host process cannot make the device overrun the guest: pumping an established
  connection ends, and however many bytes the socket holds and whatever the rings do, the
  payload it pushes is at most the credit the guest has granted, in packets of at most 4096
  bytes of payload.\<close>

theorem vsock_pump_within_credit:
  assumes "vw_conns s port = Some c" and "unat (credit_available (cn_credit c)) < fuel"
  shows "\<exists>r s' pkts. pump_to_guest E fuel port d s = Some (r, s') \<and> vw_pushed s' = vw_pushed s @ pkts \<and>
     sum_list (map (\<lambda>pkt. length pkt - VSOCK_HDR_LEN) pkts) \<le> unat (credit_available (cn_credit c)) \<and>
     (\<forall>pkt \<in> set pkts. length pkt \<le> VSOCK_HDR_LEN + unat MAX_RW_PAYLOAD)"
  using assms
proof (induction fuel arbitrary: s c d)
  case 0
  then show ?case by simp
next
  case (Suc fuel)
  let ?a = "unat (min (credit_available (cn_credit c)) MAX_RW_PAYLOAD)"
  obtain w u where wu: "sock_read ?a (cn_uds c) = (w, u)" by fastforce
  let ?s = "set_conn port (c\<lparr> cn_uds := u \<rparr>) s"
  have conn: "vw_conns ?s port = Some (c\<lparr> cn_uds := u \<rparr>)" by simp
  consider (idle) "cn_state c \<noteq> Established \<or> ?a = 0" | (block) "cn_state c = Established" "?a \<noteq> 0" "w = Inl WouldBlock"
    | (close) "cn_state c = Established" "?a \<noteq> 0" "w \<noteq> Inl WouldBlock" "w = Inr [] \<or> \<not> is_ok w"
    | (send) bs where "cn_state c = Established" "?a \<noteq> 0" "w = Inr bs" "bs \<noteq> []"
    by (cases w) auto
  then show ?case
  proof cases
    case idle
    then show ?thesis using Suc.prems by (auto intro: exI [of _ "[]"])
  next
    case block
    then show ?thesis using Suc.prems wu by (auto simp: Let_def intro: exI [of _ "[]"])
  next
    case close
    obtain r1 s1 where c1: "send_control E port OP_SHUTDOWN ?s = (r1, s1)" by fastforce
    obtain r2 s2 where c2: "io_bind (close_conn E port False) (\<lambda>_. io_return True) s1 = (r2, s2)" by fastforce
    obtain h where "vw_pushed s2 = vw_pushed s @ [hdr_to_bytes h]"
      using send_control_pushed [OF c1 conn] close_return_pushed [OF c2] by auto
    moreover have "pump_to_guest E (Suc fuel) port d s = Some (r2, s2)"
      using Suc.prems(1) wu close c1 c2 by (simp add: Let_def)
    ultimately show ?thesis by fastforce
  next
    case send
    obtain r1 s1 where c1: "send_rw E port bs ?s = (r1, s1)" by fastforce
    obtain h where h: "vw_pushed s1 = vw_pushed s @ [hdr_to_bytes h @ bs]"
      using send_rw_pushed(1) [OF c1 conn] by auto
    define c' where "c' = c\<lparr> cn_uds := u, cn_credit := record_sent (of_nat (length bs)) (cn_credit c) \<rparr>"
    have conn1: "vw_conns s1 port = Some c'" using send_rw_pushed(2) [OF c1 conn] by (simp add: c'_def)
    have len: "length bs \<le> unat (credit_available (cn_credit c))" "length bs \<le> unat MAX_RW_PAYLOAD"
      using sock_read_length [of ?a "cn_uds c" bs u] wu send by (simp_all add: unat_min_word)
    then have w: "unat (of_nat (length bs) :: u32) = length bs"
      using unsigned_less [of "credit_available (cn_credit c)", where 'a = nat] by (simp only: unat_of_nat) simp
    then have "credit_available (cn_credit c') = credit_available (cn_credit c) - of_nat (length bs)"
      using len by (simp add: c'_def credit_available_record_sent word_le_nat_alt)
    then have credit: "unat (credit_available (cn_credit c')) = unat (credit_available (cn_credit c)) - length bs"
      using w len by (simp add: unat_sub word_le_nat_alt)
    have run: "pump_to_guest E (Suc fuel) port d s =
        (case r1 of Inl e \<Rightarrow> Some (Inl e, s1) | Inr b \<Rightarrow> pump_to_guest E fuel port (d \<or> b) s1)"
      using Suc.prems(1) wu send c1 by (simp add: Let_def)
    show ?thesis
    proof (cases r1)
      case (Inl e)
      then show ?thesis using run h len by fastforce
    next
      case (Inr b)
      have "unat (credit_available (cn_credit c')) < fuel"
        using credit Suc.prems(2) send(4) len by (cases bs) auto
      from Suc.IH [OF conn1 this, of "d \<or> b"] obtain r s' pkts where
        IH: "pump_to_guest E fuel port (d \<or> b) s1 = Some (r, s')" "vw_pushed s' = vw_pushed s1 @ pkts"
        "sum_list (map (\<lambda>pkt. length pkt - VSOCK_HDR_LEN) pkts) \<le> unat (credit_available (cn_credit c'))"
        "\<forall>pkt \<in> set pkts. length pkt \<le> VSOCK_HDR_LEN + unat MAX_RW_PAYLOAD" by blast
      show ?thesis
        using run Inr IH h len credit
        by (intro exI [of _ r] exI [of _ s'] exI [of _ "(hdr_to_bytes h @ bs) # pkts"]) auto
    qed
  qed
qed

text \<open>C37: Every connection gets a port of its own: on every state the worker can reach (the
  invariant \<open>vsw_inv\<close>), the allocator returns within one try more than there are
  connections, and the port it returns is not in use, is not the boot port, and lies in the
  high range reserved for the host.\<close>

theorem vsock_alloc_port_fresh:
  assumes "vsw_inv s" and "card (dom (vw_conns s)) < fuel" and "fuel \<le> 3 * 2 ^ 30"
  shows "\<exists>p s'. alloc_port fuel s = Some (p, s') \<and> vw_conns s p = None \<and> p \<noteq> BOOT_PORT \<and>
     FIRST_HOST_PORT \<le> p \<and> vw_conns s' = vw_conns s \<and> vsw_inv s'"
proof (cases "alloc_port fuel s")
  case None
  have ge: "FIRST_HOST_PORT \<le> vw_next_port s" using assms(1) by (simp add: vsw_inv_def)
  have "(\<lambda>i. (next_host_port ^^ i) (vw_next_port s)) ` {..<fuel} \<subseteq> dom (vw_conns s)"
    using alloc_port_None [OF None ge] by blast
  then have "fuel \<le> card (dom (vw_conns s))"
    using card_inj_on_le [OF next_host_ports_inj [OF ge assms(3)]] assms(1) by (simp add: vsw_inv_def)
  with assms(2) show ?thesis by simp
next
  case (Some ps)
  obtain p s' where ps: "ps = (p, s')" by fastforce
  have "FIRST_HOST_PORT \<le> p \<Longrightarrow> p \<noteq> BOOT_PORT" by (auto simp: FIRST_HOST_PORT_def BOOT_PORT_def)
  with alloc_port_inv [of fuel s p s'] Some ps assms(1) show ?thesis by auto
qed


text \<open>C33: A full backlog corrupts the host-to-guest stream: when the guest posts no receive
  buffers and 256 packets are waiting, pushing one more succeeds and silently discards the
  oldest packet, stream data included, whose bytes stay charged to the credit of their
  connection; the connection is not reset.\<close>

theorem vsock_backlog_drops_stream_data:
  assumes "vw_rx_backlog s = old # rest" and "length (vw_rx_backlog s) = VSOCK_RX_BACKLOG_MAX"
  shows "\<exists>s'. push_to_guest E pkt s = (Inr False, s') \<and> vw_rx_backlog s' = rest @ [pkt] \<and>
     vw_delivered s' = vw_delivered s \<and> vw_conns s' = vw_conns s"
  using assms by (simp add: push_to_guest_def vsock_enqueue_backlog_def)


section \<open>Witnesses\<close>

text \<open>A worker with a boot request on its transmit queue and one receive buffer, and one with
  an established connection whose socket holds five bytes.\<close>

definition boot_hdr :: VsockHeader where
  "boot_hdr = \<lparr> src_cid = 3, dst_cid = 2, src_port = 7, dst_port = 1024, hdr_len = 0, hdr_type = 1,
     hdr_op = 1, hdr_flags = 0, hdr_buf_alloc = 0, hdr_fwd_cnt = 0 \<rparr>"

definition tx_ring :: ringq where
  "tx_ring = \<lparr> rq_state = fresh_state 256, rq_avail = [\<lparr> c_head = 4,
     c_descs = [\<lparr> d_addr = 0, d_len = 44, d_write_only = False \<rparr>] \<rparr>], rq_used = [] \<rparr>"

definition rx_ring :: ringq where
  "rx_ring = \<lparr> rq_state = fresh_state 256, rq_avail = [\<lparr> c_head = 5,
     c_descs = [\<lparr> d_addr = 100, d_len = 64, d_write_only = True \<rparr>] \<rparr>], rq_used = [] \<rparr>"

definition vsw_boot :: "(ringq, page, nat) vsw" where
  "vsw_boot = vsw_start 3 rx_ring tx_ring (page_of (hdr_to_bytes boot_hdr)) (interrupt_new 0)
     \<lparr> vr_flag = False, vr_evt = 0 \<rparr> None False"

definition vsw_conn :: "(ringq, page, nat) vsw" where
  "vsw_conn = set_conn FIRST_HOST_PORT
     ((conn_new FIRST_HOST_PORT 1025 \<lparr> so_reads = [Inr [1, 2, 3], Inr [4, 5]], so_writes = [], so_out = [] \<rparr>)
        \<lparr> cn_state := Established, cn_credit := \<lparr> peer_buf_alloc = 4, peer_fwd_cnt = 0, tx_cnt = 0 \<rparr> \<rparr>) vsw_boot"

lemma gather_boot: "gather_pkt ring_env (page_of (hdr_to_bytes boot_hdr)) (c_descs (hd (rq_avail tx_ring)))
   = Inr (hdr_to_bytes boot_hdr)"
proof -
  have "page_read (page_of bs) 0 (length bs) = bs" if "length bs < 2 ^ 64" for bs
    by (rule nth_equalityI) (use that in \<open>simp_all add: page_read_def page_of_def unat_of_nat\<close>)
  from this [of "hdr_to_bytes boot_hdr"] show ?thesis
    by (simp add: tx_ring_def ring_env_def in_page_def VSOCK_HDR_LEN_def)
qed

theorem vsock_streams_in_order_witness:
  "\<exists>s'. vsock_iteration ring_env (Suc (Suc 0)) [TxEvt True] vsw_boot = Some (Continue, s') \<and>
     length (vw_rx_backlog s') \<le> VSOCK_RX_BACKLOG_MAX \<and>
     subseq (vw_delivered s' @ vw_rx_backlog s') (vw_pushed s') \<and> vw_pushed s' \<noteq> []"
proof -
  let ?s = "vsw_boot\<lparr> vw_tx_queue := tx_ring\<lparr> rq_avail := [], rq_used := [(4, 0)] \<rparr> \<rparr>"
  let ?rst = "hdr_to_bytes (rst_header 3 1024 7)"
  obtain r s1 where p: "push_to_guest ring_env ?rst (?s\<lparr> vw_ready := mark_ready ring_env (vw_ready ?s) \<rparr>) = (r, s1)"
    by fastforce
  note f = push_to_guest_facts [OF p]
  have h: "handle_guest_packet ring_env boot_hdr [] ?s = (r, s1)"
    using p by (simp add: handle_guest_packet_def send_rst_def boot_hdr_def BOOT_PORT_def)
  have "vsock_tx_round ring_env (hd (rq_avail tx_ring)) (vsw_boot\<lparr> vw_tx_queue := tx_ring\<lparr> rq_avail := [] \<rparr> \<rparr>) = (r, s1)"
    using h gather_boot hdr_parse_to_bytes [of boot_hdr "[]"]
    by (simp add: vsock_tx_round_def vsw_boot_def vsw_start_def ring_env_def tx_ring_def)
  moreover have "q_pop ring_env (vw_tx_queue vsw_boot) (vw_mem vsw_boot) =
      Some (hd (rq_avail tx_ring), tx_ring\<lparr> rq_avail := [] \<rparr>)"
    by (simp add: vsw_boot_def vsw_start_def ring_env_def tx_ring_def)
  moreover have "q_pop ring_env (vw_tx_queue s1) (vw_mem s1) = None"
    using f by (simp add: rx_only_def ring_env_def)
  ultimately obtain r2 where "vsock_process_tx ring_env (Suc (Suc 0)) False vsw_boot = Some (r2, s1)"
    by (cases r) simp_all
  then have "\<exists>d. serve_sources ring_env (Suc (Suc 0)) [TxEvt True] (False, vsw_boot) = Some (Continue, d, s1)"
    by (cases r2) (auto simp add: serve_source_def simp del: vsock_process_tx.simps)
  then obtain d where "serve_sources ring_env (Suc (Suc 0)) [TxEvt True] (False, vsw_boot) = Some (Continue, d, s1)" ..
  then obtain s' where it: "vsock_iteration ring_env (Suc (Suc 0)) [TxEvt True] vsw_boot = Some (Continue, s')"
    "vw_pushed s' = vw_pushed s1"
    by (simp add: vsock_iteration_def)
  have "vsock_reach ring_env (vsw_start 3 rx_ring tx_ring (page_of (hdr_to_bytes boot_hdr)) (interrupt_new 0)
     \<lparr> vr_flag = False, vr_evt = 0 \<rparr> None False) s'"
    using vsock_reach.Iterate [OF vsock_reach.Start it(1)] by (simp add: vsw_boot_def)
  from vsock_streams_in_order [OF this] it f show ?thesis by simp
qed

theorem vsock_pump_within_credit_witness:
  "\<exists>r s' pkts. pump_to_guest ring_env 5 FIRST_HOST_PORT False vsw_conn = Some (r, s') \<and>
     vw_pushed s' = pkts \<and> sum_list (map (\<lambda>pkt. length pkt - VSOCK_HDR_LEN) pkts) \<le> 4"
proof -
  have "vw_conns vsw_conn FIRST_HOST_PORT = Some ((conn_new FIRST_HOST_PORT 1025
        \<lparr> so_reads = [Inr [1, 2, 3], Inr [4, 5]], so_writes = [], so_out = [] \<rparr>)
        \<lparr> cn_state := Established, cn_credit := \<lparr> peer_buf_alloc = 4, peer_fwd_cnt = 0, tx_cnt = 0 \<rparr> \<rparr>)"
    by (simp add: vsw_conn_def)
  from vsock_pump_within_credit [OF this, of 5 ring_env False] show ?thesis
    by (auto simp: credit_available_def saturating_sub_def vsw_conn_def vsw_boot_def vsw_start_def)
qed

theorem vsock_alloc_port_fresh_witness:
  "\<exists>p s'. alloc_port 2 vsw_conn = Some (p, s') \<and> vw_conns vsw_conn p = None \<and> p \<noteq> BOOT_PORT \<and>
     FIRST_HOST_PORT \<le> p \<and> vw_conns s' = vw_conns vsw_conn \<and> vsw_inv s'"
proof -
  have "vsw_inv vsw_boot" unfolding vsw_boot_def by (rule vsw_start_inv)
  then have "vsw_inv vsw_conn" unfolding vsw_conn_def
    by (rule vsw_inv_set_conn) (simp add: conn_ok_def conn_new_def)
  moreover have "card (dom (vw_conns vsw_conn)) < 2"
    by (simp add: vsw_conn_def vsw_boot_def vsw_start_def)
  ultimately show ?thesis using vsock_alloc_port_fresh [of vsw_conn 2] by simp
qed


theorem vsock_backlog_drops_stream_data_witness:
  "\<exists>s'. push_to_guest ring_env [9] (vsw_boot\<lparr> vw_rx_backlog := [7] # replicate 255 [8] \<rparr>) = (Inr False, s') \<and>
     vw_rx_backlog s' = replicate 255 [8] @ [[9]]"
  using vsock_backlog_drops_stream_data [of "vsw_boot\<lparr> vw_rx_backlog := [7] # replicate 255 [8] \<rparr>"
      "[7]" "replicate 255 [8]" ring_env "[9]"]
  by (auto simp: VSOCK_RX_BACKLOG_MAX_def)

end
