(* ===== verification/Machine_Boot.thy ===== *)
theory Machine_Boot
  imports Text_Codec Vcpu Virtio_Block Virtio_Net Virtio_Balloon Virtio_Vsock
begin

text \<open>
  Building, booting and resuming a machine: the parts of \<open>crates/mm-vmm/src/machine.rs\<close> that
  open the VM, wire the devices to the bus, load the kernel, configure the vCPUs and start
  their threads, and the restore path that rebuilds the same wiring from a saved state.  The
  KVM calls on a VM are the fields of a record \<open>kvm_env\<close> over an abstract VM handle, the
  host's files and TAP devices those of \<open>host_env\<close>.
\<close>

section \<open>Boxed devices\<close>

datatype ('q, 'e) AnyDevice = BlockD "'q Block" | NetD "'q Net" | VsockD "('q, 'e) Vsock" | BalloonD "'q Balloon"

text \<open>What the operating system answers when a device is created or activated.\<close>

record host_env =
  h_open_image :: "string \<Rightarrow> bool \<Rightarrow> string + hfile"
  h_tun_open :: "string + nat"
  h_tun_setiff :: "nat \<Rightarrow> string \<Rightarrow> u16 \<Rightarrow> string + tap"
  h_listener_nonblock :: "string + unit"
  h_tap_nonblock :: "string + unit"
  h_net_epoll :: "string + unit"

definition box_io :: "('d \<Rightarrow> 'a) \<Rightarrow> (VmmError + unit) \<times> 'd \<Rightarrow> (VmmError + unit) \<times> 'a" where
  "box_io box r = (fst r, box (snd r))"

fun any_activate ::
  "('q, 'm, 'e) venv \<Rightarrow> host_env \<Rightarrow> 'q list \<Rightarrow> 'e list \<Rightarrow> (('q, 'e) AnyDevice, unit) io" where
  "any_activate E H qs evts (BlockD b) = box_io BlockD (block_activate E qs evts b)"
| "any_activate E H qs evts (NetD n) = box_io NetD (net_activate E (h_tap_nonblock H) (h_net_epoll H) qs evts n)"
| "any_activate E H qs evts (VsockD v) = box_io VsockD (vsock_activate E (h_listener_nonblock H) qs evts v)"
| "any_activate E H qs evts (BalloonD b) = box_io BalloonD (balloon_activate E qs evts b)"

definition any_vtable ::
  "('q, 'm, 'e) venv \<Rightarrow> host_env \<Rightarrow> (('q, 'e) AnyDevice, 'q, 'e) vtable" where
  "any_vtable E H =
     \<lparr> v_device_type = (\<lambda>d. case d of BlockD _ \<Rightarrow> TYPE_BLOCK | NetD _ \<Rightarrow> TYPE_NET | VsockD _ \<Rightarrow> TYPE_VSOCK
                              | BalloonD _ \<Rightarrow> TYPE_BALLOON),
       v_queue_max_sizes = (\<lambda>d. case d of BlockD b \<Rightarrow> bk_queue_max_sizes b | NetD n \<Rightarrow> nt_queue_max_sizes n
                              | VsockD v \<Rightarrow> vs_queue_max_sizes v | BalloonD b \<Rightarrow> bl_queue_max_sizes b),
       v_features = (\<lambda>d. case d of BlockD b \<Rightarrow> block_features b | NetD n \<Rightarrow> net_features n
                              | VsockD v \<Rightarrow> vsock_features v | BalloonD b \<Rightarrow> balloon_features b),
       v_read_config = (\<lambda>d. case d of BlockD b \<Rightarrow> block_read_config b | NetD n \<Rightarrow> net_read_config n
                              | VsockD v \<Rightarrow> vsock_read_config v | BalloonD b \<Rightarrow> balloon_read_config b),
       v_write_config = (\<lambda>_ _ d. d),
       v_activate = any_activate E H \<rparr>"

text \<open>The balloon keeps the empty default of the trait.\<close>

fun any_set_pause :: "('q, 'e) AnyDevice \<Rightarrow> ('q, 'e) AnyDevice" where
  "any_set_pause (BlockD b) = BlockD (block_set_pause_handle b)"
| "any_set_pause (NetD n) = NetD (net_set_pause_handle n)"
| "any_set_pause (VsockD v) = VsockD (vsock_set_pause_handle v)"
| "any_set_pause (BalloonD b) = BalloonD b"

interpretation any: virtio_device "any_vtable E H" for E :: "('q, 'm, 'e) venv" and H
proof (unfold_locales, goal_cases)
  case (1 d)
  then show ?case
    using blk.version_1 net.version_1 vsk.version_1 bln.version_1
    by (cases d) (auto simp: any_vtable_def block_vtable_def net_vtable_def vsock_vtable_def balloon_vtable_def)
next
  case (2 d off data)
  then show ?case
    using blk.config_length net.config_length vsk.config_length bln.config_length
    by (cases d) (auto simp: any_vtable_def block_vtable_def net_vtable_def vsock_vtable_def balloon_vtable_def)
next
  case (3 off data d)
  then show ?case by (simp add: any_vtable_def)
next
  case (4 evts d)
  then show ?case
    by (cases d) (auto simp: any_vtable_def box_io_def block_activate_def net_activate_def vsock_activate_def
        balloon_activate_def)
next
  case (5 qs evts d)
  then show ?case by (cases d) (simp_all add: any_vtable_def box_io_def)
next
  case (6 qs evts d)
  then show ?case
    using blk.activate_sizes [where E = E] net.activate_sizes [where E = E] vsk.activate_sizes [where E = E]
      bln.activate_sizes [where E = E]
    by (cases d) (auto simp: any_vtable_def box_io_def block_vtable_def net_vtable_def vsock_vtable_def balloon_vtable_def)
next
  case (7 qs evts d)
  then show ?case
    using blk.activate_features [where E = E] net.activate_features [where E = E] vsk.activate_features [where E = E]
      bln.activate_features [where E = E]
    by (cases d) (auto simp: any_vtable_def box_io_def block_vtable_def net_vtable_def vsock_vtable_def balloon_vtable_def)
qed


section \<open>MAC addresses and TAP devices\<close>

fun mac_octets :: "nat \<Rightarrow> string list \<Rightarrow> VmmError + bytes" where
  "mac_octets i [] = Inr []"
| "mac_octets i (part # parts) =
     (if 6 \<le> i then Inl (Device ''invalid MAC (too many octets)'')
      else case parse_hex 256 part of
             None \<Rightarrow> Inl (Device ''invalid MAC octet'')
           | Some n \<Rightarrow> res_bind (mac_octets (i + 1) parts) (\<lambda>bs. Inr (of_nat n # bs)))"

definition parse_mac :: "string \<Rightarrow> VmmError + bytes" where
  "parse_mac s =
     res_bind (mac_octets 0 (split_on (CHR '':'') s)) (\<lambda>out.
       if length out \<noteq> 6 then Inl (Device ''invalid MAC (need 6 octets)'') else Inr out)"

abbreviation IFF_TAP :: u16 where "IFF_TAP \<equiv> 0x0002"
abbreviation IFF_NO_PI :: u16 where "IFF_NO_PI \<equiv> 0x1000"

text \<open>The name field of an interface request holds sixteen bytes, the last one zero.\<close>

definition IFNAMSIZ :: nat where "IFNAMSIZ = 16"

definition open_tap :: "host_env \<Rightarrow> string \<Rightarrow> VmmError + tap" where
  "open_tap H name =
     (case h_tun_open H of
        Inl e \<Rightarrow> Inl (Io e)
      | Inr fd \<Rightarrow>
          if IFNAMSIZ \<le> length name then Inl (Device ''tap name too long'')
          else (case h_tun_setiff H fd name (IFF_TAP OR IFF_NO_PI) of Inl e \<Rightarrow> Inl (Io e) | Inr t \<Rightarrow> Inr t))"


section \<open>The machine\<close>

abbreviation DEFAULT_GUEST_CID :: u64 where "DEFAULT_GUEST_CID \<equiv> 3"
definition IDENTITY_MAP_ADDR :: u64 where "IDENTITY_MAP_ADDR = 0xfffbc000"
abbreviation TSS_ADDR :: u64 where "TSS_ADDR \<equiv> 0xfffbd000"
abbreviation COM1_IRQ :: u32 where "COM1_IRQ \<equiv> 4"
definition KVM_PIT_SPEAKER_DUMMY :: u32 where "KVM_PIT_SPEAKER_DUMMY = 1"
definition KVM_MEM_LOG_DIRTY_PAGES :: u32 where "KVM_MEM_LOG_DIRTY_PAGES = 1"
definition KVM_IRQCHIP_PIC_MASTER :: u32 where "KVM_IRQCHIP_PIC_MASTER = 0"
definition KVM_IRQCHIP_PIC_SLAVE :: u32 where "KVM_IRQCHIP_PIC_SLAVE = 1"
definition KVM_IRQCHIP_IOAPIC :: u32 where "KVM_IRQCHIP_IOAPIC = 2"

text \<open>A memory slot as it is handed to KVM: number, guest address, size and flags.\<close>

record mem_slot =
  ms_slot :: u32
  ms_guest_phys_addr :: u64
  ms_memory_size :: u64
  ms_flags :: u32

record IrqChipState =
  ic_pic_master :: bytes
  ic_pic_slave :: bytes
  ic_ioapic :: bytes
  ic_pit :: bytes

record DeviceState =
  ds_device_type :: u32
  ds_queues :: "QueueCursor list"

record VmState =
  vm_vcpus :: "VcpuState list"
  vm_devices :: "DeviceState list"
  vm_clock :: bytes
  vm_irqchip :: IrqChipState

text \<open>The calls on \<open>/dev/kvm\<close> and on a VM handle, and the regions of guest memory.\<close>

record ('m, 'e, 'f, 'v) kvm_env =
  k_create_vm :: "string + 'v"
  k_supported_cpuid :: "string + kvm_cpuid_entry2 list"
  k_set_identity_map_address :: "u64 \<Rightarrow> 'v \<Rightarrow> string + 'v"
  k_set_tss_address :: "u64 \<Rightarrow> 'v \<Rightarrow> string + 'v"
  k_set_user_memory_region :: "mem_slot \<Rightarrow> 'v \<Rightarrow> string + 'v"
  k_create_irq_chip :: "'v \<Rightarrow> string + 'v"
  k_create_pit2 :: "u32 \<Rightarrow> 'v \<Rightarrow> string + 'v"
  k_create_vcpu :: "'v \<Rightarrow> u64 \<Rightarrow> string + 'f"
  k_register_irqfd :: "'e \<Rightarrow> u32 \<Rightarrow> 'v \<Rightarrow> string + 'v"
  k_get_clock :: "'v \<Rightarrow> string + bytes"
  k_set_clock :: "bytes \<Rightarrow> 'v \<Rightarrow> string + 'v"
  k_get_irqchip :: "u32 \<Rightarrow> 'v \<Rightarrow> string + bytes"
  k_set_irqchip :: "u32 \<Rightarrow> bytes \<Rightarrow> 'v \<Rightarrow> string + 'v"
  k_get_pit2 :: "'v \<Rightarrow> string + bytes"
  k_set_pit2 :: "bytes \<Rightarrow> 'v \<Rightarrow> string + 'v"
  k_irqchip_size :: nat
  k_pit_size :: nat
  k_get_dirty_log :: "u32 \<Rightarrow> u64 \<Rightarrow> 'v \<Rightarrow> string + (u64 list \<times> 'v)"
  k_regions :: "'m \<Rightarrow> (u64 \<times> u64) list"

record 'e DeviceCapture =
  dc_device_type :: u32
  dc_evt :: 'e
  dc_slot :: "QueueCursor list option"

text \<open>\<open>mc_threads\<close> are the vCPUs that have been moved into running threads.\<close>

record ('q, 'm, 'e, 'f, 'v, 's) Machine =
  mc_vm :: 'v
  mc_mem :: 'm
  mc_vcpus :: "'f Vcpu_handle list"
  mc_config :: VmConfig
  mc_threads :: "'f Vcpu_handle list"
  mc_bus :: "((('q, 'e) AnyDevice, 'q, 'e) MmioTransport, 's) Bus option"
  mc_ready :: "'e VsockReady option"
  mc_tap_fds :: "tap list"
  mc_vsock_listener :: "accepts option"
  mc_vcpu_stop :: bool
  mc_powered_off :: bool
  mc_vcpu_pause :: bool
  mc_vcpu_states :: "VcpuState option list"
  mc_device_captures :: "'e DeviceCapture list"

definition kvm_err :: "string + 'a \<Rightarrow> VmmError + 'a" where
  "kvm_err r = (case r of Inl e \<Rightarrow> Inl (Kvm e) | Inr x \<Rightarrow> Inr x)"

text \<open>Every region of guest memory as a slot, numbered in order.\<close>

fun set_slots ::
  "('m, 'e, 'f, 'v) kvm_env \<Rightarrow> u32 \<Rightarrow> u32 \<Rightarrow> (u64 \<times> u64) list \<Rightarrow> ('v, unit) io" where
  "set_slots K flags slot [] v = (Inr (), v)"
| "set_slots K flags slot ((start, len) # rs) v =
     (case k_set_user_memory_region K
             \<lparr> ms_slot = slot, ms_guest_phys_addr = start, ms_memory_size = len, ms_flags = flags \<rparr> v of
        Inl e \<Rightarrow> (Inl (Kvm e), v)
      | Inr v' \<Rightarrow> set_slots K flags (slot + 1) rs v')"

definition register_memory :: "('m, 'e, 'f, 'v) kvm_env \<Rightarrow> 'm \<Rightarrow> ('v, unit) io" where
  "register_memory K mem = set_slots K 0 0 (k_regions K mem)"

fun create_vcpus ::
  "('m, 'e, 'f, 'v) kvm_env \<Rightarrow> 'f vcpu_ops \<Rightarrow> 'v \<Rightarrow> nat list \<Rightarrow> VmmError + 'f Vcpu_handle list" where
  "create_vcpus K V v [] = Inr []"
| "create_vcpus K V v (i # is) =
     res_bind (vcpu_new V (k_create_vcpu K v) (k_supported_cpuid K) (of_nat i)) (\<lambda>c.
     res_bind (create_vcpus K V v is) (\<lambda>cs. Inr (c # cs)))"

definition with_resources_memory ::
  "('m, 'e, 'f, 'v) kvm_env \<Rightarrow> 'f vcpu_ops \<Rightarrow> VmConfig \<Rightarrow> tap list \<Rightarrow> 'm
   \<Rightarrow> VmmError + ('q, 'm, 'e, 'f, 'v, 's) Machine" where
  "with_resources_memory K V config tap_fds mem =
     res_bind (case validate config of Inl e \<Rightarrow> Inl (Config e) | Inr _ \<Rightarrow> Inr ()) (\<lambda>_.
     res_bind (kvm_err (k_create_vm K)) (\<lambda>v.
     res_bind (kvm_err (k_set_identity_map_address K IDENTITY_MAP_ADDR v)) (\<lambda>v.
     res_bind (kvm_err (k_set_tss_address K TSS_ADDR v)) (\<lambda>v.
     (case register_memory K mem v of
        (Inl e, _) \<Rightarrow> Inl e
      | (Inr _, v) \<Rightarrow>
     res_bind (kvm_err (k_create_irq_chip K v)) (\<lambda>v.
     res_bind (kvm_err (k_create_pit2 K KVM_PIT_SPEAKER_DUMMY v)) (\<lambda>v.
     res_bind (create_vcpus K V v [0..<unat (vcpus config)]) (\<lambda>cs. Inr
       \<lparr> mc_vm = v, mc_mem = mem, mc_vcpus = cs, mc_config = config, mc_threads = [], mc_bus = None,
         mc_ready = None, mc_tap_fds = tap_fds, mc_vsock_listener = None, mc_vcpu_stop = False,
         mc_powered_off = False, mc_vcpu_pause = False, mc_vcpu_states = [], mc_device_captures = [] \<rparr>))))))))"

definition with_resources ::
  "((u64 \<times> u64) list \<Rightarrow> string + 'm) \<Rightarrow> ('m, 'e, 'f, 'v) kvm_env \<Rightarrow> 'f vcpu_ops \<Rightarrow> VmConfig \<Rightarrow> tap list
   \<Rightarrow> VmmError + ('q, 'm, 'e, 'f, 'v, 's) Machine" where
  "with_resources from_ranges K V config tap_fds =
     res_bind (allocate_guest_memory from_ranges (memory_mib config)) (with_resources_memory K V config tap_fds)"


section \<open>Wiring devices\<close>

text \<open>The local variables of \<open>start\<close> and \<open>resume_from_state\<close>.\<close>

record ('q, 'e, 's) wiring =
  w_bus :: "((('q, 'e) AnyDevice, 'q, 'e) MmioTransport, 's) Bus"
  w_cmdline :: string
  w_next_mmio :: u64
  w_next_gsi :: u32
  w_tap_fds :: "tap list"
  w_states :: "DeviceState list"

type_synonym ('q, 'm, 'e, 'f, 'v, 's) mst = "('q, 'm, 'e, 'f, 'v, 's) Machine \<times> ('q, 'e, 's) wiring"

definition wiring_start :: "DeviceState list \<Rightarrow> ('q, 'e, 's) wiring" where
  "wiring_start sts =
     \<lparr> w_bus = bus_new, w_cmdline = [], w_next_mmio = MMIO_DEVICE_BASE, w_next_gsi = FIRST_VIRTIO_GSI,
       w_tap_fds = [], w_states = sts \<rparr>"

definition io_lift :: "VmmError + 'a \<Rightarrow> ('s, 'a) io" where
  "io_lift r s = (r, s)"

definition device_arg :: "u64 \<Rightarrow> u32 \<Rightarrow> string" where
  "device_arg base gsi =
     '' virtio_mmio.device=4K@0x'' @ hex_of_nat (unat base) @ '':'' @ dec_of_nat (unat gsi)"

definition attach_virtio ::
  "('q, 'm, 'e) venv \<Rightarrow> host_env \<Rightarrow> ('m, 'e, 'f, 'v) kvm_env \<Rightarrow> ('q, 'e) AnyDevice
   \<Rightarrow> (('q, 'm, 'e, 'f, 'v, 's) mst, unit) io" where
  "attach_virtio E H K device s =
     (case s of (m, w) \<Rightarrow>
      case e_new E of
        Inl e \<Rightarrow> (Inl (Io e), s)
      | Inr irq \<Rightarrow>
          (case k_register_irqfd K irq (w_next_gsi w) (mc_vm m) of
             Inl e \<Rightarrow> (Inl (Kvm e), s)
           | Inr v \<Rightarrow>
               (let m = m\<lparr> mc_vm := v \<rparr> in
                case transport_new (any_vtable E H) E device (interrupt_new irq) of
                  Inl e \<Rightarrow> (Inl e, (m, w))
                | Inr t \<Rightarrow>
                    (Inr (), (m, w\<lparr> w_bus := add_mmio_device (w_next_mmio w) MMIO_DEVICE_SIZE t (w_bus w),
                       w_cmdline := w_cmdline w @ device_arg (w_next_mmio w) (w_next_gsi w),
                       w_next_mmio := w_next_mmio w + MMIO_DEVICE_SIZE,
                       w_next_gsi := w_next_gsi w + 1 \<rparr>)))))"

definition install_device_pause ::
  "('q, 'm, 'e) venv \<Rightarrow> host_env \<Rightarrow> ('q, 'e) AnyDevice
   \<Rightarrow> (('q, 'm, 'e, 'f, 'v, 's) mst, ('q, 'e) AnyDevice) io" where
  "install_device_pause E H device s =
     (case s of (m, w) \<Rightarrow>
      case e_new E of
        Inl e \<Rightarrow> (Inl (Io e), s)
      | Inr evt \<Rightarrow>
          (case e_try_clone E evt of
             Inl e \<Rightarrow> (Inl (Io e), s)
           | Inr _ \<Rightarrow>
               (let d = any_set_pause device in
                (Inr d, (m\<lparr> mc_device_captures := mc_device_captures m @
                   [\<lparr> dc_device_type = v_device_type (any_vtable E H) d, dc_evt = evt, dc_slot = None \<rparr>] \<rparr>, w)))))"

definition attach_paused ::
  "('q, 'm, 'e) venv \<Rightarrow> host_env \<Rightarrow> ('m, 'e, 'f, 'v) kvm_env \<Rightarrow> ('q, 'e) AnyDevice
   \<Rightarrow> (('q, 'm, 'e, 'f, 'v, 's) mst, unit) io" where
  "attach_paused E H K device = io_bind (install_device_pause E H device) (attach_virtio E H K)"

text \<open>The serial console; \<open>com1\<close> is a new port of the library's device.\<close>

definition wire_serial ::
  "('q, 'm, 'e) venv \<Rightarrow> ('m, 'e, 'f, 'v) kvm_env \<Rightarrow> ('e \<Rightarrow> 's) \<Rightarrow> (('q, 'm, 'e, 'f, 'v, 's) mst, unit) io" where
  "wire_serial E K com1 s =
     (case s of (m, w) \<Rightarrow>
      case e_new E of
        Inl e \<Rightarrow> (Inl (Io e), s)
      | Inr irq \<Rightarrow>
          (case k_register_irqfd K irq COM1_IRQ (mc_vm m) of
             Inl e \<Rightarrow> (Inl (Kvm e), s)
           | Inr v \<Rightarrow> (Inr (), (m\<lparr> mc_vm := v \<rparr>, w\<lparr> w_bus := set_serial (com1 irq) (w_bus w) \<rparr>))))"

text \<open>What follows the attachment of a device: nothing on boot, on restore the re-activation of
  the transport just added from the next saved state.\<close>

datatype wiring_mode = Booting | Restoring

definition restore_activate_next ::
  "('q, 'm, 'e) venv \<Rightarrow> host_env \<Rightarrow> (('q, 'm, 'e, 'f, 'v, 's) mst, unit) io" where
  "restore_activate_next E H s =
     (case s of (m, w) \<Rightarrow>
      case w_states w of
        [] \<Rightarrow> (Inl (Device ''restore: missing device state''), s)
      | st # sts \<Rightarrow>
          (let rs = bus_mmio (w_bus w); r = last rs in
           case restore_activate (any_vtable E H) E (ds_queues st) (mr_transport r) of
             (res, t) \<Rightarrow>
               (res, (m, w\<lparr> w_states := sts,
                            w_bus := (w_bus w)\<lparr> bus_mmio := butlast rs @ [r\<lparr> mr_transport := t \<rparr>] \<rparr> \<rparr>))))"

definition attach_mode ::
  "wiring_mode \<Rightarrow> ('q, 'm, 'e) venv \<Rightarrow> host_env \<Rightarrow> ('m, 'e, 'f, 'v) kvm_env \<Rightarrow> ('q, 'e) AnyDevice
   \<Rightarrow> (('q, 'm, 'e, 'f, 'v, 's) mst, unit) io" where
  "attach_mode mode E H K device =
     io_bind (attach_paused E H K device) (\<lambda>_.
       if mode = Restoring then restore_activate_next E H else io_return ())"

definition wire_block ::
  "wiring_mode \<Rightarrow> ('q, 'm, 'e) venv \<Rightarrow> host_env \<Rightarrow> ('m, 'e, 'f, 'v) kvm_env
   \<Rightarrow> (('q, 'm, 'e, 'f, 'v, 's) mst, unit) io" where
  "wire_block mode E H K s =
     (let rf = rootfs (mc_config (fst s)) in
      io_bind (io_lift (block_new (h_open_image H (bd_path rf)) (bd_read_only rf) (bd_rate_limit rf)))
        (\<lambda>b. attach_mode mode E H K (BlockD b)) s)"

definition wire_vsock ::
  "wiring_mode \<Rightarrow> ('q, 'm, 'e) venv \<Rightarrow> host_env \<Rightarrow> ('m, 'e, 'f, 'v) kvm_env
   \<Rightarrow> (('q, 'm, 'e, 'f, 'v, 's) mst, unit) io" where
  "wire_vsock mode E H K s =
     (case s of (m, w) \<Rightarrow>
      let made = (case mc_vsock_listener m of
                    Some l \<Rightarrow> with_host_bridge E DEFAULT_GUEST_CID l
                  | None \<Rightarrow> vsock_new E DEFAULT_GUEST_CID);
          m = m\<lparr> mc_vsock_listener := None \<rparr> in
      case made of
        Inl e \<Rightarrow> (Inl e, (m, w))
      | Inr v \<Rightarrow> attach_mode mode E H K (VsockD v) (m\<lparr> mc_ready := Some (vs_ready v) \<rparr>, w))"

text \<open>The TAP of a network device: the next inherited one, or one opened by name.\<close>

definition next_tap :: "host_env \<Rightarrow> string \<Rightarrow> (('q, 'm, 'e, 'f, 'v, 's) mst, tap) io" where
  "next_tap H name s =
     (case s of (m, w) \<Rightarrow>
      case w_tap_fds w of
        t # ts \<Rightarrow> (Inr t, (m, w\<lparr> w_tap_fds := ts \<rparr>))
      | [] \<Rightarrow> (open_tap H name, s))"

definition wire_net ::
  "wiring_mode \<Rightarrow> ('q, 'm, 'e) venv \<Rightarrow> host_env \<Rightarrow> ('m, 'e, 'f, 'v) kvm_env
   \<Rightarrow> string \<Rightarrow> string \<Rightarrow> RateLimit option \<Rightarrow> (('q, 'm, 'e, 'f, 'v, 's) mst, unit) io" where
  "wire_net mode E H K tn mc rl =
     io_bind (next_tap H tn) (\<lambda>tap.
     io_bind (io_lift (parse_mac mc)) (\<lambda>octets.
       attach_mode mode E H K (NetD (net_new tap octets rl))))"

text \<open>The loop over the configured devices.  Booting attaches network and balloon devices; the
  restore attaches only the network devices.\<close>

fun wire_configured ::
  "wiring_mode \<Rightarrow> ('q, 'm, 'e) venv \<Rightarrow> host_env \<Rightarrow> ('m, 'e, 'f, 'v) kvm_env \<Rightarrow> ConfigDevice list
   \<Rightarrow> (('q, 'm, 'e, 'f, 'v, 's) mst, unit) io" where
  "wire_configured mode E H K [] s = (Inr (), s)"
| "wire_configured mode E H K (NetDev tn mc rl # ds) s =
     io_bind (wire_net mode E H K tn mc rl) (\<lambda>_. wire_configured mode E H K ds) s"
| "wire_configured mode E H K (VsockDev c # ds) s = wire_configured mode E H K ds s"
| "wire_configured Booting E H K (BalloonDev mib # ds) s =
     io_bind (attach_virtio E H K (BalloonD (balloon_new mib))) (\<lambda>_. wire_configured Booting E H K ds) s"
| "wire_configured Restoring E H K (BalloonDev mib # ds) s = wire_configured Restoring E H K ds s"

definition take_taps :: "(('q, 'm, 'e, 'f, 'v, 's) mst, unit) io" where
  "take_taps s = (case s of (m, w) \<Rightarrow> (Inr (), (m\<lparr> mc_tap_fds := [] \<rparr>, w\<lparr> w_tap_fds := mc_tap_fds m \<rparr>)))"

definition wire_devices ::
  "wiring_mode \<Rightarrow> ('q, 'm, 'e) venv \<Rightarrow> host_env \<Rightarrow> ('m, 'e, 'f, 'v) kvm_env \<Rightarrow> ('e \<Rightarrow> 's)
   \<Rightarrow> (('q, 'm, 'e, 'f, 'v, 's) mst, unit) io" where
  "wire_devices mode E H K com1 s =
     io_bind (wire_serial E K com1) (\<lambda>_.
     io_bind (wire_block mode E H K) (\<lambda>_.
     io_bind (wire_vsock mode E H K) (\<lambda>_.
     io_bind take_taps (\<lambda>_.
       wire_configured mode E H K (devices (mc_config (fst s))))))) s"


section \<open>Boot\<close>

fun configure_vcpus ::
  "('q, 'm, 'e) venv \<Rightarrow> 'f vcpu_ops \<Rightarrow> KernelBoot \<Rightarrow> 'f Vcpu_handle list \<Rightarrow> ('m, 'f Vcpu_handle list) io" where
  "configure_vcpus E V kb [] m = (Inr [], m)"
| "configure_vcpus E V kb (c # cs) m =
     (case configure_boot E V (entry_point kb) (boot_params_addr kb) (m, v_fd c) of
        (Inl e, (m', _)) \<Rightarrow> (Inl e, m')
      | (Inr _, (m', f)) \<Rightarrow>
          io_bind (configure_vcpus E V kb cs) (\<lambda>cs'. io_return (c\<lparr> v_fd := f \<rparr> # cs')) m')"

text \<open>Starting the vCPU threads; \<open>prepare\<close> is what is done to a vCPU before it is moved into
  its thread.\<close>

fun spawn_vcpus ::
  "('q, 'm, 'e) venv \<Rightarrow> ('x \<Rightarrow> 'f Vcpu_handle \<Rightarrow> VmmError + 'f Vcpu_handle) \<Rightarrow> 'x list \<Rightarrow> 'f Vcpu_handle list
   \<Rightarrow> (('q, 'm, 'e, 'f, 'v, 's) Machine, unit) io" where
  "spawn_vcpus E prepare xs [] m = (Inr (), m)"
| "spawn_vcpus E prepare [] (c # cs) m = (Inl (VcpuErr ''restore: no saved state for vcpu''), m)"
| "spawn_vcpus E prepare (x # xs) (c # cs) m =
     (case prepare x c of
        Inl e \<Rightarrow> (Inl e, m)
      | Inr c' \<Rightarrow>
          (let m = m\<lparr> mc_vcpu_states := mc_vcpu_states m @ [None] \<rparr> in
           case thread_spawn E (''mm-vcpu-'' @ dec_of_nat (unat (v_index c'))) of
             Inl e \<Rightarrow> (Inl (Io e), m)
           | Inr _ \<Rightarrow> spawn_vcpus E prepare xs cs (m\<lparr> mc_threads := mc_threads m @ [c'] \<rparr>)))"

definition start_guest ::
  "('q, 'm, 'e) venv \<Rightarrow> 'f vcpu_ops \<Rightarrow> 'm boot_env \<Rightarrow> ('q, 'm, 'e, 'f, 'v, 's) mst
   \<Rightarrow> (VmmError + unit) \<times> ('q, 'm, 'e, 'f, 'v, 's) Machine" where
  "start_guest E V B s =
     (case s of (m, w) \<Rightarrow>
      let config = mc_config m; cmdline = kernel_cmdline config @ w_cmdline w in
      case checked_mul (memory_mib config) (2 ^ 20) of
        None \<Rightarrow> (Inl (Memory ''memory size overflow''), m)
      | Some mem_size \<Rightarrow>
          (case load_and_configure B (kernel config) cmdline mem_size (mc_mem m) of
             Inl e \<Rightarrow> (Inl e, m)
           | Inr (kb, mem) \<Rightarrow>
               (case configure_vcpus E V kb (mc_vcpus m) mem of
                  (Inl e, mem) \<Rightarrow> (Inl e, m\<lparr> mc_mem := mem \<rparr>)
                | (Inr cs, mem) \<Rightarrow>
                    spawn_vcpus E (\<lambda>_. Inr) (map (\<lambda>_. ()) cs) cs
                      (m\<lparr> mc_mem := mem, mc_vcpus := [], mc_bus := Some (w_bus w) \<rparr>))))"

definition machine_start ::
  "('q, 'm, 'e) venv \<Rightarrow> host_env \<Rightarrow> ('m, 'e, 'f, 'v) kvm_env \<Rightarrow> ('e \<Rightarrow> 's) \<Rightarrow> 'f vcpu_ops \<Rightarrow> 'm boot_env
   \<Rightarrow> (('q, 'm, 'e, 'f, 'v, 's) Machine, unit) io" where
  "machine_start E H K com1 V B m =
     (case wire_devices Booting E H K com1 (m, wiring_start []) of
        (Inl e, (m, _)) \<Rightarrow> (Inl e, m)
      | (Inr _, s) \<Rightarrow> start_guest E V B s)"

text \<open>\<open>boot_jailed\<close>, and with no inherited resources \<open>boot\<close>, \<open>boot_with_hook\<close> and
  \<open>boot_with_vsock\<close>.\<close>

definition machine_boot ::
  "((u64 \<times> u64) list \<Rightarrow> string + 'm) \<Rightarrow> ('q, 'm, 'e) venv \<Rightarrow> host_env \<Rightarrow> ('m, 'e, 'f, 'v) kvm_env \<Rightarrow> ('e \<Rightarrow> 's)
   \<Rightarrow> 'f vcpu_ops \<Rightarrow> 'm boot_env \<Rightarrow> VmConfig \<Rightarrow> tap list \<Rightarrow> accepts option
   \<Rightarrow> VmmError + ('q, 'm, 'e, 'f, 'v, 's) Machine" where
  "machine_boot from_ranges E H K com1 V B config taps listener =
     res_bind (with_resources from_ranges K V config taps) (\<lambda>m.
       case machine_start E H K com1 V B (m\<lparr> mc_vsock_listener := listener \<rparr>) of
         (Inl e, _) \<Rightarrow> Inl e
       | (Inr _, m) \<Rightarrow> Inr m)"


section \<open>Restore\<close>

definition irqchip_from_bytes :: "('m, 'e, 'f, 'v) kvm_env \<Rightarrow> bytes \<Rightarrow> VmmError + bytes" where
  "irqchip_from_bytes K bs =
     (if length bs \<noteq> k_irqchip_size K then Inl (Device ''unexpected length of irqchip state'') else Inr bs)"

definition pit_from_bytes :: "('m, 'e, 'f, 'v) kvm_env \<Rightarrow> bytes \<Rightarrow> VmmError + bytes" where
  "pit_from_bytes K bs =
     (if length bs \<noteq> k_pit_size K then Inl (Device ''unexpected length of PIT state'') else Inr bs)"

definition capture_clock :: "('m, 'e, 'f, 'v) kvm_env \<Rightarrow> 'v \<Rightarrow> VmmError + bytes" where
  "capture_clock K v = kvm_err (k_get_clock K v)"

definition restore_clock :: "('m, 'e, 'f, 'v) kvm_env \<Rightarrow> bytes \<Rightarrow> 'v \<Rightarrow> VmmError + 'v" where
  "restore_clock K c v = kvm_err (k_set_clock K c v)"

definition capture_irqchip :: "('m, 'e, 'f, 'v) kvm_env \<Rightarrow> 'v \<Rightarrow> VmmError + IrqChipState" where
  "capture_irqchip K v =
     res_bind (kvm_err (k_get_irqchip K KVM_IRQCHIP_PIC_MASTER v)) (\<lambda>a.
     res_bind (kvm_err (k_get_irqchip K KVM_IRQCHIP_PIC_SLAVE v)) (\<lambda>b.
     res_bind (kvm_err (k_get_irqchip K KVM_IRQCHIP_IOAPIC v)) (\<lambda>c.
     res_bind (kvm_err (k_get_pit2 K v)) (\<lambda>d.
       Inr \<lparr> ic_pic_master = a, ic_pic_slave = b, ic_ioapic = c, ic_pit = d \<rparr>))))"

definition set_irqchip_bytes :: "('m, 'e, 'f, 'v) kvm_env \<Rightarrow> u32 \<Rightarrow> bytes \<Rightarrow> 'v \<Rightarrow> VmmError + 'v" where
  "set_irqchip_bytes K chip bs v =
     res_bind (irqchip_from_bytes K bs) (\<lambda>c. kvm_err (k_set_irqchip K chip c v))"

definition restore_irqchip :: "('m, 'e, 'f, 'v) kvm_env \<Rightarrow> IrqChipState \<Rightarrow> 'v \<Rightarrow> VmmError + 'v" where
  "restore_irqchip K st v =
     res_bind (set_irqchip_bytes K KVM_IRQCHIP_PIC_MASTER (ic_pic_master st) v) (\<lambda>v.
     res_bind (set_irqchip_bytes K KVM_IRQCHIP_PIC_SLAVE (ic_pic_slave st) v) (\<lambda>v.
     res_bind (set_irqchip_bytes K KVM_IRQCHIP_IOAPIC (ic_ioapic st) v) (\<lambda>v.
     res_bind (pit_from_bytes K (ic_pit st)) (\<lambda>p. kvm_err (k_set_pit2 K p v)))))"

definition restore_vcpu :: "'f vcpu_ops \<Rightarrow> VcpuState \<Rightarrow> 'f Vcpu_handle \<Rightarrow> VmmError + 'f Vcpu_handle" where
  "restore_vcpu V st c =
     (case restore_state V st (v_fd c) of (Inl e, _) \<Rightarrow> Inl e | (Inr _, f) \<Rightarrow> Inr (c\<lparr> v_fd := f \<rparr>))"

definition resume_guest ::
  "('q, 'm, 'e) venv \<Rightarrow> ('m, 'e, 'f, 'v) kvm_env \<Rightarrow> 'f vcpu_ops \<Rightarrow> VmState \<Rightarrow> ('q, 'm, 'e, 'f, 'v, 's) mst
   \<Rightarrow> (VmmError + unit) \<times> ('q, 'm, 'e, 'f, 'v, 's) Machine" where
  "resume_guest E K V st s =
     (case s of (m, w) \<Rightarrow>
      case restore_clock K (vm_clock st) (mc_vm m) of
        Inl e \<Rightarrow> (Inl e, m)
      | Inr v \<Rightarrow>
          (case (if ic_ioapic (vm_irqchip st) = [] then Inr v else restore_irqchip K (vm_irqchip st) v) of
             Inl e \<Rightarrow> (Inl e, m\<lparr> mc_vm := v \<rparr>)
           | Inr v \<Rightarrow>
               spawn_vcpus E (restore_vcpu V) (vm_vcpus st) (mc_vcpus m)
                 (m\<lparr> mc_vm := v, mc_vcpus := [], mc_bus := Some (w_bus w) \<rparr>)))"

definition resume_from_state ::
  "('q, 'm, 'e) venv \<Rightarrow> host_env \<Rightarrow> ('m, 'e, 'f, 'v) kvm_env \<Rightarrow> ('e \<Rightarrow> 's) \<Rightarrow> 'f vcpu_ops \<Rightarrow> VmState
   \<Rightarrow> (('q, 'm, 'e, 'f, 'v, 's) Machine, unit) io" where
  "resume_from_state E H K com1 V st m =
     (case wire_devices Restoring E H K com1 (m, wiring_start (vm_devices st)) of
        (Inl e, (m, _)) \<Rightarrow> (Inl e, m)
      | (Inr _, s) \<Rightarrow> resume_guest E K V st s)"


section \<open>Readiness and the end of a vCPU thread\<close>

text \<open>What the poll on the readiness eventfd answered: an error, or the number of ready
  descriptors with the events of the one descriptor.\<close>

definition POLLIN :: u16 where "POLLIN = 1"

definition wait_for_ready ::
  "string + (int \<times> u16) \<Rightarrow> ('q, 'm, 'e, 'f, 'v, 's) Machine \<Rightarrow> VmmError + bool" where
  "wait_for_ready polled m =
     (case mc_ready m of
        None \<Rightarrow> Inl (Device ''no vsock readiness signal'')
      | Some r \<Rightarrow>
          if vr_flag r then Inr True
          else (case polled of
                  Inl e \<Rightarrow> Inl (Io e)
                | Inr (rc, revents) \<Rightarrow> Inr (0 < rc \<and> revents AND POLLIN \<noteq> 0)))"

text \<open>A vCPU thread that ends: its exit raises the power-off flag whatever it was.\<close>

definition thread_exit ::
  "('x \<Rightarrow> VmmError + unit) option \<Rightarrow> (VmmError + VcpuRunExit) option \<Rightarrow> 'x \<Rightarrow> ('q, 'm, 'e, 'f, 'v, 's) Machine
   \<Rightarrow> (VmmError + VcpuRunExit) option \<times> ('q, 'm, 'e, 'f, 'v, 's) Machine" where
  "thread_exit hook run x m =
     (case (case hook of None \<Rightarrow> Inr () | Some h \<Rightarrow> h x) of
        Inl e \<Rightarrow> (Some (Inl e), m\<lparr> mc_powered_off := True \<rparr>)
      | Inr _ \<Rightarrow> (case run of None \<Rightarrow> (None, m) | Some r \<Rightarrow> (Some r, m\<lparr> mc_powered_off := True \<rparr>)))"

section \<open>The layout of the device windows\<close>

definition dev_base :: "nat \<Rightarrow> u64" where
  "dev_base i = MMIO_DEVICE_BASE + of_nat i * MMIO_DEVICE_SIZE"

definition dev_gsi :: "nat \<Rightarrow> u32" where
  "dev_gsi i = FIRST_VIRTIO_GSI + of_nat i"

definition bus_types :: "('q, 'm, 'e) venv \<Rightarrow> host_env \<Rightarrow> ((('q, 'e) AnyDevice, 'q, 'e) MmioTransport, 's) Bus \<Rightarrow> u32 list" where
  "bus_types E H b = map (\<lambda>r. v_device_type (any_vtable E H) (mt_device (mr_transport r))) (bus_mmio b)"

text \<open>The device types a configuration asks for, and those a restore rebuilds.\<close>

fun wanted_types :: "wiring_mode \<Rightarrow> ConfigDevice list \<Rightarrow> u32 list" where
  "wanted_types mode [] = []"
| "wanted_types mode (NetDev tn mc rl # ds) = TYPE_NET # wanted_types mode ds"
| "wanted_types mode (VsockDev c # ds) = wanted_types mode ds"
| "wanted_types Booting (BalloonDev mib # ds) = TYPE_BALLOON # wanted_types Booting ds"
| "wanted_types Restoring (BalloonDev mib # ds) = wanted_types Restoring ds"

definition layout_of :: "u32 list \<Rightarrow> string" where
  "layout_of ts = concat (map (\<lambda>i. device_arg (dev_base i) (dev_gsi i)) [0..<length ts])"

definition wired :: "('q, 'm, 'e) venv \<Rightarrow> host_env \<Rightarrow> u32 list \<Rightarrow> ('q, 'e, 's) wiring \<Rightarrow> bool" where
  "wired E H ts w \<longleftrightarrow>
     map mr_base (bus_mmio (w_bus w)) = map dev_base [0..<length ts] \<and>
     (\<forall>r \<in> set (bus_mmio (w_bus w)). mr_size r = MMIO_DEVICE_SIZE) \<and>
     bus_types E H (w_bus w) = ts \<and> w_next_mmio w = dev_base (length ts) \<and>
     w_next_gsi w = dev_gsi (length ts) \<and> w_cmdline w = layout_of ts"

lemma io_bind_Inr_iff: "io_bind f g s = (Inr y, s'') \<longleftrightarrow> (\<exists>x s'. f s = (Inr x, s') \<and> g x s' = (Inr y, s''))"
  by (auto simp: io_bind_def split: sum.splits prod.splits)

lemma io_bind_unitE:
  assumes "io_bind f g s = (Inr y, s'')"
  obtains s' where "f s = (Inr (), s')" "g () s' = (Inr y, s'')"
proof -
  obtain x s' where "f s = (Inr x, s')" "g x s' = (Inr y, s'')" using assms unfolding io_bind_Inr_iff by blast
  then show thesis using that by (cases x) simp
qed

lemma wired_start: "wired E H [] (wiring_start sts)"
  by (simp add: wired_def wiring_start_def bus_new_def bus_types_def dev_base_def dev_gsi_def layout_of_def)

lemma transport_new_device: "transport_new V E d i = Inr t \<Longrightarrow> mt_device t = d"
  by (auto simp: transport_new_def Let_def res_bind_Inr_iff)

lemma dev_base_Suc: "dev_base (Suc n) = dev_base n + MMIO_DEVICE_SIZE"
  by (simp add: dev_base_def algebra_simps)

lemma dev_gsi_Suc: "dev_gsi (Suc n) = dev_gsi n + 1"
  by (simp add: dev_gsi_def)

lemma attach_virtio_wired:
  assumes "attach_virtio E H K d (m, w) = (Inr (), (m', w'))" "wired E H ts w"
  shows "wired E H (ts @ [v_device_type (any_vtable E H) d]) w' \<and> mc_config m' = mc_config m"
  using assms unfolding attach_virtio_def wired_def
  by (auto simp: Let_def add_mmio_device_def bus_types_def dev_base_Suc dev_gsi_Suc layout_of_def transport_new_device
      split: sum.splits)

lemma any_set_pause_type [simp]:
  "v_device_type (any_vtable E H) (any_set_pause d) = v_device_type (any_vtable E H) d"
  by (cases d) (simp_all add: any_vtable_def)

lemma attach_paused_wired:
  assumes "attach_paused E H K d (m, w) = (Inr (), (m', w'))" "wired E H ts w"
  shows "wired E H (ts @ [v_device_type (any_vtable E H) d]) w' \<and> mc_config m' = mc_config m"
proof -
  obtain m1 where "attach_virtio E H K (any_set_pause d) (m1, w) = (Inr (), (m', w'))" "mc_config m1 = mc_config m"
    using assms(1) by (auto simp: attach_paused_def io_bind_def install_device_pause_def Let_def split: sum.splits)
  then show ?thesis using attach_virtio_wired [OF _ assms(2)] by fastforce
qed

lemma restore_activate_type:
  "v_device_type (any_vtable E H) (mt_device (snd (restore_activate (any_vtable E H) E cs t))) =
   v_device_type (any_vtable E H) (mt_device t)"
proof -
  have "v_device_type (any_vtable E H) (mt_device (snd (transport_activate (any_vtable E H) E t'))) =
        v_device_type (any_vtable E H) (mt_device t')" for t'
    using any.activate_type [where E = E and H = H]
    by (auto simp: transport_activate_def Let_def split: sum.splits prod.splits) (metis snd_conv)
  from this [of "t\<lparr> mt_queues := qs \<rparr>" for qs] show ?thesis
    by (auto simp: restore_activate_def split: sum.splits prod.splits) (metis snd_conv)+
qed

lemma restore_next_wired:
  assumes "restore_activate_next E H (m, w) = (Inr (), (m', w'))" "wired E H ts w" "ts \<noteq> []"
  shows "wired E H ts w' \<and> mc_config m' = mc_config m"
proof -
  obtain rs r where rs: "bus_mmio (w_bus w) = rs @ [r]"
    using assms(2,3) by (cases "bus_mmio (w_bus w)" rule: rev_cases) (auto simp: wired_def bus_types_def)
  obtain st sts where st: "w_states w = st # sts"
    using assms(1) by (cases "w_states w") (auto simp: restore_activate_next_def)
  obtain res t where t: "restore_activate (any_vtable E H) E (ds_queues st) (mr_transport r) = (res, t)" by fastforce
  have w': "bus_mmio (w_bus w') = rs @ [r\<lparr> mr_transport := t \<rparr>]" "w_next_mmio w' = w_next_mmio w"
      "w_next_gsi w' = w_next_gsi w" "w_cmdline w' = w_cmdline w" "m' = m"
    using assms(1) rs st t by (auto simp: restore_activate_next_def)
  have "v_device_type (any_vtable E H) (mt_device t) = v_device_type (any_vtable E H) (mt_device (mr_transport r))"
    using restore_activate_type [of E H "ds_queues st" "mr_transport r"] t by simp
  then show ?thesis using assms(2) rs w' by (auto simp: wired_def bus_types_def)
qed

lemma attach_mode_wired:
  assumes "attach_mode mode E H K d (m, w) = (Inr (), (m', w'))" "wired E H ts w"
  shows "wired E H (ts @ [v_device_type (any_vtable E H) d]) w' \<and> mc_config m' = mc_config m"
proof -
  obtain m1 w1 where a: "attach_paused E H K d (m, w) = (Inr (), (m1, w1))"
    "(if mode = Restoring then restore_activate_next E H else io_return ()) (m1, w1) = (Inr (), (m', w'))"
    using assms(1) unfolding attach_mode_def io_bind_Inr_iff by auto
  from attach_paused_wired [OF a(1) assms(2)] a(2) show ?thesis
    using restore_next_wired [of E H m1 w1 m' w'] by (auto simp: io_return_def split: if_splits)
qed

lemma wire_net_wired:
  assumes "wire_net mode E H K tn mc rl (m, w) = (Inr (), (m', w'))" "wired E H ts w"
  shows "wired E H (ts @ [TYPE_NET]) w' \<and> mc_config m' = mc_config m"
proof -
  obtain m1 w1 d where "attach_mode mode E H K (NetD d) (m1, w1) = (Inr (), (m', w'))" "mc_config m1 = mc_config m"
    "wired E H ts w1"
    using assms by (auto simp: wire_net_def io_bind_def next_tap_def io_lift_def wired_def split: sum.splits prod.splits list.splits)
  then show ?thesis using attach_mode_wired by (fastforce simp: any_vtable_def)
qed

lemma wire_configured_wired:
  assumes "wire_configured mode E H K ds (m, w) = (Inr (), (m', w'))" "wired E H ts w"
  shows "wired E H (ts @ wanted_types mode ds) w' \<and> mc_config m' = mc_config m"
  using assms
proof (induction mode E H K ds "(m, w)" arbitrary: m w ts rule: wire_configured.induct)
  case (2 mode E H K tn mc rl ds)
  obtain m1 w1 where a: "wire_net mode E H K tn mc rl (m, w) = (Inr (), (m1, w1))"
    "wire_configured mode E H K ds (m1, w1) = (Inr (), (m', w'))"
    using "2.prems"(1) by (auto simp: io_bind_Inr_iff)
  from wire_net_wired [OF a(1) "2.prems"(2)] "2.hyps" [OF a(2), of "ts @ [TYPE_NET]"] show ?case by simp
next
  case (4 E H K mib ds)
  obtain m1 w1 where a: "attach_virtio E H K (BalloonD (balloon_new mib)) (m, w) = (Inr (), (m1, w1))"
    "wire_configured Booting E H K ds (m1, w1) = (Inr (), (m', w'))"
    using "4.prems"(1) by (auto simp: io_bind_Inr_iff)
  from attach_virtio_wired [OF a(1) "4.prems"(2)] "4.hyps" [OF a(2), of "ts @ [TYPE_BALLOON]"] show ?case by (simp add: any_vtable_def)
qed auto

lemma wire_devices_wired:
  fixes E :: "('q, 'm, 'e) venv" and K :: "('m, 'e, 'f, 'v) kvm_env" and com1 :: "'e \<Rightarrow> 's"
  assumes "wire_devices mode E H K com1 (m, wiring_start sts) = (Inr (), (m', w'))"
  shows "wired E H (TYPE_BLOCK # TYPE_VSOCK # wanted_types mode (devices (mc_config m))) w' \<and>
         mc_config m' = mc_config m"
proof -
  define g3 :: "unit \<Rightarrow> (('q, 'm, 'e, 'f, 'v, 's) mst, unit) io"
    where "g3 = (\<lambda>_. io_bind take_taps (\<lambda>_. wire_configured mode E H K (devices (mc_config m))))"
  define g2 where "g2 = (\<lambda>_ :: unit. io_bind (wire_vsock mode E H K) g3)"
  define g1 where "g1 = (\<lambda>_ :: unit. io_bind (wire_block mode E H K) g2)"
  have "io_bind (wire_serial E K com1) g1 (m, wiring_start sts) = (Inr (), (m', w'))"
    using assms unfolding wire_devices_def g1_def g2_def g3_def fst_conv .
  then obtain s1 where s1: "wire_serial E K com1 (m, wiring_start sts) = (Inr (), s1)" "g1 () s1 = (Inr (), (m', w'))"
    by (rule io_bind_unitE)
  then obtain s2 where s2: "wire_block mode E H K s1 = (Inr (), s2)" "g2 () s2 = (Inr (), (m', w'))"
    unfolding g1_def by (elim io_bind_unitE)
  then obtain s3 where s3: "wire_vsock mode E H K s2 = (Inr (), s3)" "g3 () s3 = (Inr (), (m', w'))"
    unfolding g2_def by (elim io_bind_unitE)
  note b = s1(1) s2(1) s3(1) s3(2) [unfolded g3_def]
  obtain m1 w1 m2 w2 m3 w3 where s: "s1 = (m1, w1)" "s2 = (m2, w2)" "s3 = (m3, w3)" by (metis surj_pair)
  note a = b(1-3) [unfolded s]
  have a4: "wire_configured mode E H K (devices (mc_config m))
       (m3\<lparr> mc_tap_fds := [] \<rparr>, w3\<lparr> w_tap_fds := mc_tap_fds m3 \<rparr>) = (Inr (), (m', w'))"
    using b(4) by (simp add: s io_bind_def take_taps_def)
  have 1: "wired E H [] w1 \<and> mc_config m1 = mc_config m"
    using a(1) wired_start [of E H sts]
    by (auto simp: wire_serial_def set_serial_def wired_def bus_types_def split: sum.splits)
  have 2: "wired E H [TYPE_BLOCK] w2 \<and> mc_config m2 = mc_config m"
  proof -
    obtain b where "attach_mode mode E H K (BlockD b) (m1, w1) = (Inr (), (m2, w2))"
      using a(2) by (auto simp: wire_block_def io_bind_Inr_iff io_lift_def Let_def)
    from attach_mode_wired [OF this, of "[]"] 1 show ?thesis by (auto simp: any_vtable_def)
  qed
  have 3: "wired E H [TYPE_BLOCK, TYPE_VSOCK] w3 \<and> mc_config m3 = mc_config m"
  proof -
    obtain v m2' where "attach_mode mode E H K (VsockD v) (m2', w2) = (Inr (), (m3, w3))" "mc_config m2' = mc_config m2"
      using a(3) by (auto simp: wire_vsock_def Let_def split: sum.splits)
    from attach_mode_wired [OF this(1), of "[TYPE_BLOCK]"] this(2) 2 show ?thesis by (auto simp: any_vtable_def)
  qed
  have "wired E H [TYPE_BLOCK, TYPE_VSOCK] (w3\<lparr> w_tap_fds := mc_tap_fds m3 \<rparr>)"
    using 3 by (simp add: wired_def)
  from wire_configured_wired [OF a4 this] 3 show ?thesis by simp
qed

lemma spawn_vcpus_snd:
  "mc_bus (snd (spawn_vcpus E prepare xs cs m)) = mc_bus m \<and>
   mc_config (snd (spawn_vcpus E prepare xs cs m)) = mc_config m"
proof (induction E prepare xs cs m rule: spawn_vcpus.induct)
  case (3 E prepare x xs c cs m)
  show ?case
  proof (cases "prepare x c")
    case (Inr c')
    show ?thesis
    proof (cases "thread_spawn E (''mm-vcpu-'' @ dec_of_nat (unat (v_index c')))")
      case (Inr u)
      from 3 [OF \<open>prepare x c = Inr c'\<close> refl Inr] show ?thesis
        using \<open>prepare x c = Inr c'\<close> Inr by (simp add: Let_def)
    qed (simp add: Inr Let_def)
  qed simp
qed simp_all

lemma spawn_vcpus_keeps:
  "spawn_vcpus E prepare xs cs m = (r, m') \<Longrightarrow> mc_bus m' = mc_bus m"
  "spawn_vcpus E prepare xs cs m = (r, m') \<Longrightarrow> mc_config m' = mc_config m"
  using spawn_vcpus_snd [of E prepare xs cs m] by simp_all

lemma machine_start_bus:
  assumes "machine_start E H K com1 V B m = (Inr (), m')"
  obtains w where "mc_bus m' = Some (w_bus w)" "mc_config m' = mc_config m"
    "wired E H (TYPE_BLOCK # TYPE_VSOCK # wanted_types Booting (devices (mc_config m))) w"
proof -
  obtain m1 w where "wire_devices Booting E H K com1 (m, wiring_start []) = (Inr (), (m1, w))"
    "start_guest E V B (m1, w) = (Inr (), m')"
    using assms by (auto simp: machine_start_def split: sum.splits prod.splits)
  moreover from this(2) have "mc_bus m' = Some (w_bus w)" "mc_config m' = mc_config m1"
    by (auto simp: start_guest_def Let_def split: sum.splits prod.splits option.splits dest: spawn_vcpus_keeps)
  ultimately show thesis using that [of w] wire_devices_wired by fastforce
qed

lemma resume_bus:
  assumes "resume_from_state E H K com1 V st m = (Inr (), m')"
  obtains w where "mc_bus m' = Some (w_bus w)" "mc_config m' = mc_config m"
    "wired E H (TYPE_BLOCK # TYPE_VSOCK # wanted_types Restoring (devices (mc_config m))) w"
proof -
  obtain m1 w where "wire_devices Restoring E H K com1 (m, wiring_start (vm_devices st)) = (Inr (), (m1, w))"
    "resume_guest E K V st (m1, w) = (Inr (), m')"
    using assms by (auto simp: resume_from_state_def split: sum.splits prod.splits)
  moreover from this(2) have "mc_bus m' = Some (w_bus w)" "mc_config m' = mc_config m1"
    by (auto simp: resume_guest_def split: sum.splits prod.splits if_splits dest: spawn_vcpus_keeps)
  ultimately show thesis using that [of w] wire_devices_wired by fastforce
qed

section \<open>Lemmas on the windows\<close>

lemma unat_dev_base: "i \<le> 0x2ffbc \<Longrightarrow> unat (dev_base i) = 0xd0000000 + i * 0x1000"
proof -
  assume i: "i \<le> 0x2ffbc"
  have "dev_base i = of_nat (0xd0000000 + i * 0x1000)"
    by (simp add: dev_base_def MMIO_DEVICE_BASE_def MMIO_DEVICE_SIZE_def)
  moreover have "unat (of_nat (0xd0000000 + i * 0x1000) :: u64) = 0xd0000000 + i * 0x1000"
    unfolding unat_of_nat using i by simp
  ultimately show ?thesis by simp
qed

lemma unat_dev_addr:
  assumes "i < 0x2ffbc" "off < MMIO_DEVICE_SIZE"
  shows "unat (dev_base i + off) = 0xd0000000 + i * 0x1000 + unat off"
proof -
  have "unat off < 0x1000" using assms(2) by (simp add: MMIO_DEVICE_SIZE_def word_less_nat_alt)
  moreover have "unat (dev_base i) = 0xd0000000 + i * 0x1000" using assms(1) by (intro unat_dev_base) simp
  ultimately show ?thesis using assms(1) by (simp add: unat_word_ariths)
qed

lemma wired_ranges:
  assumes "wired E H ts w" "i < length ts"
  shows "length (bus_mmio (w_bus w)) = length ts" "mr_base (bus_mmio (w_bus w) ! i) = dev_base i"
    "mr_size (bus_mmio (w_bus w) ! i) = MMIO_DEVICE_SIZE"
proof -
  have l: "map mr_base (bus_mmio (w_bus w)) = map dev_base [0..<length ts]"
    "\<forall>r \<in> set (bus_mmio (w_bus w)). mr_size r = MMIO_DEVICE_SIZE"
    using assms(1) by (auto simp: wired_def)
  from arg_cong [OF l(1), of length] show n: "length (bus_mmio (w_bus w)) = length ts" by simp
  from arg_cong [OF l(1), of "\<lambda>xs. xs ! i"] n assms(2) show "mr_base (bus_mmio (w_bus w) ! i) = dev_base i" by simp
  show "mr_size (bus_mmio (w_bus w) ! i) = MMIO_DEVICE_SIZE" using l(2) n assms(2) by simp
qed

lemma wired_disjoint:
  assumes "wired E H ts w" "length ts \<le> 0x2ffbc"
  shows "ranges_disjoint (bus_mmio (w_bus w))"
proof -
  have "False" if "i < length ts" "j < length ts" "i \<noteq> j" "dev_base i \<le> a" "a < dev_base i + MMIO_DEVICE_SIZE"
    "dev_base j \<le> a" "a < dev_base j + MMIO_DEVICE_SIZE" for i j and a :: u64
  proof -
    have u: "unat (dev_base i) = 0xd0000000 + i * 0x1000" "unat (dev_base j) = 0xd0000000 + j * 0x1000"
      "unat (dev_base (Suc i)) = 0xd0000000 + Suc i * 0x1000" "unat (dev_base (Suc j)) = 0xd0000000 + Suc j * 0x1000"
      using that assms(2) by (intro unat_dev_base; simp)+
    show False using that u by (simp add: word_less_nat_alt word_le_nat_alt flip: dev_base_Suc)
  qed
  moreover have "length (bus_mmio (w_bus w)) = length ts"
    using assms(1) by (auto simp: wired_def bus_types_def)
  ultimately show ?thesis unfolding ranges_disjoint_def using wired_ranges(2,3) [OF assms(1)] by simp blast
qed

lemma wired_routes:
  assumes "wired E H ts w" "length ts \<le> 0x2ffbc" "i < length ts" "off < MMIO_DEVICE_SIZE"
  shows "range_index (dev_base i + off) (bus_mmio (w_bus w)) = Some i"
proof (rule range_index_unique [OF wired_disjoint [OF assms(1,2)]])
  note r = wired_ranges [OF assms(1,3)]
  have u: "unat (dev_base i + off) = 0xd0000000 + i * 0x1000 + unat off"
    "unat (dev_base i) = 0xd0000000 + i * 0x1000" "unat (dev_base (Suc i)) = 0xd0000000 + Suc i * 0x1000"
    using assms by (intro unat_dev_addr unat_dev_base; simp)+
  show "i < length (bus_mmio (w_bus w))" using r(1) assms(3) by simp
  show "mr_base (bus_mmio (w_bus w) ! i) \<le> dev_base i + off"
    using r u by (simp add: word_le_nat_alt)
  have "unat off < 0x1000" using assms(4) by (simp add: MMIO_DEVICE_SIZE_def word_less_nat_alt)
  then show "dev_base i + off < mr_base (bus_mmio (w_bus w) ! i) + mr_size (bus_mmio (w_bus w) ! i)"
    using r u by (simp add: word_less_nat_alt flip: dev_base_Suc)
qed

lemma wired_in_hole:
  assumes "length ts \<le> 0x2ffbc" "i < length ts" "off < MMIO_DEVICE_SIZE"
  shows "MMIO_GAP_START \<le> dev_base i + off" "dev_base i + off < IDENTITY_MAP_ADDR"
proof -
  have "unat (dev_base i + off) = 0xd0000000 + i * 0x1000 + unat off" "unat off < 0x1000"
    using assms by (auto intro!: unat_dev_addr simp: MMIO_DEVICE_SIZE_def word_less_nat_alt)
  then show "MMIO_GAP_START \<le> dev_base i + off" "dev_base i + off < IDENTITY_MAP_ADDR"
    using assms by (simp_all add: word_le_nat_alt word_less_nat_alt MMIO_GAP_START_def IDENTITY_MAP_ADDR_def)
qed

lemma length_wanted_types: "length (wanted_types mode ds) \<le> length ds"
  by (induction mode ds rule: wanted_types.induct) auto

lemma wanted_types_restore: "wanted_types Restoring ds = filter (\<lambda>t. t \<noteq> TYPE_BALLOON) (wanted_types Booting ds)"
proof (induction ds)
  case (Cons d ds)
  then show ?case by (cases d) (simp_all add: TYPE_NET_def TYPE_BALLOON_def)
qed simp

lemma balloon_wanted: "TYPE_BALLOON \<in> set (wanted_types Booting ds) \<longleftrightarrow> (\<exists>mib. BalloonDev mib \<in> set ds)"
proof (induction ds)
  case (Cons d ds)
  then show ?case by (cases d) (auto simp: TYPE_NET_def TYPE_BALLOON_def)
qed simp

lemma start_guest_loads:
  assumes "start_guest E V B (m, w) = (Inr (), m')"
  shows "\<exists>sz kb mem. load_and_configure B (kernel (mc_config m)) (kernel_cmdline (mc_config m) @ w_cmdline w) sz
     (mc_mem m) = Inr (kb, mem)"
  using assms by (auto simp: start_guest_def Let_def split: sum.splits prod.splits option.splits)


text \<open>A machine for the witnesses: one vCPU, a read-only image, a balloon and a network device, on a
  host and a KVM that accept every call.\<close>

definition demo_config :: VmConfig where
  "demo_config =
     \<lparr> vcpus = 1, memory_mib = 64, kernel = ''vmlinux'', kernel_cmdline = ''console=ttyS0'',
       rootfs = \<lparr> bd_path = ''rootfs.img'', bd_read_only = True, bd_rate_limit = None \<rparr>,
       devices = [BalloonDev 16, NetDev ''tap0'' ''02:00:00:12:34:56'' None] \<rparr>"

definition demo_host :: host_env where
  "demo_host =
     \<lparr> h_open_image = (\<lambda>_ _. Inr \<lparr> f_bytes = [], f_writable = False \<rparr>), h_tun_open = Inr 7,
       h_tun_setiff = (\<lambda>_ _ _. Inr \<lparr> tap_in = [], tap_out = [] \<rparr>), h_listener_nonblock = Inr (),
       h_tap_nonblock = Inr (), h_net_epoll = Inr () \<rparr>"

definition demo_kvm :: "(page, nat, VcpuState, unit) kvm_env" where
  "demo_kvm =
     \<lparr> k_create_vm = Inr (), k_supported_cpuid = Inr [], k_set_identity_map_address = (\<lambda>_. Inr),
       k_set_tss_address = (\<lambda>_. Inr), k_set_user_memory_region = (\<lambda>_. Inr), k_create_irq_chip = Inr,
       k_create_pit2 = (\<lambda>_. Inr), k_create_vcpu = (\<lambda>_ _. Inr zero_vcpu), k_register_irqfd = (\<lambda>_ _. Inr),
       k_get_clock = (\<lambda>_. Inr []), k_set_clock = (\<lambda>_. Inr), k_get_irqchip = (\<lambda>_ _. Inr []),
       k_set_irqchip = (\<lambda>_ _. Inr), k_get_pit2 = (\<lambda>_. Inr []), k_set_pit2 = (\<lambda>_. Inr), k_irqchip_size = 0,
       k_pit_size = 0, k_get_dirty_log = (\<lambda>_ _ v. Inr ([], v)), k_regions = (\<lambda>_. [(0, 0x4000000)]) \<rparr>"

definition demo_boot_env :: "page boot_env" where
  "demo_boot_env =
     \<lparr> load_kernel = (\<lambda>_ _ m. Inr (0x1000000, m)), insert_cmdline = (\<lambda>_. Inr), load_cmdline = (\<lambda>_ _. Inr),
       write_bootparams = (\<lambda>_ _. Inr) \<rparr>"

definition demo_machine :: "(ringq, page, nat, VcpuState, unit, nat) Machine" where
  "demo_machine =
     \<lparr> mc_vm = (), mc_mem = page_of [], mc_vcpus = [\<lparr> v_fd = zero_vcpu, v_index = 0 \<rparr>], mc_config = demo_config,
       mc_threads = [], mc_bus = None, mc_ready = None, mc_tap_fds = [], mc_vsock_listener = None,
       mc_vcpu_stop = False, mc_powered_off = False, mc_vcpu_pause = False, mc_vcpu_states = [],
       mc_device_captures = [] \<rparr>"

definition demo_state :: VmState where
  "demo_state =
     \<lparr> vm_vcpus = [zero_vcpu\<lparr> vc_fpu := [0, 0, 0, 0, 0, 0] \<rparr>],
       vm_devices = [\<lparr> ds_device_type = TYPE_BLOCK, ds_queues = [cursor_of_state (fresh_state 256)] \<rparr>,
         \<lparr> ds_device_type = TYPE_VSOCK, ds_queues = [] \<rparr>, \<lparr> ds_device_type = TYPE_NET, ds_queues = [] \<rparr>],
       vm_clock = [], vm_irqchip = \<lparr> ic_pic_master = [], ic_pic_slave = [], ic_ioapic = [], ic_pit = [] \<rparr> \<rparr>"

lemmas demo_defs = demo_config_def demo_host_def demo_kvm_def demo_boot_env_def demo_machine_def demo_state_def
  low_env_def ring_env_def

lemmas wiring_defs = wire_devices_def wire_serial_def wire_block_def wire_vsock_def wire_net_def attach_mode_def
  attach_paused_def install_device_pause_def attach_virtio_def take_taps_def next_tap_def open_tap_def
  restore_activate_next_def restore_activate_def transport_activate_def transport_new_def wiring_start_def
  io_bind_def io_lift_def io_return_def Let_def

lemma demo_mac: "parse_mac ''02:00:00:12:34:56'' = Inr [2, 0, 0, 0x12, 0x34, 0x56]"
  by (simp add: parse_mac_def parse_hex_def hex_val_def)

lemma demo_wired: "\<exists>w. wire_devices Booting low_env demo_host demo_kvm (\<lambda>e. e) (demo_machine, wiring_start []) =
   (Inr (), (demo_machine\<lparr> mc_ready := Some \<lparr> vr_flag = False, vr_evt = 0 \<rparr>,
      mc_device_captures := map (\<lambda>t. \<lparr> dc_device_type = t, dc_evt = 0, dc_slot = None \<rparr>) [TYPE_BLOCK, TYPE_VSOCK, TYPE_NET] \<rparr>, w))"
  by (simp add: wiring_defs demo_defs demo_mac block_new_def vsock_new_def vsock_ready_new_def net_new_def
      balloon_new_def any_vtable_def block_set_pause_handle_def net_set_pause_handle_def vsock_set_pause_handle_def
      IFNAMSIZ_def)


lemma demo_vcpus: "\<exists>f m'. configure_vcpus low_env sim_vcpu kb [\<lparr> v_fd = zero_vcpu, v_index = 0 \<rparr>] m =
   (Inr [\<lparr> v_fd = f, v_index = 0 \<rparr>], m')"
proof -
  have "kvm_accepts sim_vcpu" by (simp add: kvm_accepts_def sim_vcpu_def)
  from configure_boot_long_mode [OF low_env_laws(2,1) _ this, of "entry_point kb" "boot_params_addr kb" m zero_vcpu]
  obtain m' f where "configure_boot low_env sim_vcpu (entry_point kb) (boot_params_addr kb) (m, zero_vcpu) = (Inr (), (m', f))"
    by auto
  then show ?thesis by (simp add: io_bind_def io_return_def)
qed

lemma demo_started: "\<exists>m'. machine_start low_env demo_host demo_kvm (\<lambda>e. e) sim_vcpu demo_boot_env demo_machine = (Inr (), m')"
proof -
  obtain m1 w where w: "wire_devices Booting low_env demo_host demo_kvm (\<lambda>e. e) (demo_machine, wiring_start []) = (Inr (), (m1, w))"
    "mc_vcpus m1 = [\<lparr> v_fd = zero_vcpu, v_index = 0 \<rparr>]" "mc_config m1 = demo_config"
    using demo_wired by (auto simp: demo_machine_def)
  have k: "\<exists>kb mem. load_and_configure demo_boot_env k c sz m = Inr (kb, mem)" if "sz = 0x4000000" for k c sz m
    unfolding that by (simp add: load_and_configure_def demo_boot_env_def write_cmdline_def configure_boot_params_def
        boot_params_for_def add_e820_entry_def boot_params_default_def Let_def)
  obtain kb mem where kb: "load_and_configure demo_boot_env (kernel demo_config) (kernel_cmdline demo_config @ w_cmdline w)
      0x4000000 (mc_mem m1) = Inr (kb, mem)" using k by blast
  obtain f mem' where "configure_vcpus low_env sim_vcpu kb [\<lparr> v_fd = zero_vcpu, v_index = 0 \<rparr>] mem =
      (Inr [\<lparr> v_fd = f, v_index = 0 \<rparr>], mem')" using demo_vcpus by blast
  moreover have "checked_mul (memory_mib demo_config) (2 ^ 20) = Some 0x4000000"
    by (simp add: demo_config_def checked_mul_def)
  moreover have "thread_spawn low_env n = Inr ()" for n by (simp add: low_env_def ring_env_def)
  ultimately show ?thesis using w kb by (simp add: machine_start_def start_guest_def Let_def)
qed

lemma demo_resumed: "\<exists>m'. resume_from_state low_env demo_host demo_kvm (\<lambda>e. e) sim_vcpu demo_state demo_machine = (Inr (), m')"
proof -
  have "\<exists>w. wire_devices Restoring low_env demo_host demo_kvm (\<lambda>e. e) (demo_machine, wiring_start (vm_devices demo_state)) =
   (Inr (), (demo_machine\<lparr> mc_ready := Some \<lparr> vr_flag = False, vr_evt = 0 \<rparr>,
      mc_device_captures := map (\<lambda>t. \<lparr> dc_device_type = t, dc_evt = 0, dc_slot = None \<rparr>) [TYPE_BLOCK, TYPE_VSOCK, TYPE_NET] \<rparr>, w))"
    by (simp add: wiring_defs demo_defs demo_mac block_new_def vsock_new_def vsock_ready_new_def net_new_def
        any_vtable_def block_set_pause_handle_def net_set_pause_handle_def vsock_set_pause_handle_def
        IFNAMSIZ_def add_mmio_device_def block_activate_def net_activate_def vsock_activate_def box_io_def
        bus_new_def set_serial_def EVENT_QUEUE_INDEX_def VSOCK_RX_QUEUE_INDEX_def VSOCK_TX_QUEUE_INDEX_def)
  then obtain m1 w where w: "wire_devices Restoring low_env demo_host demo_kvm (\<lambda>e. e)
      (demo_machine, wiring_start (vm_devices demo_state)) = (Inr (), (m1, w))"
    "mc_vcpus m1 = [\<lparr> v_fd = zero_vcpu, v_index = 0 \<rparr>]"
    by (auto simp: demo_machine_def)
  have "\<exists>f. restore_state sim_vcpu (zero_vcpu\<lparr> vc_fpu := [0, 0, 0, 0, 0, 0] \<rparr>) zero_vcpu = (Inr (), f)"
    by (simp add: restore_state_def sim_vcpu_def zero_vcpu_def io_bind_def kvm_set_def io_return_def pod_from_bytes_def
        set_all_msrs_def)
  then obtain f where "restore_vcpu sim_vcpu (zero_vcpu\<lparr> vc_fpu := [0, 0, 0, 0, 0, 0] \<rparr>) \<lparr> v_fd = zero_vcpu, v_index = 0 \<rparr> = Inr f"
    by (auto simp: restore_vcpu_def)
  moreover have "thread_spawn low_env n = Inr ()" for n by (simp add: low_env_def ring_env_def)
  ultimately show ?thesis
    using w by (simp add: resume_from_state_def resume_guest_def restore_clock_def kvm_err_def demo_kvm_def
        demo_state_def Let_def)
qed

section \<open>Properties\<close>

text \<open>C7: The device layout of a booted machine.  When the machine has started, the bus holds the block device, the vsock
  device and then the network and balloon devices in configuration order; device number \<open>i\<close> answers exactly at the
  page \<open>0xd0000000 + 4096 i\<close>, so that every read of that page is routed to it at the right register offset and to no other
  device; all pages lie in the 32-bit hole, away from guest RAM and from the pages KVM reserves; and the kernel was
  loaded with a command line that announces exactly these pages and interrupt lines, in order.\<close>

theorem boot_layout:
  assumes "machine_start E H K com1 V B m = (Inr (), m')" and "length (devices (mc_config m)) \<le> 0x2ffba"
  defines "ts \<equiv> TYPE_BLOCK # TYPE_VSOCK # wanted_types Booting (devices (mc_config m))"
  shows "\<exists>b. mc_bus m' = Some b \<and> bus_types E H b = ts \<and>
     (\<forall>i < length ts. \<forall>off < MMIO_DEVICE_SIZE.
        mmio_read (any_vtable E H) E (dev_base i + off) data b =
          transport_read (any_vtable E H) E off data (mr_transport (bus_mmio b ! i)) \<and>
        MMIO_GAP_START \<le> dev_base i + off \<and> dev_base i + off < IDENTITY_MAP_ADDR) \<and>
     (\<exists>sz mem kb mem'. load_and_configure B (kernel (mc_config m)) (kernel_cmdline (mc_config m) @ layout_of ts) sz mem
        = Inr (kb, mem'))"
proof -
  obtain m1 w where w: "wire_devices Booting E H K com1 (m, wiring_start []) = (Inr (), (m1, w))"
    "start_guest E V B (m1, w) = (Inr (), m')"
    using assms(1) by (auto simp: machine_start_def split: sum.splits prod.splits)
  have b: "mc_bus m' = Some (w_bus w)"
    using w(2) by (auto simp: start_guest_def Let_def split: sum.splits prod.splits option.splits dest: spawn_vcpus_keeps)
  have wd: "wired E H ts w" "mc_config m1 = mc_config m" using wire_devices_wired [OF w(1)] by (simp_all add: ts_def)
  have n: "length ts \<le> 0x2ffbc"
    using assms(2) length_wanted_types [of Booting "devices (mc_config m)"] by (simp add: ts_def)
  have "mmio_read (any_vtable E H) E (dev_base i + off) data (w_bus w) =
      transport_read (any_vtable E H) E off data (mr_transport (bus_mmio (w_bus w) ! i))"
    if "i < length ts" "off < MMIO_DEVICE_SIZE" for i off
    using wired_routes [OF wd(1) n that] wired_ranges [OF wd(1) that(1)] by (simp add: mmio_read_def Let_def)
  moreover have "w_cmdline w = layout_of ts" "bus_types E H (w_bus w) = ts" using wd(1) by (auto simp: wired_def)
  ultimately show ?thesis
    using b wd(2) start_guest_loads [OF w(2)] wired_in_hole [OF n] by auto
qed

theorem boot_layout_witness:
  "\<exists>m' b. machine_start low_env demo_host demo_kvm (\<lambda>e. e) sim_vcpu demo_boot_env demo_machine = (Inr (), m') \<and>
     mc_bus m' = Some b \<and> bus_types low_env demo_host b = [TYPE_BLOCK, TYPE_VSOCK, TYPE_BALLOON, TYPE_NET] \<and>
     mmio_read (any_vtable low_env demo_host) low_env (dev_base 3 + REG_DEVICE_ID) [0, 0, 0, 0] b =
       transport_read (any_vtable low_env demo_host) low_env REG_DEVICE_ID [0, 0, 0, 0] (mr_transport (bus_mmio b ! 3))"
proof -
  obtain m' where m': "machine_start low_env demo_host demo_kvm (\<lambda>e. e) sim_vcpu demo_boot_env demo_machine = (Inr (), m')"
    using demo_started by blast
  have "REG_DEVICE_ID < MMIO_DEVICE_SIZE" by (simp add: MMIO_DEVICE_SIZE_def)
  with boot_layout [OF m', of "[0, 0, 0, 0]"] m' show ?thesis
    by (auto simp: demo_machine_def demo_config_def)
qed

text \<open>C20: Restoring rebuilds the device pages of the booted machine exactly when the configuration has no balloon.  For a
  machine that booted and one that was resumed from a saved state with the same configuration, the device at every page
  is of the same type in both if and only if no balloon is configured: the restore leaves balloons out, and every
  device configured after one answers at another page than the one the guest's driver is bound to.\<close>

theorem restore_layout_iff:
  assumes "machine_start E H K com1 V B m = (Inr (), m')" and "resume_from_state E2 H2 K2 com2 V2 st r = (Inr (), r')"
    and "mc_config r = mc_config m"
  shows "\<exists>b c. mc_bus m' = Some b \<and> mc_bus r' = Some c \<and>
     (bus_types E2 H2 c = bus_types E H b \<longleftrightarrow> (\<forall>mib. BalloonDev mib \<notin> set (devices (mc_config m))))"
proof -
  obtain w where w: "mc_bus m' = Some (w_bus w)"
    "wired E H (TYPE_BLOCK # TYPE_VSOCK # wanted_types Booting (devices (mc_config m))) w"
    using machine_start_bus [OF assms(1)] by blast
  obtain x where x: "mc_bus r' = Some (w_bus x)"
    "wired E2 H2 (TYPE_BLOCK # TYPE_VSOCK # wanted_types Restoring (devices (mc_config m))) x"
    using resume_bus [OF assms(2)] assms(3) by metis
  have "bus_types E2 H2 (w_bus x) = bus_types E H (w_bus w) \<longleftrightarrow>
      filter (\<lambda>t. t \<noteq> TYPE_BALLOON) (wanted_types Booting (devices (mc_config m))) =
      wanted_types Booting (devices (mc_config m))"
    using w(2) x(2) by (simp add: wired_def wanted_types_restore)
  also have "\<dots> \<longleftrightarrow> TYPE_BALLOON \<notin> set (wanted_types Booting (devices (mc_config m)))"
    by (auto simp: filter_id_conv)
  finally show ?thesis using w(1) x(1) by (auto simp: balloon_wanted)
qed

theorem restore_layout_iff_witness:
  "\<exists>m' r' b c. machine_start low_env demo_host demo_kvm (\<lambda>e. e) sim_vcpu demo_boot_env demo_machine = (Inr (), m') \<and>
     resume_from_state low_env demo_host demo_kvm (\<lambda>e. e) sim_vcpu demo_state demo_machine = (Inr (), r') \<and>
     mc_bus m' = Some b \<and> mc_bus r' = Some c \<and> bus_types low_env demo_host c \<noteq> bus_types low_env demo_host b"
proof -
  obtain m' r' where m': "machine_start low_env demo_host demo_kvm (\<lambda>e. e) sim_vcpu demo_boot_env demo_machine = (Inr (), m')"
    and r': "resume_from_state low_env demo_host demo_kvm (\<lambda>e. e) sim_vcpu demo_state demo_machine = (Inr (), r')"
    using demo_started demo_resumed by blast
  have "BalloonDev 16 \<in> set (devices (mc_config demo_machine))" by (simp add: demo_machine_def demo_config_def)
  with restore_layout_iff [OF m' r' refl] m' r' show ?thesis by blast
qed

text \<open>C29: A reset ends a live device for good.  After the driver of an activated device of any kind writes zero to the
  status register, no sequence of register writes brings the device back: it never becomes active again, and each later
  attempt to set \<open>DRIVER_OK\<close> reports failure, because activation moved the queues away and the reset does not rebuild
  them.\<close>

theorem reset_kills_device:
  assumes "transport_new (any_vtable E H) E d i = Inr t0" and "t = guest_writes (any_vtable E H) E ws0 t0"
    and "mt_activated t"
  shows "\<not> mt_activated (guest_writes (any_vtable E H) E ws (set_status (any_vtable E H) E 0 t)) \<and>
     (v AND STATUS_DRIVER_OK \<noteq> 0 \<longrightarrow>
       mt_status (set_status (any_vtable E H) E v (guest_writes (any_vtable E H) E ws (set_status (any_vtable E H) E 0 t)))
       = v OR STATUS_FAILED)"
proof -
  have "transport_wf t" unfolding assms(2) by (intro transport_wf_writes transport_wf_new [OF assms(1)])
  from any.reset_is_final [OF this assms(3)] show ?thesis .
qed

definition demo_transport :: "((ringq, nat) AnyDevice, ringq, nat) MmioTransport" where
  "demo_transport = projr (transport_new (any_vtable ring_env demo_host) ring_env (BalloonD (balloon_new 16)) (interrupt_new 0))"

theorem reset_kills_device_witness:
  "\<exists>t. t = guest_writes (any_vtable ring_env demo_host) ring_env [(REG_STATUS, [4, 0, 0, 0])] demo_transport \<and>
     mt_activated t \<and>
     mt_status (set_status (any_vtable ring_env demo_host) ring_env 4
       (guest_writes (any_vtable ring_env demo_host) ring_env [(REG_STATUS, [1, 0, 0, 0])]
         (set_status (any_vtable ring_env demo_host) ring_env 0 t))) = 0x84"
proof -
  let ?T = "any_vtable ring_env demo_host"
  have n: "transport_new ?T ring_env (BalloonD (balloon_new 16)) (interrupt_new 0) = Inr demo_transport"
    by (simp add: demo_transport_def transport_new_def any_vtable_def balloon_new_def ring_env_def Let_def)
  have a: "mt_activated (guest_writes ?T ring_env [(REG_STATUS, [4, 0, 0, 0])] demo_transport)"
    by (simp add: demo_transport_def transport_new_def any_vtable_def balloon_new_def ring_env_def Let_def
        transport_write_status set_status_def STATUS_DRIVER_OK_def transport_activate_def box_io_def balloon_activate_def
        spawn_balloon_worker_def io_bind_def)
  from reset_kills_device [OF n refl a, of "[(REG_STATUS, [1, 0, 0, 0])]" 4] a show ?thesis
    by (simp add: STATUS_DRIVER_OK_def STATUS_FAILED_def)
qed

end
