(* ===== verification/Snapshot.thy ===== *)
theory Snapshot
  imports Machine_Boot "HOL-Library.List_Lexorder" "HOL-Library.Char_ord" "HOL-Library.Multiset"
begin

text \<open>
  Snapshot metadata: the manifest and its host fingerprint
  (\<open>crates/mm-vmm/src/snapshot/manifest.rs\<close>), the hash of the host's CPUID leaves that the
  fingerprint is made of (\<open>machine.rs\<close>), the plan of a fork
  (\<open>snapshot/fork.rs\<close>) and the on-disk store with its retention
  (\<open>snapshot/store.rs\<close>).  The JSON codec is library code and a parameter.
\<close>

section \<open>Manifest and fingerprint\<close>

record HostFingerprint =
  hf_cpuid_hash :: u64
  hf_tsc_khz :: u32

datatype SnapshotKind = Full | Diff

record SnapshotManifest =
  sm_version :: u32
  sm_vcpu_count :: u8
  sm_memory_mib :: u64
  sm_memory_file :: string
  sm_state_file :: string
  sm_kind :: SnapshotKind
  sm_parent_uid :: "string option"
  sm_host :: HostFingerprint

abbreviation CURRENT_VERSION :: u32 where "CURRENT_VERSION \<equiv> 1"

definition is_unset :: "HostFingerprint \<Rightarrow> bool" where
  "is_unset h \<longleftrightarrow> hf_cpuid_hash h = 0"

definition check_restore_onto :: "HostFingerprint \<Rightarrow> HostFingerprint \<Rightarrow> string + unit" where
  "check_restore_onto h live =
     (if is_unset h then Inr ()
      else if hf_cpuid_hash h \<noteq> hf_cpuid_hash live then Inl ''snapshot host CPU feature set differs from this host''
      else Inr ())"

definition is_forkable :: "SnapshotManifest \<Rightarrow> bool" where
  "is_forkable m \<longleftrightarrow> sm_version m = CURRENT_VERSION \<and> sm_kind m = Full"


section \<open>The hash of the CPUID leaves\<close>

text \<open>A leaf as seven words, with the fields that depend on the calling thread masked.\<close>

definition canon_leaf :: "kvm_cpuid_entry2 \<Rightarrow> u32 list" where
  "canon_leaf e =
     (let ebx = (if ce_function e = 1 then ce_ebx e AND 0x00FFFFFF
                 else if ce_function e = 0xD \<and> (ce_index e = 0 \<or> ce_index e = 1) then 0 else ce_ebx e);
          ecx = (if ce_function e = 0xD \<and> ce_index e = 0 then 0 else ce_ecx e);
          edx = (if ce_function e = 0xB \<or> ce_function e = 0x1F then 0 else ce_edx e) in
      [ce_function e, ce_index e, ce_flags e, ce_eax e, ebx, ecx, edx])"

abbreviation FNV_OFFSET :: u64 where "FNV_OFFSET \<equiv> 0xcbf29ce484222325"
abbreviation FNV_PRIME :: u64 where "FNV_PRIME \<equiv> 0x00000100000001b3"

definition fnv_byte :: "u8 \<Rightarrow> u64 \<Rightarrow> u64" where
  "fnv_byte b h = (h XOR ucast b) * FNV_PRIME"

definition fnv_words :: "u32 list \<Rightarrow> u64 \<Rightarrow> u64" where
  "fnv_words ws h = fold fnv_byte (concat (map (le_bytes 4) ws)) h"

definition leaves_hash :: "kvm_cpuid_entry2 list \<Rightarrow> u64" where
  "leaves_hash es = fold fnv_words (sort (map canon_leaf es)) FNV_OFFSET"

definition cpuid_hash :: "('m, 'e, 'f, 'v) kvm_env \<Rightarrow> VmmError + u64" where
  "cpuid_hash K = res_bind (kvm_err (k_supported_cpuid K)) (\<lambda>es. Inr (leaves_hash es))"

definition verify_host :: "('m, 'e, 'f, 'v) kvm_env \<Rightarrow> HostFingerprint \<Rightarrow> VmmError + unit" where
  "verify_host K expected =
     res_bind (cpuid_hash K) (\<lambda>h.
       case check_restore_onto expected \<lparr> hf_cpuid_hash = h, hf_tsc_khz = 0 \<rparr> of
         Inl e \<Rightarrow> Inl (Device e) | Inr _ \<Rightarrow> Inr ())"


section \<open>Fork plans\<close>

datatype ForkError = NotForkable | ZeroCount | OverBudget

record ForkPlan =
  fp_child_ids :: "u64 list"
  fp_shared_mib :: u64
  fp_per_child_overhead_mib :: u64

text \<open>The range \<open>next_id..next_id + count\<close>; its end wraps in a release build.\<close>

definition id_range :: "u64 \<Rightarrow> u64 \<Rightarrow> u64 list" where
  "id_range a b = map (\<lambda>i. a + of_nat i) [0..<unat b - unat a]"

definition plan_fork :: "SnapshotManifest \<Rightarrow> u64 \<Rightarrow> u64 \<Rightarrow> u64 \<Rightarrow> u64 \<Rightarrow> ForkError + ForkPlan" where
  "plan_fork parent n next_id free_mib overhead =
     (if \<not> is_forkable parent then Inl NotForkable
      else if n = 0 then Inl ZeroCount
      else if saturating_mul n overhead > free_mib then Inl OverBudget
      else Inr \<lparr> fp_child_ids = id_range next_id (next_id + n), fp_shared_mib = sm_memory_mib parent,
                 fp_per_child_overhead_mib = overhead \<rparr>)"


section \<open>The store\<close>

definition is_ascii_alnum :: "char \<Rightarrow> bool" where
  "is_ascii_alnum c \<longleftrightarrow>
     (let k = of_char c :: nat in (48 \<le> k \<and> k \<le> 57) \<or> (65 \<le> k \<and> k \<le> 90) \<or> (97 \<le> k \<and> k \<le> 122))"

definition sanitize :: "string \<Rightarrow> string" where
  "sanitize name =
     (let out = map (\<lambda>c. if is_ascii_alnum c \<or> c = CHR ''-'' \<or> c = CHR ''_'' \<or> c = CHR ''.'' then c else CHR ''_'') name in
      if out = [] \<or> out = ''.'' \<or> out = ''..'' then ''_'' else out)"

text \<open>The directory of a machine: its entries in the order the file system lists them, each a
  plain file or a directory with the content of its manifest, if it has one.\<close>

datatype dir_entry = PlainFile | SnapDir "bytes option"

type_synonym machine_dir = "(string \<times> dir_entry) list"

type_synonym snap_fs = "string \<Rightarrow> machine_dir option"

record SnapshotRef =
  sr_id :: string
  sr_manifest :: SnapshotManifest

fun entry_ref :: "(bytes \<Rightarrow> SnapshotManifest option) \<Rightarrow> string \<times> dir_entry \<Rightarrow> SnapshotRef option" where
  "entry_ref parse (name, SnapDir (Some bs)) =
     map_option (\<lambda>m. \<lparr> sr_id = name, sr_manifest = m \<rparr>) (parse bs)"
| "entry_ref parse (name, _) = None"

definition store_list :: "(bytes \<Rightarrow> SnapshotManifest option) \<Rightarrow> snap_fs \<Rightarrow> string \<Rightarrow> SnapshotRef list" where
  "store_list parse fs machine =
     (case fs (sanitize machine) of
        None \<Rightarrow> []
      | Some es \<Rightarrow> rev (sort_key sr_id (List.map_filter (entry_ref parse) es)))"

definition store_find :: "(bytes \<Rightarrow> SnapshotManifest option) \<Rightarrow> snap_fs \<Rightarrow> string \<Rightarrow> string \<Rightarrow> SnapshotRef option" where
  "store_find parse fs machine i = find (\<lambda>s. sr_id s = i) (store_list parse fs machine)"

definition remove_dir :: "string \<Rightarrow> string \<Rightarrow> snap_fs \<Rightarrow> snap_fs" where
  "remove_dir mdir i fs = fs(mdir := map_option (filter (\<lambda>e. fst e \<noteq> i)) (fs mdir))"

text \<open>\<open>rm\<close> tells which directories the file system fails to remove, and how.\<close>

fun gc_loop :: "(string \<Rightarrow> string option) \<Rightarrow> string \<Rightarrow> string list \<Rightarrow> snap_fs \<Rightarrow> (string + string list) \<times> snap_fs" where
  "gc_loop rm mdir [] fs = (Inr [], fs)"
| "gc_loop rm mdir (i # is) fs =
     (case rm i of
        Some e \<Rightarrow> (Inl e, fs)
      | None \<Rightarrow>
          (case gc_loop rm mdir is (remove_dir mdir i fs) of
             (Inl e, fs') \<Rightarrow> (Inl e, fs')
           | (Inr removed, fs') \<Rightarrow> (Inr (i # removed), fs')))"

definition store_gc ::
  "(bytes \<Rightarrow> SnapshotManifest option) \<Rightarrow> (string \<Rightarrow> string option) \<Rightarrow> string \<Rightarrow> nat \<Rightarrow> snap_fs
   \<Rightarrow> (string + string list) \<times> snap_fs" where
  "store_gc parse rm machine keep fs =
     (case gc_loop rm (sanitize machine) (map sr_id (drop keep (store_list parse fs machine))) fs of
        (Inl e, fs') \<Rightarrow> (Inl e, fs')
      | (Inr removed, fs') \<Rightarrow> (Inr (rev removed), fs'))"

definition store_remove :: "(string \<Rightarrow> string option) \<Rightarrow> string \<Rightarrow> string \<Rightarrow> snap_fs \<Rightarrow> (string + unit) \<times> snap_fs" where
  "store_remove rm machine i fs =
     (case fs (sanitize machine) of
        None \<Rightarrow> (Inr (), fs)
      | Some es \<Rightarrow>
          if sanitize i \<notin> fst ` set es then (Inr (), fs)
          else (case rm (sanitize i) of
                  Some e \<Rightarrow> (Inl e, fs)
                | None \<Rightarrow> (Inr (), remove_dir (sanitize machine) (sanitize i) fs)))"

text \<open>\<open>{:020}\<close> of a number of nanoseconds.\<close>

definition pad20 :: "nat \<Rightarrow> string" where
  "pad20 n = replicate (20 - length (dec_of_nat n)) (CHR ''0'') @ dec_of_nat n"

definition u128_max :: nat where "u128_max = 2 ^ 128 - 1"

fun alloc_dir :: "nat \<Rightarrow> nat \<Rightarrow> nat \<Rightarrow> machine_dir \<Rightarrow> (string \<times> machine_dir) option" where
  "alloc_dir base bump 0 es = None"
| "alloc_dir base bump (Suc tries) es =
     (let i = pad20 (min (base + bump) u128_max) in
      if i \<in> fst ` set es then alloc_dir base (bump + 1) tries es
      else Some (i, es @ [(i, SnapDir None)]))"

text \<open>\<open>now\<close> is the clock; a failure is the error for no unique id.\<close>

definition new_snapshot_dir :: "nat \<Rightarrow> string \<Rightarrow> snap_fs \<Rightarrow> (string + string) \<times> snap_fs" where
  "new_snapshot_dir now machine fs =
     (let mdir = sanitize machine; es = (case fs mdir of None \<Rightarrow> [] | Some es \<Rightarrow> es); fs = fs(mdir \<mapsto> es) in
      case alloc_dir now 0 1000000 es of
        None \<Rightarrow> (Inl ''could not allocate a unique snapshot id'', fs)
      | Some (i, es') \<Rightarrow> (Inr i, fs(mdir \<mapsto> es')))"


section \<open>Lemmas on identifiers\<close>

definition is_digit :: "char \<Rightarrow> bool" where
  "is_digit c \<longleftrightarrow> (\<exists>d. digit_val c = Some d)"

definition num_of :: "string \<Rightarrow> nat" where
  "num_of s = foldl (\<lambda>acc c. 10 * acc + the (digit_val c)) 0 s"

lemma foldl_num: "foldl (\<lambda>acc c. 10 * acc + the (digit_val c)) acc s = acc * 10 ^ length s + num_of s"
proof (induction s arbitrary: acc)
  case (Cons c s)
  from Cons [of "10 * acc + the (digit_val c)"] Cons [of "the (digit_val c)"] show ?case
    by (simp add: num_of_def algebra_simps)
qed (simp add: num_of_def)

lemma num_of_Cons: "num_of (c # s) = the (digit_val c) * 10 ^ length s + num_of s"
  using foldl_num [of "the (digit_val c)" s] by (simp add: num_of_def)

lemma digit_val_bound: "digit_val c = Some d \<Longrightarrow> d < 10 \<and> of_char c = 48 + d"
  by (auto simp: digit_val_def Let_def split: if_splits)

lemma digit_step:
  fixes d :: nat
  assumes "d < k" "x < P"
  shows "d * P + x < k * P"
proof -
  have "Suc d * P \<le> k * P" using assms(1) by (intro mult_le_mono1) simp
  then show ?thesis using assms(2) unfolding mult_Suc by linarith
qed

lemma num_of_bound: "list_all is_digit s \<Longrightarrow> num_of s < 10 ^ length s"
proof (induction s)
  case (Cons c s)
  then obtain d where d: "digit_val c = Some d" "d < 10" using digit_val_bound by (auto simp: is_digit_def)
  have "num_of s < 10 ^ length s" using Cons by simp
  from digit_step [OF d(2) this] d(1) show ?case by (simp add: num_of_Cons)
qed (simp add: num_of_def)

lemma char_less_digit:
  "digit_val c = Some d \<Longrightarrow> digit_val e = Some k \<Longrightarrow> c < e \<longleftrightarrow> d < k"
  using digit_val_bound [of c d] digit_val_bound [of e k] by (simp add: less_char_def)

lemma digits_less_iff:
  assumes "length s = length t" "list_all is_digit s" "list_all is_digit t"
  shows "s < t \<longleftrightarrow> num_of s < num_of t"
  using assms
proof (induction s t rule: list_induct2)
  case (Cons c s e t)
  then obtain d k where d: "digit_val c = Some d" "digit_val e = Some k" by (auto simp: is_digit_def)
  have b: "num_of s < 10 ^ length s" "num_of t < 10 ^ length s"
    using Cons num_of_bound [of s] num_of_bound [of t] by auto
  have ce: "c = e \<longleftrightarrow> d = k"
    using digit_val_bound [OF d(1)] digit_val_bound [OF d(2)] of_char_eq_iff [of c e, where ?'a = nat] by auto
  have lex: "(c # s < e # t) = (d < k \<or> d = k \<and> num_of s < num_of t)"
    using Cons char_less_digit [OF d] ce by simp
  show ?case
  proof (cases d k rule: linorder_cases)
    case less
    from digit_step [OF this b(1)] show ?thesis using lex less d Cons.hyps by (simp add: num_of_Cons)
  next
    case equal
    then show ?thesis using lex d Cons.hyps by (simp add: num_of_Cons)
  next
    case greater
    from digit_step [OF this b(2)] show ?thesis using lex greater d Cons.hyps by (simp add: num_of_Cons)
  qed
qed simp

lemma digits_val_num: "list_all is_digit s \<Longrightarrow> digits_val acc s = Some (foldl (\<lambda>acc c. 10 * acc + the (digit_val c)) acc s)"
  by (induction s arbitrary: acc) (auto simp: is_digit_def)

lemma digits_of_set: "set s \<subseteq> set ''0123456789'' \<Longrightarrow> list_all is_digit s"
proof -
  assume a: "set s \<subseteq> set ''0123456789''"
  have "is_digit c" if "c \<in> set ''0123456789''" for c
    using that by (auto simp: is_digit_def digit_val_def Let_def)
  then show ?thesis using a by (auto simp: list_all_iff)
qed

lemma pad20_digits: "list_all is_digit (pad20 n)"
  using dec_of_nat_digits [of n] by (intro digits_of_set) (auto simp: pad20_def)

lemma num_of_replicate: "num_of (replicate k (CHR ''0'') @ s) = num_of s"
  by (induction k) (simp_all add: num_of_Cons digit_val_def)

lemma num_of_pad20: "num_of (pad20 n) = n"
proof -
  have "list_all is_digit (dec_of_nat n)" using dec_of_nat_digits [of n] by (rule digits_of_set)
  then have "num_of (dec_of_nat n) = n"
    using digits_val_num [of "dec_of_nat n" 0] digits_val_dec_of_nat [of n] by (simp add: num_of_def)
  then show ?thesis by (simp add: pad20_def num_of_replicate)
qed

lemma length_pad20: "n < 10 ^ 20 \<Longrightarrow> length (pad20 n) = 20"
  using length_dec_of_nat [of n 20] by (simp add: pad20_def)

lemma pad20_less_iff: "m < 10 ^ 20 \<Longrightarrow> n < 10 ^ 20 \<Longrightarrow> pad20 m < pad20 n \<longleftrightarrow> m < n"
  using digits_less_iff [of "pad20 m" "pad20 n"] by (simp only: length_pad20 pad20_digits num_of_pad20)


section \<open>Lemmas on the store\<close>

lemma entry_ref_id: "entry_ref parse e = Some r \<Longrightarrow> sr_id r = fst e"
  by (cases "(parse, e)" rule: entry_ref.cases) auto

lemma map_filter_ids:
  "set (map sr_id (List.map_filter (entry_ref parse) es)) \<subseteq> fst ` set es"
proof (induction es)
  case (Cons e es)
  then show ?case using entry_ref_id [of parse e]
    by (cases "entry_ref parse e") (auto simp: List.map_filter_def)
qed (simp add: List.map_filter_def)

lemma map_filter_filter:
  "List.map_filter (entry_ref parse) (filter (\<lambda>e. P (fst e)) es) =
   filter (\<lambda>r. P (sr_id r)) (List.map_filter (entry_ref parse) es)"
proof (induction es)
  case (Cons e es)
  then show ?case using entry_ref_id [of parse e]
    by (cases "entry_ref parse e") (auto simp: List.map_filter_def)
qed (simp add: List.map_filter_def)

lemma distinct_map_filter:
  "distinct (map fst es) \<Longrightarrow> distinct (map sr_id (List.map_filter (entry_ref parse) es))"
proof (induction es)
  case (Cons e es)
  then show ?case using entry_ref_id [of parse e] map_filter_ids [of parse es]
    by (cases "entry_ref parse e") (auto simp: List.map_filter_def)
qed (simp add: List.map_filter_def)

lemma rev_sort_filter: "rev (sort_key f (filter P xs)) = filter P (rev (sort_key f xs))"
  by (simp only: filter_sort [symmetric] rev_filter)

lemma gc_loop_removes:
  assumes "\<forall>i \<in> set is. rm i = None"
  shows "gc_loop rm mdir is fs =
    (Inr is, fs(mdir := map_option (filter (\<lambda>e. fst e \<notin> set is)) (fs mdir)))"
  using assms
proof (induction "is" arbitrary: fs)
  case Nil
  then show ?case by (cases "fs mdir") (auto simp: fun_upd_idem)
next
  case (Cons i "is")
  have "filter (\<lambda>e. fst e \<notin> set is) (filter (\<lambda>e. fst e \<noteq> i) es) = filter (\<lambda>e. fst e \<noteq> i \<and> fst e \<notin> set is) es"
    for es :: machine_dir by (simp add: conj_commute)
  then show ?case using Cons by (cases "fs mdir") (auto simp: remove_dir_def)
qed

lemma take_sorted_desc:
  assumes "distinct (map f xs)" "sorted (map f (rev xs))"
  shows "filter (\<lambda>x. f x \<notin> f ` set (drop k xs)) xs = take k xs"
proof -
  have d: "distinct (map f (take k xs @ drop k xs))" using assms(1) by simp
  then have "f ` set (take k xs) \<inter> f ` set (drop k xs) = {}" by (simp only: map_append distinct_append set_map)
  then have "filter (\<lambda>x. f x \<notin> f ` set (drop k xs)) (take k xs @ drop k xs) = take k xs"
    unfolding filter_append by (auto simp: filter_empty_conv filter_id_conv)
  then show ?thesis by simp
qed


section \<open>Properties\<close>

text \<open>C21: Retention keeps the newest snapshots.  When nothing fails, garbage collection with \<open>keep\<close> leaves exactly the first
  \<open>keep\<close> entries of the listing, reports the other identifiers oldest first, touches neither partial directories nor other
  machines, and every removed snapshot is older than every kept one: identifiers are compared as strings, and for creation
  times of at most twenty digits that is the order of the times.\<close>

theorem gc_keeps_newest:
  fixes parse :: "bytes \<Rightarrow> SnapshotManifest option"
  assumes "fs (sanitize machine) = Some es" and "distinct (map fst es)" and "\<And>i. rm i = None"
  defines "old \<equiv> store_list parse fs machine"
  shows "\<exists>fs'. store_gc parse rm machine keep fs = (Inr (rev (map sr_id (drop keep old))), fs') \<and>
     store_list parse fs' machine = take keep old \<and>
     (\<forall>e \<in> set es. entry_ref parse e = None \<longrightarrow> (\<exists>es'. fs' (sanitize machine) = Some es' \<and> e \<in> set es')) \<and>
     (\<forall>other. other \<noteq> sanitize machine \<longrightarrow> fs' other = fs other) \<and>
     (\<forall>t u. t < 10 ^ 20 \<longrightarrow> u < 10 ^ 20 \<longrightarrow> pad20 t \<in> sr_id ` set (take keep old) \<longrightarrow>
        pad20 u \<in> sr_id ` set (drop keep old) \<longrightarrow> u < t)"
proof -
  let ?refs = "List.map_filter (entry_ref parse) es"
  let ?gone = "sr_id ` set (drop keep old)"
  let ?fs' = "fs(sanitize machine := Some (filter (\<lambda>e. fst e \<notin> ?gone) es))"
  have old: "old = rev (sort_key sr_id ?refs)" using assms(1) by (simp add: old_def store_list_def)
  have d: "distinct (map sr_id old)"
    using distinct_map_filter [OF assms(2)] by (simp add: old distinct_map)
  have s: "sorted (map sr_id (rev old))" by (simp add: old)
  have gc: "store_gc parse rm machine keep fs = (Inr (rev (map sr_id (drop keep old))), ?fs')"
    using assms(1,3) gc_loop_removes [of "map sr_id (drop keep old)" rm "sanitize machine" fs]
    by (simp add: store_gc_def old_def)
  have "store_list parse ?fs' machine = rev (sort_key sr_id (filter (\<lambda>r. sr_id r \<notin> ?gone) ?refs))"
    by (simp add: store_list_def map_filter_filter [of parse "\<lambda>x. x \<notin> ?gone"])
  also have "\<dots> = filter (\<lambda>r. sr_id r \<notin> ?gone) old"
    unfolding old by (rule rev_sort_filter)
  finally have l: "store_list parse ?fs' machine = take keep old" using take_sorted_desc [OF d s] by simp
  have p: "e \<in> set (filter (\<lambda>e. fst e \<notin> ?gone) es)" if "e \<in> set es" "entry_ref parse e = None" for e
  proof -
    have "fst e \<noteq> sr_id r" if r: "r \<in> set old" for r
    proof
      assume eq: "fst e = sr_id r"
      obtain e' where e': "e' \<in> set es" "entry_ref parse e' = Some r"
        using r by (auto simp: old List.map_filter_def)
      then have "fst e' = fst e" using entry_ref_id eq by metis
      then have "e' = e" using assms(2) e'(1) \<open>e \<in> set es\<close> by (metis distinct_map inj_onD)
      then show False using e'(2) \<open>entry_ref parse e = None\<close> by simp
    qed
    then show ?thesis using that(1) by (auto dest: in_set_dropD)
  qed
  have o: "y < x" if "x \<in> sr_id ` set (take keep old)" "y \<in> ?gone" for x y
  proof -
    have "sorted (map sr_id (rev (drop keep old)) @ map sr_id (rev (take keep old)))"
      using s by (metis append_take_drop_id map_append rev_append)
    then have "y \<le> x" using that by (auto simp: sorted_append)
    moreover have "y \<noteq> x" using d that append_take_drop_id [of keep old] by (metis disjoint_iff distinct_append map_append set_map)
    ultimately show ?thesis by simp
  qed
  have tm: "u < t" if "t < 10 ^ 20" "u < 10 ^ 20" "pad20 t \<in> sr_id ` set (take keep old)" "pad20 u \<in> ?gone" for t u
    using o [OF that(3,4)] pad20_less_iff [OF that(2,1)] by simp
  show ?thesis
  proof (intro exI [of _ ?fs'] conjI)
    show "\<forall>t u. t < 10 ^ 20 \<longrightarrow> u < 10 ^ 20 \<longrightarrow> pad20 t \<in> sr_id ` set (take keep old) \<longrightarrow>
        pad20 u \<in> sr_id ` set (drop keep old) \<longrightarrow> u < t" using tm by blast
  qed (use gc l p in auto)
qed

text \<open>A directory with two complete snapshots, listed newest first, and one that is still being written.\<close>

definition demo_manifest :: SnapshotManifest where
  "demo_manifest =
     \<lparr> sm_version = 1, sm_vcpu_count = 1, sm_memory_mib = 64, sm_memory_file = ''memory.bin'', sm_state_file = ''state.bin'',
       sm_kind = Full, sm_parent_uid = None, sm_host = \<lparr> hf_cpuid_hash = 0, hf_tsc_khz = 0 \<rparr> \<rparr>"

definition demo_fs :: snap_fs where
  "demo_fs = [''vm'' \<mapsto> [(''1'', SnapDir (Some [])), (''3'', SnapDir None), (''2'', SnapDir (Some []))]]"

lemma sanitize_vm: "sanitize ''vm'' = ''vm''"
  by (simp add: sanitize_def is_ascii_alnum_def Let_def)

theorem gc_keeps_newest_witness:
  "\<exists>fs'. store_gc (\<lambda>_. Some demo_manifest) (\<lambda>_. None) ''vm'' 1 demo_fs = (Inr [''1''], fs') \<and>
     map sr_id (store_list (\<lambda>_. Some demo_manifest) fs' ''vm'') = [''2'']"
proof -
  have fs: "demo_fs (sanitize ''vm'') = Some [(''1'', SnapDir (Some [])), (''3'', SnapDir None), (''2'', SnapDir (Some []))]"
    by (simp add: demo_fs_def sanitize_vm)
  then have l: "store_list (\<lambda>_. Some demo_manifest) demo_fs ''vm'' =
      [\<lparr> sr_id = ''2'', sr_manifest = demo_manifest \<rparr>, \<lparr> sr_id = ''1'', sr_manifest = demo_manifest \<rparr>]"
    by (simp add: store_list_def List.map_filter_def less_char_def)
  from gc_keeps_newest [where fs = demo_fs and machine = "''vm''" and rm = "\<lambda>_. None" and
      parse = "\<lambda>_. Some demo_manifest" and keep = 1, OF fs] show ?thesis
    by (auto simp: l)
qed



end
