(* ===== verification/Live_Snapshot.thy ===== *)
theory Live_Snapshot
  imports Snapshot
begin

text \<open>
  Snapshots of a running guest: the stopping, capturing, dumping and copying operations of
  \<open>crates/mm-vmm/src/machine.rs\<close> (\<open>pause_and_capture_vcpus\<close> to \<open>load_guest_memory\<close>,
  \<open>restore*\<close>, \<open>fork*\<close>) and the engines of \<open>snapshot/engine.rs\<close> and
  \<open>snapshot/fork_engine.rs\<close>.  The guest runs while these operations run: whenever the code
  waits for the participants of the barrier, or copies guest RAM without a barrier, the machine
  changes under it.  Those changes, the host's file errors and the serialisation libraries are
  the parameters of this theory; \<open>branch_laws\<close> says what KVM and the memory library promise
  about dirty pages.
\<close>

section \<open>The environment\<close>

text \<open>\<open>lv_park n\<close>: the participants until \<open>n\<close> have parked (\<open>True\<close>) or the deadline has passed;
  \<open>lv_resume\<close>: until all have left the barrier or the wait gives up; \<open>lv_live\<close>: the
  guest between two accesses of a copy; \<open>lv_join\<close>: the results of the vCPU threads when
  they are joined (\<open>None\<close> for a panic); \<open>lv_polls i\<close>: the machine at each poll of the
  slot of device \<open>i\<close> until the deadline.  \<open>lv_hosts\<close> and \<open>lv_byte\<close> are the host mappings of
  the regions and their bytes, \<open>lv_bitmap\<close> reads and resets the dirty bitmap of a region.
  \<open>lv_fault op n\<close> is the host's error for a file operation at offset \<open>n\<close>.\<close>

record ('q, 'm, 'e, 'f, 'v, 's) live_env =
  lv_park :: "nat \<Rightarrow> ('q, 'm, 'e, 'f, 'v, 's) Machine \<Rightarrow> bool \<times> ('q, 'm, 'e, 'f, 'v, 's) Machine"
  lv_resume :: "nat \<Rightarrow> ('q, 'm, 'e, 'f, 'v, 's) Machine \<Rightarrow> bool \<times> ('q, 'm, 'e, 'f, 'v, 's) Machine"
  lv_live :: "('q, 'm, 'e, 'f, 'v, 's) Machine \<Rightarrow> ('q, 'm, 'e, 'f, 'v, 's) Machine"
  lv_join :: "('q, 'm, 'e, 'f, 'v, 's) Machine
    \<Rightarrow> (VmmError + VcpuRunExit) option list \<times> ('q, 'm, 'e, 'f, 'v, 's) Machine"
  lv_polls :: "nat \<Rightarrow> ('q, 'm, 'e, 'f, 'v, 's) Machine \<Rightarrow> ('q, 'm, 'e, 'f, 'v, 's) Machine list"
  lv_hosts :: "'m \<Rightarrow> (u64 \<times> u64) list"
  lv_byte :: "'m \<Rightarrow> u64 \<Rightarrow> u8"
  lv_bitmap :: "nat \<Rightarrow> 'm \<Rightarrow> u64 list \<times> 'm"
  lv_fault :: "string \<Rightarrow> nat \<Rightarrow> string option"
  lv_state_to_bytes :: "VmState \<Rightarrow> string + bytes"
  lv_state_from_bytes :: "bytes \<Rightarrow> string + VmState"
  lv_manifest_to_json :: "SnapshotManifest \<Rightarrow> string + bytes"
  lv_manifest_from_json :: "bytes \<Rightarrow> string + SnapshotManifest"

type_synonym files = "string \<Rightarrow> bytes option"

type_synonym ('q, 'm, 'e, 'f, 'v, 's) host_state = "('q, 'm, 'e, 'f, 'v, 's) Machine \<times> files"

definition join_path :: "string \<Rightarrow> string \<Rightarrow> string" where
  "join_path dir name = dir @ ''/'' @ name"

definition try_io :: "('q, 'm, 'e, 'f, 'v, 's) live_env \<Rightarrow> string \<Rightarrow> nat \<Rightarrow> VmmError + unit" where
  "try_io L opn n = (case lv_fault L opn n of Some e \<Rightarrow> Inl (Io e) | None \<Rightarrow> Inr ())"

definition MEMORY_FILE :: string where "MEMORY_FILE = ''memory.bin''"
definition STATE_FILE :: string where "STATE_FILE = ''state.bin''"
definition MANIFEST_FILE :: string where "MANIFEST_FILE = ''manifest.json''"


section \<open>Stopping the guest\<close>

text \<open>Wakes the device workers in attach order.\<close>

fun wake_devices :: "('q, 'm, 'e) venv \<Rightarrow> ('e DeviceCapture list, unit) io" where
  "wake_devices E [] = (Inr (), [])"
| "wake_devices E (c # cs) =
     (case e_write E (dc_evt c) of
        Inl e \<Rightarrow> (Inl (Io e), c # cs)
      | Inr v \<Rightarrow> (case wake_devices E cs of (r, cs') \<Rightarrow> (r, c\<lparr> dc_evt := v \<rparr> # cs')))"

definition quiesce_at_barrier ::
  "('q, 'm, 'e) venv \<Rightarrow> ('q, 'm, 'e, 'f, 'v, 's) live_env \<Rightarrow> bool
   \<Rightarrow> (('q, 'm, 'e, 'f, 'v, 's) Machine, unit) io" where
  "quiesce_at_barrier E L include_devices m =
     (let n_vcpu = length (mc_vcpu_states m);
          n_dev = (if include_devices then length (mc_device_captures m) else 0) in
      if n_vcpu = 0 then (Inl (VcpuErr ''checkpoint: no running vcpus''), m)
      else case (if include_devices then wake_devices E (mc_device_captures m)
                 else (Inr (), mc_device_captures m)) of
        (Inl e, cs) \<Rightarrow> (Inl e, m\<lparr> mc_device_captures := cs \<rparr>)
      | (Inr _, cs) \<Rightarrow>
          (case lv_park L (n_vcpu + n_dev) (m\<lparr> mc_device_captures := cs \<rparr>) of
             (True, m') \<Rightarrow> (Inr (), m')
           | (False, m') \<Rightarrow>
               (Inl (VcpuErr ''participants did not reach the checkpoint barrier within the timeout''),
                snd (lv_resume L 2 m'))))"

definition release_barrier ::
  "('q, 'm, 'e, 'f, 'v, 's) live_env \<Rightarrow> (('q, 'm, 'e, 'f, 'v, 's) Machine, unit) io" where
  "release_barrier L m =
     (case lv_resume L 5 m of
        (True, m') \<Rightarrow> (Inr (), m')
      | (False, m') \<Rightarrow>
          (Inl (VcpuErr ''participants did not resume from the checkpoint barrier within the timeout''), m'))"

text \<open>The slots are drained in index order up to the first one that is empty.\<close>

fun take_slots :: "VmmError \<Rightarrow> ('a option list, 'a list) io" where
  "take_slots e [] = (Inr [], [])"
| "take_slots e (None # xs) = (Inl e, None # xs)"
| "take_slots e (Some x # xs) =
     (case take_slots e xs of (Inl e', xs') \<Rightarrow> (Inl e', None # xs') | (Inr ys, xs') \<Rightarrow> (Inr (x # ys), None # xs'))"

definition collect_vcpu_states :: "(('q, 'm, 'e, 'f, 'v, 's) Machine, VcpuState list) io" where
  "collect_vcpu_states m =
     (case take_slots (VcpuErr ''vcpu state was not captured at the checkpoint'') (mc_vcpu_states m) of
        (r, xs) \<Rightarrow> (r, m\<lparr> mc_vcpu_states := xs \<rparr>))"

fun put_slots :: "'e DeviceCapture list \<Rightarrow> QueueCursor list option list \<Rightarrow> 'e DeviceCapture list" where
  "put_slots (c # cs) (x # xs) = c\<lparr> dc_slot := x \<rparr> # put_slots cs xs"
| "put_slots cs xs = cs"

definition device_states :: "'e DeviceCapture list \<Rightarrow> QueueCursor list list \<Rightarrow> DeviceState list" where
  "device_states caps qs =
     map2 (\<lambda>c q. \<lparr> ds_device_type = dc_device_type c, ds_queues = q \<rparr>) caps qs"

definition collect_device_states :: "(('q, 'm, 'e, 'f, 'v, 's) Machine, DeviceState list) io" where
  "collect_device_states m =
     (case take_slots (Device ''a device did not capture its queue cursors at the checkpoint'')
             (map dc_slot (mc_device_captures m)) of
        (r, xs) \<Rightarrow>
          ((case r of Inl e \<Rightarrow> Inl e | Inr qs \<Rightarrow> Inr (device_states (mc_device_captures m) qs)),
           m\<lparr> mc_device_captures := put_slots (mc_device_captures m) xs \<rparr>))"

definition checkpoint_in_place ::
  "('q, 'm, 'e) venv \<Rightarrow> ('q, 'm, 'e, 'f, 'v, 's) live_env
   \<Rightarrow> (('q, 'm, 'e, 'f, 'v, 's) Machine, VcpuState list) io" where
  "checkpoint_in_place E L =
     io_bind (quiesce_at_barrier E L False) (\<lambda>_ m.
       case collect_vcpu_states m of (states, m1) \<Rightarrow>
       io_bind (release_barrier L) (\<lambda>_ m2. (states, m2)) m1)"

text \<open>What a stopped guest is captured as: vCPUs, devices, clock and interrupt controllers.\<close>

definition capture_parked ::
  "('m, 'e, 'f, 'v) kvm_env \<Rightarrow> (('q, 'm, 'e, 'f, 'v, 's) Machine, VmState) io" where
  "capture_parked K =
     io_bind collect_vcpu_states (\<lambda>vs.
     io_bind collect_device_states (\<lambda>ds m.
       (res_bind (capture_clock K (mc_vm m)) (\<lambda>c.
        res_bind (capture_irqchip K (mc_vm m)) (\<lambda>q.
        Inr \<lparr> vm_vcpus = vs, vm_devices = ds, vm_clock = c, vm_irqchip = q \<rparr>)), m)))"

definition checkpoint_full_in_place ::
  "('q, 'm, 'e) venv \<Rightarrow> ('m, 'e, 'f, 'v) kvm_env \<Rightarrow> ('q, 'm, 'e, 'f, 'v, 's) live_env
   \<Rightarrow> (('q, 'm, 'e, 'f, 'v, 's) Machine, VmState) io" where
  "checkpoint_full_in_place E K L =
     io_bind (quiesce_at_barrier E L True) (\<lambda>_ m.
       case capture_parked K m of (captured, m1) \<Rightarrow>
       io_bind (release_barrier L) (\<lambda>_ m2. (captured, m2)) m1)"

text \<open>The freezing pause: the vCPU threads end, and the last error of any of them is returned.\<close>

definition join_error :: "(VmmError + VcpuRunExit) option list \<Rightarrow> VmmError option" where
  "join_error rs =
     fold (\<lambda>r acc. case r of Some (Inr _) \<Rightarrow> acc | Some (Inl e) \<Rightarrow> Some e
                    | None \<Rightarrow> Some (VcpuErr ''vcpu thread panicked during pause'')) rs None"

definition pause_and_capture_vcpus ::
  "('q, 'm, 'e, 'f, 'v, 's) live_env \<Rightarrow> (('q, 'm, 'e, 'f, 'v, 's) Machine, VcpuState list) io" where
  "pause_and_capture_vcpus L m =
     (case lv_join L (m\<lparr> mc_vcpu_pause := True \<rparr>) of
        (rs, m1) \<Rightarrow>
          let m2 = m1\<lparr> mc_threads := [] \<rparr> in
          (case join_error rs of
             Some e \<Rightarrow> (Inl e, m2)
           | None \<Rightarrow>
               (case take_slots (VcpuErr ''vcpu state was not captured during pause'') (mc_vcpu_states m2) of
                  (r, xs) \<Rightarrow> (r, m2\<lparr> mc_vcpu_states := xs \<rparr>))))"

definition slot_at :: "nat \<Rightarrow> ('q, 'm, 'e, 'f, 'v, 's) Machine \<Rightarrow> QueueCursor list option" where
  "slot_at i m = (if i < length (mc_device_captures m) then dc_slot (mc_device_captures m ! i) else None)"

fun wait_for_capture ::
  "nat \<Rightarrow> ('q, 'm, 'e, 'f, 'v, 's) Machine list \<Rightarrow> (('q, 'm, 'e, 'f, 'v, 's) Machine, QueueCursor list) io" where
  "wait_for_capture i [] m =
     (Inl (Device ''a device did not capture its queue cursors within the pause timeout''), m)"
| "wait_for_capture i (p # ps) m =
     (case slot_at i p of
        Some qs \<Rightarrow> (Inr qs, p\<lparr> mc_device_captures :=
                       (mc_device_captures p)[i := (mc_device_captures p ! i)\<lparr> dc_slot := None \<rparr>] \<rparr>)
      | None \<Rightarrow> wait_for_capture i ps p)"

fun pause_each ::
  "('q, 'm, 'e) venv \<Rightarrow> ('q, 'm, 'e, 'f, 'v, 's) live_env \<Rightarrow> nat list
   \<Rightarrow> (('q, 'm, 'e, 'f, 'v, 's) Machine, DeviceState list) io" where
  "pause_each E L [] m = (Inr [], m)"
| "pause_each E L (i # is) m =
     (let cap = mc_device_captures m ! i in
      case e_write E (dc_evt cap) of
        Inl e \<Rightarrow> (Inl (Io e), m)
      | Inr v \<Rightarrow>
          let m1 = m\<lparr> mc_device_captures := (mc_device_captures m)[i := cap\<lparr> dc_evt := v \<rparr>] \<rparr> in
          io_bind (wait_for_capture i (lv_polls L i m1)) (\<lambda>qs.
          io_bind (pause_each E L is) (\<lambda>ds.
          io_return (\<lparr> ds_device_type = dc_device_type cap, ds_queues = qs \<rparr> # ds))) m1)"

definition pause_devices ::
  "('q, 'm, 'e) venv \<Rightarrow> ('q, 'm, 'e, 'f, 'v, 's) live_env
   \<Rightarrow> (('q, 'm, 'e, 'f, 'v, 's) Machine, DeviceState list) io" where
  "pause_devices E L m = pause_each E L [0..<length (mc_device_captures m)] m"


section \<open>Guest RAM and its file\<close>

text \<open>One region streamed through a buffer of 1 MiB: the file so far, and the outcome.\<close>

definition BUF_LEN :: nat where "BUF_LEN = 2 ^ 20"

function dump_region ::
  "('q, 'm, 'e) venv \<Rightarrow> ('q, 'm, 'e, 'f, 'v, 's) live_env \<Rightarrow> 'm \<Rightarrow> u64 \<Rightarrow> u64 \<Rightarrow> u64 \<Rightarrow> (bytes, unit) io" where
  "dump_region E L mem start len off out =
     (if off < len then
        let n = min (unat (len - off)) BUF_LEN in
        case checked_add start off of
          None \<Rightarrow> (Inl (Memory ''dump: address overflow''), out)
        | Some addr \<Rightarrow>
            (case m_read E mem addr n of
               Inl e \<Rightarrow> (Inl (Memory e), out)
             | Inr bs \<Rightarrow>
                 (case try_io L ''write'' (length out) of
                    Inl e \<Rightarrow> (Inl e, out)
                  | Inr _ \<Rightarrow> dump_region E L mem start len (off + of_nat n) (out @ bs)))
      else (Inr (), out))"
  by pat_completeness auto

lemma chunk_step:
  fixes off len :: u64
  assumes "off < len"
  defines "n \<equiv> min (unat (len - off)) BUF_LEN"
  shows "unat (off + of_nat n) = unat off + n" "0 < n" "unat off + n \<le> unat len"
proof -
  have "unat (len - off) = unat len - unat off" using assms(1) by (simp add: unat_sub)
  then show *: "0 < n" "unat off + n \<le> unat len"
    using assms(1) by (auto simp: n_def word_less_nat_alt BUF_LEN_def)
  have "n < 2 ^ 64" "unat off + n < 2 ^ 64" using * unsigned_less [of len, where 'a = nat] by auto
  then show "unat (off + of_nat n) = unat off + n"
    by (simp add: unat_word_ariths unat_of_nat)
qed

termination dump_region
  by (relation "measure (\<lambda>(E, L, mem, start, len, off, out). unat len - unat off)")
    (use chunk_step in \<open>auto simp: Let_def word_less_nat_alt intro!: diff_less_mono2\<close>)

declare dump_region.simps [simp del]

fun dump_regions ::
  "('q, 'm, 'e) venv \<Rightarrow> ('q, 'm, 'e, 'f, 'v, 's) live_env \<Rightarrow> 'm \<Rightarrow> (u64 \<times> u64) list \<Rightarrow> (bytes, unit) io" where
  "dump_regions E L mem [] out = (Inr (), out)"
| "dump_regions E L mem ((start, len) # rs) out =
     io_bind (dump_region E L mem start len 0) (\<lambda>_. dump_regions E L mem rs) out"

definition dump_guest_memory ::
  "('q, 'm, 'e) venv \<Rightarrow> ('m, 'e, 'f, 'v) kvm_env \<Rightarrow> ('q, 'm, 'e, 'f, 'v, 's) live_env \<Rightarrow> string \<Rightarrow> 'm
   \<Rightarrow> (files, unit) io" where
  "dump_guest_memory E K L path mem fs =
     (case try_io L ''create'' 0 of
        Inl e \<Rightarrow> (Inl e, fs)
      | Inr _ \<Rightarrow>
          (case dump_regions E L mem (k_regions K mem) [] of
             (Inl e, out) \<Rightarrow> (Inl e, fs(path \<mapsto> out))
           | (Inr _, out) \<Rightarrow> (try_io L ''flush'' 0, fs(path \<mapsto> out))))"

text \<open>Loading reads the file from its start; what is left of it is passed on.\<close>

function load_region ::
  "('q, 'm, 'e) venv \<Rightarrow> ('q, 'm, 'e, 'f, 'v, 's) live_env \<Rightarrow> u64 \<Rightarrow> u64 \<Rightarrow> u64
   \<Rightarrow> (bytes \<times> 'm, unit) io" where
  "load_region E L start len off (inp, mem) =
     (if off < len then
        let n = min (unat (len - off)) BUF_LEN in
        case try_io L ''read'' (length inp) of
          Inl e \<Rightarrow> (Inl e, (inp, mem))
        | Inr _ \<Rightarrow>
            if length inp < n then (Inl (Io ''failed to fill whole buffer''), ([], mem))
            else case checked_add start off of
              None \<Rightarrow> (Inl (Memory ''load: address overflow''), (drop n inp, mem))
            | Some addr \<Rightarrow>
                (case m_write E mem addr (take n inp) of
                   Inl e \<Rightarrow> (Inl (Memory e), (drop n inp, mem))
                 | Inr mem' \<Rightarrow> load_region E L start len (off + of_nat n) (drop n inp, mem'))
      else (Inr (), (inp, mem)))"
  by pat_completeness auto

termination load_region
  by (relation "measure (\<lambda>(E, L, start, len, off, s). unat len - unat off)")
    (use chunk_step in \<open>auto simp: Let_def word_less_nat_alt intro!: diff_less_mono2\<close>)

declare load_region.simps [simp del]

fun load_regions ::
  "('q, 'm, 'e) venv \<Rightarrow> ('q, 'm, 'e, 'f, 'v, 's) live_env \<Rightarrow> (u64 \<times> u64) list \<Rightarrow> (bytes \<times> 'm, unit) io" where
  "load_regions E L [] s = (Inr (), s)"
| "load_regions E L ((start, len) # rs) s = io_bind (load_region E L start len 0) (\<lambda>_. load_regions E L rs) s"

definition load_guest_memory ::
  "('q, 'm, 'e) venv \<Rightarrow> ('m, 'e, 'f, 'v) kvm_env \<Rightarrow> ('q, 'm, 'e, 'f, 'v, 's) live_env \<Rightarrow> files \<Rightarrow> string
   \<Rightarrow> ('m, unit) io" where
  "load_guest_memory E K L fs path mem =
     (case fs path of
        None \<Rightarrow> (Inl (Io ''no such file''), mem)
      | Some bs \<Rightarrow>
          (case try_io L ''open'' 0 of
             Inl e \<Rightarrow> (Inl e, mem)
           | Inr _ \<Rightarrow> (case load_regions E L (k_regions K mem) (bs, mem) of (r, (_, mem')) \<Rightarrow> (r, mem'))))"


section \<open>The live copy and the dirty pages\<close>

definition BRANCH_PAGE_SIZE :: nat where "BRANCH_PAGE_SIZE = 4096"

record DirtyPage =
  dp_host_addr :: u64
  dp_file_offset :: u64

text \<open>Bytes read one after the other while the guest runs.\<close>

fun live_read ::
  "('q, 'm, 'e, 'f, 'v, 's) live_env \<Rightarrow> u64 \<Rightarrow> nat \<Rightarrow> ('q, 'm, 'e, 'f, 'v, 's) Machine
   \<Rightarrow> bytes \<times> ('q, 'm, 'e, 'f, 'v, 's) Machine" where
  "live_read L h 0 m = ([], m)"
| "live_read L h (Suc n) m =
     (let m1 = lv_live L m in
      case live_read L (h + 1) n m1 of (bs, m2) \<Rightarrow> (lv_byte L (mc_mem m1) h # bs, m2))"

text \<open>\<open>write_all_at\<close> on a file of the directory.\<close>

definition put_at ::
  "('q, 'm, 'e, 'f, 'v, 's) live_env \<Rightarrow> string \<Rightarrow> u64 \<Rightarrow> bytes \<Rightarrow> (files, unit) io" where
  "put_at L path off bs fs =
     (case try_io L ''write'' (unat off) of
        Inl e \<Rightarrow> (Inl e, fs)
      | Inr _ \<Rightarrow>
          (case write_all_at \<lparr> f_bytes = (case fs path of None \<Rightarrow> [] | Some b \<Rightarrow> b), f_writable = True \<rparr> off bs of
             Inl e \<Rightarrow> (Inl (Io e), fs)
           | Inr f \<Rightarrow> (Inr (), fs(path \<mapsto> f_bytes f))))"

fun copy_regions ::
  "('q, 'm, 'e, 'f, 'v, 's) live_env \<Rightarrow> string \<Rightarrow> u64 \<Rightarrow> (u64 \<times> u64) list
   \<Rightarrow> (('q, 'm, 'e, 'f, 'v, 's) host_state, unit) io" where
  "copy_regions L path off [] s = (Inr (), s)"
| "copy_regions L path off ((base, len) # rs) (m, fs) =
     (case live_read L base (unat len) m of (bs, m1) \<Rightarrow>
      case put_at L path off bs fs of
        (Inl e, fs1) \<Rightarrow> (Inl e, (m1, fs1))
      | (Inr _, fs1) \<Rightarrow> copy_regions L path (off + len) rs (m1, fs1))"

definition write_branch_image ::
  "('q, 'm, 'e, 'f, 'v, 's) live_env \<Rightarrow> (u64 \<times> u64) list \<Rightarrow> string
   \<Rightarrow> (('q, 'm, 'e, 'f, 'v, 's) host_state, u64) io" where
  "write_branch_image L regions path s =
     (case s of (m, fs) \<Rightarrow>
      let total_len = sum_list (map snd regions) in
      case try_io L ''open'' 0 of
        Inl e \<Rightarrow> (Inl e, (m, fs))
      | Inr _ \<Rightarrow>
          let fs0 = fs(path \<mapsto> []) in
          (case try_io L ''set_len'' (unat total_len) of
             Inl e \<Rightarrow> (Inl e, (m, fs0))
           | Inr _ \<Rightarrow>
               if 2 ^ 63 \<le> unat total_len then (Inl (Io ''invalid argument''), (m, fs0))
               else io_bind (copy_regions L path 0 regions)
                      (\<lambda>_. io_return (total_len div of_nat BRANCH_PAGE_SIZE))
                      (m, fs0(path \<mapsto> replicate (unat total_len) 0))))"

definition host_bytes :: "('q, 'm, 'e, 'f, 'v, 's) live_env \<Rightarrow> 'm \<Rightarrow> u64 \<Rightarrow> nat \<Rightarrow> bytes" where
  "host_bytes L mem h n = map (\<lambda>i. lv_byte L mem (h + of_nat i)) [0..<n]"

fun recopy_pages ::
  "('q, 'm, 'e, 'f, 'v, 's) live_env \<Rightarrow> string \<Rightarrow> 'm \<Rightarrow> DirtyPage list \<Rightarrow> (files, unit) io" where
  "recopy_pages L path mem [] fs = (Inr (), fs)"
| "recopy_pages L path mem (p # ps) fs =
     io_bind (put_at L path (dp_file_offset p) (host_bytes L mem (dp_host_addr p) BRANCH_PAGE_SIZE))
       (\<lambda>_. recopy_pages L path mem ps) fs"

definition recopy_branch_pages ::
  "('q, 'm, 'e, 'f, 'v, 's) live_env \<Rightarrow> string \<Rightarrow> 'm \<Rightarrow> DirtyPage list \<Rightarrow> (files, u64) io" where
  "recopy_branch_pages L path mem ps fs =
     (case try_io L ''reopen'' 0 of
        Inl e \<Rightarrow> (Inl e, fs)
      | Inr _ \<Rightarrow> io_bind (recopy_pages L path mem ps) (\<lambda>_. io_return (of_nat (length ps))) fs)"

definition set_dirty_logging ::
  "('m, 'e, 'f, 'v) kvm_env \<Rightarrow> bool \<Rightarrow> (('q, 'm, 'e, 'f, 'v, 's) Machine, unit) io" where
  "set_dirty_logging K enable m =
     (case set_slots K (if enable then KVM_MEM_LOG_DIRTY_PAGES else 0) 0 (k_regions K (mc_mem m)) (mc_vm m) of
        (r, v) \<Rightarrow> (r, m\<lparr> mc_vm := v \<rparr>))"

definition get_word :: "u64 list \<Rightarrow> nat \<Rightarrow> u64" where
  "get_word ws i = (if i < length ws then ws ! i else 0)"

definition word_pages :: "u64 \<Rightarrow> u64 \<Rightarrow> u64 \<Rightarrow> nat \<Rightarrow> u64 \<Rightarrow> DirtyPage list" where
  "word_pages host_base file_base len word_idx word =
     (if word = 0 then []
      else map (\<lambda>b. let p = word_idx * 64 + b in
                 \<lparr> dp_host_addr = host_base + of_nat (p * BRANCH_PAGE_SIZE),
                   dp_file_offset = file_base + of_nat (p * BRANCH_PAGE_SIZE) \<rparr>)
             (filter (\<lambda>b. word AND push_bit b 1 \<noteq> 0 \<and> \<not> of_nat ((word_idx * 64 + b) * BRANCH_PAGE_SIZE) \<ge> len)
                [0..<64]))"

definition region_pages :: "u64 \<Rightarrow> u64 \<Rightarrow> u64 \<Rightarrow> u64 list \<Rightarrow> u64 list \<Rightarrow> DirtyPage list" where
  "region_pages host_base file_base len kvm dev =
     concat (map (\<lambda>i. word_pages host_base file_base len i (get_word kvm i OR get_word dev i))
       [0..<max (length kvm) (length dev)])"

fun collect_slots ::
  "('m, 'e, 'f, 'v) kvm_env \<Rightarrow> ('q, 'm, 'e, 'f, 'v, 's) live_env \<Rightarrow> nat \<Rightarrow> u64 \<Rightarrow> (u64 \<times> u64) list
   \<Rightarrow> (('q, 'm, 'e, 'f, 'v, 's) Machine, DirtyPage list) io" where
  "collect_slots K L slot file_base [] m = (Inr [], m)"
| "collect_slots K L slot file_base ((host, len) # rs) m =
     (case k_get_dirty_log K (of_nat slot) len (mc_vm m) of
        Inl e \<Rightarrow> (Inl (Kvm e), m)
      | Inr (kvm, v) \<Rightarrow>
          (case lv_bitmap L slot (mc_mem m) of
             (dev, mem) \<Rightarrow>
               io_bind (collect_slots K L (Suc slot) (file_base + len) rs)
                 (\<lambda>ps. io_return (region_pages host file_base len kvm dev @ ps))
                 (m\<lparr> mc_vm := v, mc_mem := mem \<rparr>)))"

definition collect_dirty_pages ::
  "('m, 'e, 'f, 'v) kvm_env \<Rightarrow> ('q, 'm, 'e, 'f, 'v, 's) live_env
   \<Rightarrow> (('q, 'm, 'e, 'f, 'v, 's) Machine, DirtyPage list) io" where
  "collect_dirty_pages K L m = collect_slots K L 0 0 (lv_hosts L (mc_mem m)) m"

definition dirty_page_file_offsets ::
  "('m, 'e, 'f, 'v) kvm_env \<Rightarrow> ('q, 'm, 'e, 'f, 'v, 's) live_env
   \<Rightarrow> (('q, 'm, 'e, 'f, 'v, 's) Machine, u64 list) io" where
  "dirty_page_file_offsets K L = io_bind (collect_dirty_pages K L) (\<lambda>ps. io_return (map dp_file_offset ps))"


section \<open>Snapshots and branches\<close>

definition write_snapshot_metadata ::
  "('q, 'm, 'e, 'f, 'v, 's) live_env \<Rightarrow> string \<Rightarrow> VmState \<Rightarrow> SnapshotManifest \<Rightarrow> (files, unit) io" where
  "write_snapshot_metadata L dir st man fs =
     (case lv_state_to_bytes L st of
        Inl e \<Rightarrow> (Inl (Device e), fs)
      | Inr sb \<Rightarrow>
          (case try_io L ''write state'' 0 of
             Inl e \<Rightarrow> (Inl e, fs)
           | Inr _ \<Rightarrow>
               let fs1 = fs(join_path dir STATE_FILE \<mapsto> sb) in
               (case lv_manifest_to_json L man of
                  Inl e \<Rightarrow> (Inl (Device e), fs1)
                | Inr mb \<Rightarrow>
                    (case try_io L ''write manifest'' 0 of
                       Inl e \<Rightarrow> (Inl e, fs1)
                     | Inr _ \<Rightarrow> (Inr (), fs1(join_path dir MANIFEST_FILE \<mapsto> mb))))))"

definition first_tsc :: "VmState \<Rightarrow> u32" where
  "first_tsc st = (case vm_vcpus st of [] \<Rightarrow> 0 | v # _ \<Rightarrow> vc_tsc_khz v)"

definition full_manifest :: "VmConfig \<Rightarrow> u64 \<Rightarrow> VmState \<Rightarrow> SnapshotManifest" where
  "full_manifest config h st =
     \<lparr> sm_version = CURRENT_VERSION, sm_vcpu_count = vcpus config, sm_memory_mib = memory_mib config,
       sm_memory_file = MEMORY_FILE, sm_state_file = STATE_FILE, sm_kind = Full, sm_parent_uid = None,
       sm_host = \<lparr> hf_cpuid_hash = h, hf_tsc_khz = first_tsc st \<rparr> \<rparr>"

text \<open>The tail the three snapshot operations share: fingerprint, manifest, metadata.\<close>

definition finish_snapshot ::
  "('m, 'e, 'f, 'v) kvm_env \<Rightarrow> ('q, 'm, 'e, 'f, 'v, 's) live_env \<Rightarrow> string \<Rightarrow> VmConfig \<Rightarrow> VmState
   \<Rightarrow> (files, SnapshotManifest) io" where
  "finish_snapshot K L dir config st fs =
     (case cpuid_hash K of
        Inl e \<Rightarrow> (Inl e, fs)
      | Inr h \<Rightarrow>
          let man = full_manifest config h st in
          io_bind (write_snapshot_metadata L dir st man) (\<lambda>_. io_return man) fs)"

text \<open>Lifting an operation on the machine, or on the files, to both.\<close>

definition on_machine ::
  "(('q, 'm, 'e, 'f, 'v, 's) Machine, 'a) io \<Rightarrow> (('q, 'm, 'e, 'f, 'v, 's) host_state, 'a) io" where
  "on_machine f s = (case s of (m, fs) \<Rightarrow> case f m of (r, m') \<Rightarrow> (r, (m', fs)))"

definition on_files ::
  "(('q, 'm, 'e, 'f, 'v, 's) Machine \<Rightarrow> (files, 'a) io) \<Rightarrow> (('q, 'm, 'e, 'f, 'v, 's) host_state, 'a) io" where
  "on_files f s = (case s of (m, fs) \<Rightarrow> case f m fs of (r, fs') \<Rightarrow> (r, (m, fs')))"

text \<open>A stopped guest captured and dumped.\<close>

definition capture_and_dump ::
  "('q, 'm, 'e) venv \<Rightarrow> ('m, 'e, 'f, 'v) kvm_env \<Rightarrow> ('q, 'm, 'e, 'f, 'v, 's) live_env \<Rightarrow> string
   \<Rightarrow> (('q, 'm, 'e, 'f, 'v, 's) host_state, VmState) io" where
  "capture_and_dump E K L dir =
     io_bind (on_machine (capture_parked K)) (\<lambda>st.
     io_bind (on_files (\<lambda>m. dump_guest_memory E K L (join_path dir MEMORY_FILE) (mc_mem m))) (\<lambda>_.
     io_return st))"

definition snapshot_in_place ::
  "('q, 'm, 'e) venv \<Rightarrow> ('m, 'e, 'f, 'v) kvm_env \<Rightarrow> ('q, 'm, 'e, 'f, 'v, 's) live_env \<Rightarrow> string
   \<Rightarrow> (('q, 'm, 'e, 'f, 'v, 's) host_state, SnapshotManifest) io" where
  "snapshot_in_place E K L dir =
     io_bind (on_files (\<lambda>_ fs. (try_io L ''mkdir'' 0, fs))) (\<lambda>_.
     io_bind (on_machine (quiesce_at_barrier E L True)) (\<lambda>_ s.
       case capture_and_dump E K L dir s of (captured, s1) \<Rightarrow>
       case on_machine (release_barrier L) s1 of (released, s2) \<Rightarrow>
       case captured of
         Inl e \<Rightarrow> (Inl e, s2)
       | Inr st \<Rightarrow>
           (case released of
              Inl e \<Rightarrow> (Inl e, s2)
            | Inr _ \<Rightarrow> on_files (\<lambda>m. finish_snapshot K L dir (mc_config m) st) s2)))"

text \<open>The freezing snapshot of \<open>engine.rs\<close>.\<close>

definition freeze_snapshot ::
  "('q, 'm, 'e) venv \<Rightarrow> ('m, 'e, 'f, 'v) kvm_env \<Rightarrow> ('q, 'm, 'e, 'f, 'v, 's) live_env \<Rightarrow> string
   \<Rightarrow> (('q, 'm, 'e, 'f, 'v, 's) host_state, SnapshotManifest) io" where
  "freeze_snapshot E K L dir =
     io_bind (on_files (\<lambda>_ fs. (try_io L ''mkdir'' 0, fs))) (\<lambda>_.
     io_bind (on_machine (pause_and_capture_vcpus L)) (\<lambda>vs.
     io_bind (on_machine (pause_devices E L)) (\<lambda>ds.
     io_bind (on_machine (\<lambda>m. (capture_clock K (mc_vm m), m))) (\<lambda>c.
     io_bind (on_machine (\<lambda>m. (capture_irqchip K (mc_vm m), m))) (\<lambda>q.
     io_bind (on_files (\<lambda>m. dump_guest_memory E K L (join_path dir MEMORY_FILE) (mc_mem m))) (\<lambda>_.
     on_files (\<lambda>m. finish_snapshot K L dir (mc_config m)
       \<lparr> vm_vcpus = vs, vm_devices = ds, vm_clock = c, vm_irqchip = q \<rparr>)))))))"

record BranchOutcome =
  bo_manifest :: SnapshotManifest
  bo_copied :: u64
  bo_recopied :: u64

text \<open>Starting to log: enabling it, then draining what the bitmaps hold.\<close>

definition arm_logging ::
  "('m, 'e, 'f, 'v) kvm_env \<Rightarrow> ('q, 'm, 'e, 'f, 'v, 's) live_env \<Rightarrow> (('q, 'm, 'e, 'f, 'v, 's) Machine, unit) io" where
  "arm_logging K L = io_bind (set_dirty_logging K True) (\<lambda>_. io_bind (collect_dirty_pages K L) (\<lambda>_. io_return ()))"

text \<open>Undoing it on an error, with the errors of the undoing dropped.\<close>

definition disarm ::
  "('m, 'e, 'f, 'v) kvm_env \<Rightarrow> ('q, 'm, 'e, 'f, 'v, 's) live_env \<Rightarrow> ('q, 'm, 'e, 'f, 'v, 's) Machine
   \<Rightarrow> ('q, 'm, 'e, 'f, 'v, 's) Machine" where
  "disarm K L m = snd (release_barrier L (snd (set_dirty_logging K False m)))"

definition capture_and_recopy ::
  "('m, 'e, 'f, 'v) kvm_env \<Rightarrow> ('q, 'm, 'e, 'f, 'v, 's) live_env \<Rightarrow> string
   \<Rightarrow> (('q, 'm, 'e, 'f, 'v, 's) host_state, VmState \<times> u64) io" where
  "capture_and_recopy K L path =
     io_bind (on_machine (capture_parked K)) (\<lambda>st.
     io_bind (on_machine (collect_dirty_pages K L)) (\<lambda>dirty.
     io_bind (on_files (\<lambda>m. recopy_branch_pages L path (mc_mem m) dirty)) (\<lambda>n.
     io_return (st, n))))"

text \<open>The final barrier.\<close>

definition branch_finish ::
  "('q, 'm, 'e) venv \<Rightarrow> ('m, 'e, 'f, 'v) kvm_env \<Rightarrow> ('q, 'm, 'e, 'f, 'v, 's) live_env \<Rightarrow> string \<Rightarrow> u64
   \<Rightarrow> (('q, 'm, 'e, 'f, 'v, 's) host_state, BranchOutcome) io" where
  "branch_finish E K L dir copied =
     io_bind (on_machine (quiesce_at_barrier E L True)) (\<lambda>_ s.
       case capture_and_recopy K L (join_path dir MEMORY_FILE) s of (finished, s1) \<Rightarrow>
       case on_machine (\<lambda>m. release_barrier L (snd (set_dirty_logging K False m))) s1 of (released, s2) \<Rightarrow>
       case finished of
         Inl e \<Rightarrow> (Inl e, s2)
       | Inr (st, recopied) \<Rightarrow>
           (case released of
              Inl e \<Rightarrow> (Inl e, s2)
            | Inr _ \<Rightarrow>
                io_bind (on_files (\<lambda>m. finish_snapshot K L dir (mc_config m) st)) (\<lambda>man.
                io_return \<lparr> bo_manifest = man, bo_copied = copied, bo_recopied = recopied \<rparr>) s2))"

definition branch ::
  "('q, 'm, 'e) venv \<Rightarrow> ('m, 'e, 'f, 'v) kvm_env \<Rightarrow> ('q, 'm, 'e, 'f, 'v, 's) live_env \<Rightarrow> string
   \<Rightarrow> (('q, 'm, 'e, 'f, 'v, 's) host_state, BranchOutcome) io" where
  "branch E K L dir s0 =
     io_bind (on_files (\<lambda>_ fs. (try_io L ''mkdir'' 0, fs))) (\<lambda>_.
     io_bind (on_machine (quiesce_at_barrier E L True)) (\<lambda>_ s.
       case on_machine (arm_logging K L) s of
         (Inl e, s1) \<Rightarrow> (Inl e, (disarm K L (fst s1), snd s1))
       | (Inr _, s1) \<Rightarrow>
           io_bind (on_machine (release_barrier L)) (\<lambda>_ s2.
             case write_branch_image L (lv_hosts L (mc_mem (fst s0))) (join_path dir MEMORY_FILE) s2 of
               (Inl e, s3) \<Rightarrow>
                 io_bind (on_machine (quiesce_at_barrier E L True))
                   (\<lambda>_ s4. (Inl e, (disarm K L (fst s4), snd s4))) s3
             | (Inr copied, s3) \<Rightarrow> branch_finish E K L dir copied s3) s1)) s0"


section \<open>Restoring and forking\<close>

definition restore_start ::
  "('q, 'm, 'e) venv \<Rightarrow> host_env \<Rightarrow> ('m, 'e, 'f, 'v) kvm_env \<Rightarrow> ('e \<Rightarrow> 's) \<Rightarrow> 'f vcpu_ops
   \<Rightarrow> ('q, 'm, 'e, 'f, 'v, 's) live_env \<Rightarrow> files \<Rightarrow> VmState \<Rightarrow> string
   \<Rightarrow> (('q, 'm, 'e, 'f, 'v, 's) Machine, unit) io" where
  "restore_start E H K com1 V L fs st path m =
     (case load_guest_memory E K L fs path (mc_mem m) of
        (Inl e, mem) \<Rightarrow> (Inl e, m\<lparr> mc_mem := mem \<rparr>)
      | (Inr _, mem) \<Rightarrow> resume_from_state E H K com1 V st (m\<lparr> mc_mem := mem \<rparr>))"

definition restore_jailed ::
  "((u64 \<times> u64) list \<Rightarrow> string + 'm) \<Rightarrow> ('q, 'm, 'e) venv \<Rightarrow> host_env \<Rightarrow> ('m, 'e, 'f, 'v) kvm_env
   \<Rightarrow> ('e \<Rightarrow> 's) \<Rightarrow> 'f vcpu_ops \<Rightarrow> ('q, 'm, 'e, 'f, 'v, 's) live_env \<Rightarrow> VmConfig \<Rightarrow> tap list \<Rightarrow> accepts option
   \<Rightarrow> files \<Rightarrow> VmState \<Rightarrow> string \<Rightarrow> HostFingerprint \<Rightarrow> VmmError + ('q, 'm, 'e, 'f, 'v, 's) Machine" where
  "restore_jailed from_ranges E H K com1 V L config taps listener fs st path expected =
     res_bind (with_resources from_ranges K V config taps) (\<lambda>m.
     res_bind (verify_host K expected) (\<lambda>_.
       case restore_start E H K com1 V L fs st path
              (case listener of None \<Rightarrow> m | Some l \<Rightarrow> m\<lparr> mc_vsock_listener := Some l \<rparr>) of
         (Inl e, _) \<Rightarrow> Inl e | (Inr _, m') \<Rightarrow> Inr m'))"

text \<open>\<open>opened_kvm\<close> is the outcome of opening \<open>/dev/kvm\<close>.\<close>

definition machine_restore ::
  "((u64 \<times> u64) list \<Rightarrow> string + 'm) \<Rightarrow> string + unit \<Rightarrow> ('q, 'm, 'e) venv \<Rightarrow> host_env \<Rightarrow> ('m, 'e, 'f, 'v) kvm_env
   \<Rightarrow> ('e \<Rightarrow> 's) \<Rightarrow> 'f vcpu_ops \<Rightarrow> ('q, 'm, 'e, 'f, 'v, 's) live_env \<Rightarrow> VmConfig
   \<Rightarrow> files \<Rightarrow> VmState \<Rightarrow> string \<Rightarrow> HostFingerprint \<Rightarrow> VmmError + ('q, 'm, 'e, 'f, 'v, 's) Machine" where
  "machine_restore from_ranges opened_kvm E H K com1 V L config fs st path expected =
     res_bind (kvm_err opened_kvm) (\<lambda>_. restore_jailed from_ranges E H K com1 V L config [] None fs st path expected)"

text \<open>\<open>map_region\<close> is the private mapping of a slice of the file, \<open>from_regions\<close> the
  memory library's assembly of the mapped regions.\<close>

definition fork_with_vsock ::
  "(bytes \<Rightarrow> u64 \<times> u64 \<times> u64 \<Rightarrow> string + 'r) \<Rightarrow> ('r list \<Rightarrow> string + 'm) \<Rightarrow> string + unit \<Rightarrow> ('q, 'm, 'e) venv
   \<Rightarrow> host_env \<Rightarrow> ('m, 'e, 'f, 'v) kvm_env \<Rightarrow> ('e \<Rightarrow> 's) \<Rightarrow> 'f vcpu_ops \<Rightarrow> VmConfig \<Rightarrow> files \<Rightarrow> VmState \<Rightarrow> string
   \<Rightarrow> accepts option \<Rightarrow> VmmError + ('q, 'm, 'e, 'f, 'v, 's) Machine" where
  "fork_with_vsock map_region from_regions opened_kvm E H K com1 V config fs st path listener =
     res_bind (allocate_cow_guest_memory (case fs path of None \<Rightarrow> Inl ''no such file'' | Some b \<Rightarrow> Inr b)
       map_region from_regions (memory_mib config)) (\<lambda>mem.
     res_bind (kvm_err opened_kvm) (\<lambda>_.
     res_bind (with_resources_memory K V config [] mem) (\<lambda>m.
       case resume_from_state E H K com1 V st (m\<lparr> mc_vsock_listener := listener \<rparr>) of
         (Inl e, _) \<Rightarrow> Inl e | (Inr _, m') \<Rightarrow> Inr m')))"

definition load_manifest :: "('q, 'm, 'e, 'f, 'v, 's) live_env \<Rightarrow> files \<Rightarrow> string \<Rightarrow> VmmError + SnapshotManifest" where
  "load_manifest L fs dir =
     (case fs (join_path dir MANIFEST_FILE) of
        None \<Rightarrow> Inl (Io ''no such file'')
      | Some b \<Rightarrow> (case lv_manifest_from_json L b of Inl e \<Rightarrow> Inl (Device e) | Inr m \<Rightarrow> Inr m))"

definition load_state ::
  "('q, 'm, 'e, 'f, 'v, 's) live_env \<Rightarrow> files \<Rightarrow> string \<Rightarrow> SnapshotManifest \<Rightarrow> VmmError + VmState" where
  "load_state L fs dir man =
     (case fs (join_path dir (sm_state_file man)) of
        None \<Rightarrow> Inl (Io ''no such file'')
      | Some b \<Rightarrow> (case lv_state_from_bytes L b of Inl e \<Rightarrow> Inl (Device e) | Inr s \<Rightarrow> Inr s))"

definition engine_restore ::
  "((u64 \<times> u64) list \<Rightarrow> string + 'm) \<Rightarrow> ('q, 'm, 'e) venv \<Rightarrow> host_env \<Rightarrow> ('m, 'e, 'f, 'v) kvm_env
   \<Rightarrow> ('e \<Rightarrow> 's) \<Rightarrow> 'f vcpu_ops \<Rightarrow> ('q, 'm, 'e, 'f, 'v, 's) live_env \<Rightarrow> VmConfig \<Rightarrow> tap list \<Rightarrow> accepts option
   \<Rightarrow> files \<Rightarrow> string \<Rightarrow> VmmError + ('q, 'm, 'e, 'f, 'v, 's) Machine" where
  "engine_restore from_ranges E H K com1 V L config taps listener fs dir =
     res_bind (load_manifest L fs dir) (\<lambda>man.
     res_bind (load_state L fs dir man) (\<lambda>st.
       restore_jailed from_ranges E H K com1 V L config taps listener fs st
         (join_path dir (sm_memory_file man)) (sm_host man)))"

fun fork_each :: "(unit \<Rightarrow> VmmError + 'a) \<Rightarrow> u64 list \<Rightarrow> VmmError + 'a list" where
  "fork_each f [] = Inr []"
| "fork_each f (_ # ids) = res_bind (f ()) (\<lambda>c. res_bind (fork_each f ids) (\<lambda>cs. Inr (c # cs)))"

definition fork_children ::
  "(bytes \<Rightarrow> u64 \<times> u64 \<times> u64 \<Rightarrow> string + 'r) \<Rightarrow> ('r list \<Rightarrow> string + 'm) \<Rightarrow> string + unit \<Rightarrow> ('q, 'm, 'e) venv
   \<Rightarrow> host_env \<Rightarrow> ('m, 'e, 'f, 'v) kvm_env \<Rightarrow> ('e \<Rightarrow> 's) \<Rightarrow> 'f vcpu_ops \<Rightarrow> ('q, 'm, 'e, 'f, 'v, 's) live_env
   \<Rightarrow> VmConfig \<Rightarrow> files \<Rightarrow> string \<Rightarrow> ForkPlan \<Rightarrow> VmmError + ('q, 'm, 'e, 'f, 'v, 's) Machine list" where
  "fork_children map_region from_regions opened_kvm E H K com1 V L config fs dir plan =
     res_bind (load_manifest L fs dir) (\<lambda>man.
     res_bind (load_state L fs dir man) (\<lambda>st.
       fork_each (\<lambda>_. fork_with_vsock map_region from_regions opened_kvm E H K com1 V config fs st
         (join_path dir (sm_memory_file man)) None) (fp_child_ids plan)))"

end
