(* ===== verification/Branch.thy ===== *)
theory Branch
  imports Live_Snapshot
begin

text \<open>
  What the operations of \<open>Live_Snapshot\<close> achieve.  The image of guest RAM as one flat byte string, the laws
  of KVM's dirty log and of the memory library's bitmap, and the proof that a live copy followed by a
  copy of the marked pages is the image of the guest at the second barrier; dumping, loading and mapping as inverse
  operations; and the directory of a snapshot as something that restores.
\<close>

section \<open>Flat images\<close>

text \<open>Where region \<open>i\<close> starts in the file, and the image of all regions.\<close>

definition region_start :: "(u64 \<times> u64) list \<Rightarrow> nat \<Rightarrow> nat" where
  "region_start rs i = sum_list (map (\<lambda>r. unat (snd r)) (take i rs))"

definition ram_image :: "('q, 'm, 'e, 'f, 'v, 's) live_env \<Rightarrow> 'm \<Rightarrow> bytes" where
  "ram_image L mem = concat (map (\<lambda>(b, n). host_bytes L mem b (unat n)) (lv_hosts L mem))"

abbreviation image_size :: "(u64 \<times> u64) list \<Rightarrow> nat" where
  "image_size rs \<equiv> sum_list (map (\<lambda>r. unat (snd r)) rs)"

lemma length_host_bytes [simp]: "length (host_bytes L mem h n) = n"
  by (simp add: host_bytes_def)

lemma nth_host_bytes [simp]: "i < n \<Longrightarrow> host_bytes L mem h n ! i = lv_byte L mem (h + of_nat i)"
  by (simp add: host_bytes_def)

lemma slice_host_bytes:
  "off + k \<le> n \<Longrightarrow> slice off k (host_bytes L mem h n) = host_bytes L mem (h + of_nat off) k"
  by (rule nth_equalityI) (auto simp: slice_def algebra_simps)

lemma host_bytes_append: "host_bytes L mem h (a + b) = host_bytes L mem h a @ host_bytes L mem (h + of_nat a) b"
  by (rule nth_equalityI) (auto simp: nth_append algebra_simps of_nat_diff)

lemma length_ram_image: "length (ram_image L mem) = image_size (lv_hosts L mem)"
  by (simp add: ram_image_def length_concat o_def case_prod_beta)

lemma region_start_le: "i < length rs \<Longrightarrow> region_start rs i + unat (snd (rs ! i)) \<le> image_size rs"
proof (induction rs arbitrary: i)
  case (Cons r rs)
  then show ?case by (cases i) (auto simp: region_start_def)
qed simp

lemma locate_byte:
  "k < image_size rs \<Longrightarrow> \<exists>i off. i < length rs \<and> off < unat (snd (rs ! i)) \<and> k = region_start rs i + off"
proof (induction rs arbitrary: k)
  case (Cons r rs)
  show ?case
  proof (cases "k < unat (snd r)")
    case True
    then show ?thesis by (intro exI [of _ 0] exI [of _ k]) (auto simp: region_start_def)
  next
    case False
    then have "k - unat (snd r) < image_size rs" using Cons.prems by (simp add: o_def)
    from Cons.IH [OF this] obtain i off where
      "i < length rs" "off < unat (snd (rs ! i))" "k - unat (snd r) = region_start rs i + off" by blast
    then show ?thesis using False by (intro exI [of _ "Suc i"] exI [of _ off]) (auto simp: region_start_def)
  qed
qed simp

lemma slice_region:
  assumes "i < length rs" "off + k \<le> unat (snd (rs ! i))"
  shows "slice (region_start rs i + off) k (concat (map (\<lambda>(b, n). host_bytes L mem b (unat n)) rs)) =
     host_bytes L mem (fst (rs ! i) + of_nat off) k"
  using assms
proof (induction rs arbitrary: i)
  case (Cons r rs)
  show ?case
  proof (cases i)
    case 0
    with Cons.prems show ?thesis
      by (cases r) (simp add: region_start_def slice_append1 slice_host_bytes)
  next
    case (Suc j)
    with Cons.prems Cons.IH [of j] show ?thesis
      by (cases r) (simp add: region_start_def slice_append2 add.assoc)
  qed
qed simp

lemma slice_ram_image:
  "i < length (lv_hosts L mem) \<Longrightarrow> off + k \<le> unat (snd (lv_hosts L mem ! i)) \<Longrightarrow>
   slice (region_start (lv_hosts L mem) i + off) k (ram_image L mem) =
     host_bytes L mem (fst (lv_hosts L mem ! i) + of_nat off) k"
  unfolding ram_image_def by (rule slice_region)

lemma slice_1: "k < length xs \<Longrightarrow> slice k 1 xs = [xs ! k]"
  by (simp add: slice_def take_Suc_conv_app_nth hd_drop_conv_nth take_Suc drop_eq_Nil)

lemma nth_ram_image:
  assumes "i < length (lv_hosts L mem)" "off < unat (snd (lv_hosts L mem ! i))"
  shows "ram_image L mem ! (region_start (lv_hosts L mem) i + off) =
     lv_byte L mem (fst (lv_hosts L mem ! i) + of_nat off)"
proof -
  have "region_start (lv_hosts L mem) i + off < length (ram_image L mem)"
    using region_start_le [OF assms(1)] assms(2) by (simp add: length_ram_image)
  then show ?thesis using slice_ram_image [OF assms(1), of off 1] assms(2) slice_1 by (force simp: host_bytes_def)
qed


section \<open>What KVM and the memory library promise\<close>

text \<open>\<open>lg v s\<close>: slot \<open>s\<close> is logged; \<open>kd v s p\<close>: page \<open>p\<close> of the slot is in KVM's log;
  \<open>dd mem i p\<close>: page \<open>p\<close> of region \<open>i\<close> is in the bitmap of the memory library.  A bitmap has at
  most one bit for every page of the address space.\<close>

definition marked ::
  "('v \<Rightarrow> u32 \<Rightarrow> nat \<Rightarrow> bool) \<Rightarrow> ('m \<Rightarrow> nat \<Rightarrow> nat \<Rightarrow> bool) \<Rightarrow> ('q, 'm, 'e, 'f, 'v, 's) Machine \<Rightarrow> nat \<times> nat \<Rightarrow> bool" where
  "marked kd dd m = (\<lambda>(i, p). kd (mc_vm m) (of_nat i) p \<or> dd (mc_mem m) i p)"

definition page_view ::
  "('q, 'm, 'e, 'f, 'v, 's) live_env \<Rightarrow> ('q, 'm, 'e, 'f, 'v, 's) Machine \<Rightarrow> nat \<times> nat \<Rightarrow> bytes" where
  "page_view L m = (\<lambda>(i, p).
     let rs = lv_hosts L (mc_mem m) in
     if i < length rs \<and> p * BRANCH_PAGE_SIZE < unat (snd (rs ! i))
     then host_bytes L (mc_mem m) (fst (rs ! i) + of_nat (p * BRANCH_PAGE_SIZE)) BRANCH_PAGE_SIZE else [])"

definition all_logged :: "('v \<Rightarrow> u32 \<Rightarrow> bool) \<Rightarrow> ('q, 'm, 'e, 'f, 'v, 's) live_env \<Rightarrow> ('q, 'm, 'e, 'f, 'v, 's) Machine \<Rightarrow> bool" where
  "all_logged lg L m \<longleftrightarrow> (\<forall>i < length (lv_hosts L (mc_mem m)). lg (mc_vm m) (of_nat i))"

text \<open>What a run of the guest keeps: the configuration, the regions and the logging; and while all slots are logged,
  every page that changes is marked and no mark is lost.\<close>

definition runs_to ::
  "('m, 'e, 'f, 'v) kvm_env \<Rightarrow> ('q, 'm, 'e, 'f, 'v, 's) live_env \<Rightarrow> ('v \<Rightarrow> u32 \<Rightarrow> nat \<Rightarrow> bool)
   \<Rightarrow> ('m \<Rightarrow> nat \<Rightarrow> nat \<Rightarrow> bool) \<Rightarrow> ('v \<Rightarrow> u32 \<Rightarrow> bool)
   \<Rightarrow> ('q, 'm, 'e, 'f, 'v, 's) Machine \<Rightarrow> ('q, 'm, 'e, 'f, 'v, 's) Machine \<Rightarrow> bool" where
  "runs_to K L kd dd lg m m' \<longleftrightarrow>
     mc_config m' = mc_config m \<and> lv_hosts L (mc_mem m') = lv_hosts L (mc_mem m) \<and>
     k_regions K (mc_mem m') = k_regions K (mc_mem m) \<and> (\<forall>s. lg (mc_vm m) s \<longrightarrow> lg (mc_vm m') s) \<and>
     (all_logged lg L m \<longrightarrow> tracks (page_view L) (marked kd dd) m m')"

definition word_has :: "u64 list \<Rightarrow> nat \<Rightarrow> bool" where
  "word_has ws p \<longleftrightarrow> bit (get_word ws (p div 64)) (p mod 64)"

definition branch_laws ::
  "('m, 'e, 'f, 'v) kvm_env \<Rightarrow> ('q, 'm, 'e, 'f, 'v, 's) live_env \<Rightarrow> ('v \<Rightarrow> u32 \<Rightarrow> nat \<Rightarrow> bool)
   \<Rightarrow> ('m \<Rightarrow> nat \<Rightarrow> nat \<Rightarrow> bool) \<Rightarrow> ('v \<Rightarrow> u32 \<Rightarrow> bool) \<Rightarrow> bool" where
  "branch_laws K L kd dd lg \<longleftrightarrow>
     (\<forall>m. runs_to K L kd dd lg m (lv_live L m)) \<and>
     (\<forall>n m. runs_to K L kd dd lg m (snd (lv_park L n m))) \<and>
     (\<forall>n m. runs_to K L kd dd lg m (snd (lv_resume L n m))) \<and>
     (\<forall>s v v'. k_set_user_memory_region K s v = Inr v' \<longrightarrow>
        (ms_flags s = KVM_MEM_LOG_DIRTY_PAGES \<longrightarrow> lg v' (ms_slot s)) \<and> (\<forall>t. t \<noteq> ms_slot s \<longrightarrow> lg v' t = lg v t)) \<and>
     (\<forall>s n v ws v'. k_get_dirty_log K s n v = Inr (ws, v') \<longrightarrow>
        length ws \<le> 2 ^ 46 \<and> lg v' = lg v \<and> (\<forall>t. t \<noteq> s \<longrightarrow> kd v' t = kd v t) \<and>
        (\<forall>p. p * BRANCH_PAGE_SIZE < unat n \<longrightarrow> kd v s p \<longrightarrow> word_has ws p)) \<and>
     (\<forall>i mem ws mem'. lv_bitmap L i mem = (ws, mem') \<longrightarrow>
        length ws \<le> 2 ^ 46 \<and> lv_byte L mem' = lv_byte L mem \<and> lv_hosts L mem' = lv_hosts L mem \<and>
        k_regions K mem' = k_regions K mem \<and>
        (\<forall>j. j \<noteq> i \<longrightarrow> dd mem' j = dd mem j) \<and> (\<forall>p. dd mem i p \<longrightarrow> word_has ws p))"

text \<open>Regions are whole pages and fit a file; there are few of them.\<close>

definition regions_ok :: "(u64 \<times> u64) list \<Rightarrow> bool" where
  "regions_ok rs \<longleftrightarrow>
     length rs < 2 ^ 32 \<and> image_size rs < 2 ^ 63 \<and> (\<forall>r \<in> set rs. BRANCH_PAGE_SIZE dvd unat (snd r))"

text \<open>Reading guest memory reads the bytes of the mapping.\<close>

definition ram_laws ::
  "('q, 'm, 'e) venv \<Rightarrow> ('m, 'e, 'f, 'v) kvm_env \<Rightarrow> ('q, 'm, 'e, 'f, 'v, 's) live_env \<Rightarrow> bool" where
  "ram_laws E K L \<longleftrightarrow>
     (\<forall>mem. map snd (k_regions K mem) = map snd (lv_hosts L mem)) \<and>
     (\<forall>mem i off n. i < length (lv_hosts L mem) \<longrightarrow> unat off + n \<le> unat (snd (lv_hosts L mem ! i)) \<longrightarrow>
        unat (fst (k_regions K mem ! i)) + unat (snd (lv_hosts L mem ! i)) \<le> 2 ^ 64 \<and>
        m_read E mem (fst (k_regions K mem ! i) + off) n = Inr (host_bytes L mem (fst (lv_hosts L mem ! i) + off) n))"

lemma runs_to_refl [simp]: "runs_to K L kd dd lg m m"
  by (simp add: runs_to_def)

lemma runs_to_trans:
  "runs_to K L kd dd lg a b \<Longrightarrow> runs_to K L kd dd lg b c \<Longrightarrow> runs_to K L kd dd lg a c"
  unfolding runs_to_def all_logged_def by (metis tracks_trans)

lemma runs_to_logged: "runs_to K L kd dd lg a b \<Longrightarrow> all_logged lg L a \<Longrightarrow> all_logged lg L b"
  by (auto simp: runs_to_def all_logged_def)

text \<open>A byte of the image whose page is marked.\<close>

definition stale_ok ::
  "('v \<Rightarrow> u32 \<Rightarrow> nat \<Rightarrow> bool) \<Rightarrow> ('m \<Rightarrow> nat \<Rightarrow> nat \<Rightarrow> bool) \<Rightarrow> ('q, 'm, 'e, 'f, 'v, 's) live_env
   \<Rightarrow> ('q, 'm, 'e, 'f, 'v, 's) Machine \<Rightarrow> nat \<Rightarrow> bool" where
  "stale_ok kd dd L m k \<longleftrightarrow> (\<exists>i off. i < length (lv_hosts L (mc_mem m)) \<and> off < unat (snd (lv_hosts L (mc_mem m) ! i)) \<and>
     k = region_start (lv_hosts L (mc_mem m)) i + off \<and> marked kd dd m (i, off div BRANCH_PAGE_SIZE))"

text \<open>A byte read earlier is the byte of the image now, or its page is marked.\<close>

lemma byte_tracked:
  assumes "runs_to K L kd dd lg m m'" "all_logged lg L m" "regions_ok (lv_hosts L (mc_mem m))"
    and k: "k < image_size (lv_hosts L (mc_mem m))"
  shows "ram_image L (mc_mem m') ! k = ram_image L (mc_mem m) ! k \<or> stale_ok kd dd L m' k"
    and "stale_ok kd dd L m k \<Longrightarrow> stale_ok kd dd L m' k"
proof -
  have t: "tracks (page_view L) (marked kd dd) m m'" and h: "lv_hosts L (mc_mem m') = lv_hosts L (mc_mem m)"
    using assms(1,2) by (auto simp: runs_to_def)
  show "stale_ok kd dd L m k \<Longrightarrow> stale_ok kd dd L m' k"
    using t h unfolding stale_ok_def tracks_def by metis
  obtain i off where i: "i < length (lv_hosts L (mc_mem m))" "off < unat (snd (lv_hosts L (mc_mem m) ! i))"
    "k = region_start (lv_hosts L (mc_mem m)) i + off" using locate_byte [OF k] by blast
  define p r where "p = off div BRANCH_PAGE_SIZE" and "r = off mod BRANCH_PAGE_SIZE"
  have off: "off = p * BRANCH_PAGE_SIZE + r" "r < BRANCH_PAGE_SIZE" by (simp_all add: p_def r_def BRANCH_PAGE_SIZE_def)
  show "ram_image L (mc_mem m') ! k = ram_image L (mc_mem m) ! k \<or> stale_ok kd dd L m' k"
  proof (cases "page_view L m' (i, p) = page_view L m (i, p)")
    case True
    have "p * BRANCH_PAGE_SIZE < unat (snd (lv_hosts L (mc_mem m) ! i))" using i(2) off(1) by linarith
    then have "page_view L x (i, p) ! r = lv_byte L (mc_mem x) (fst (lv_hosts L (mc_mem m) ! i) + of_nat off)"
      if "lv_hosts L (mc_mem x) = lv_hosts L (mc_mem m)" for x
      using that i(1) off by (simp add: page_view_def Let_def add.assoc)
    then have "lv_byte L (mc_mem m') (fst (lv_hosts L (mc_mem m) ! i) + of_nat off) =
        lv_byte L (mc_mem m) (fst (lv_hosts L (mc_mem m) ! i) + of_nat off)" using True h by metis
    then show ?thesis using nth_ram_image [of i L "mc_mem m" off] nth_ram_image [of i L "mc_mem m'" off] i h by simp
  next
    case False
    then have "marked kd dd m' (i, p)" using t by (simp add: tracks_def)
    then show ?thesis using i h unfolding stale_ok_def p_def by metis
  qed
qed


section \<open>The live copy\<close>

lemma nth_patch:
  "off + length bs \<le> length f \<Longrightarrow> k < length f \<Longrightarrow>
   patch off bs f ! k = (if off \<le> k \<and> k < off + length bs then bs ! (k - off) else f ! k)"
  by (auto simp: patch_def nth_append min_def)

lemma put_at_inside:
  assumes "put_at L path off bs fs = (Inr (), fs')" "fs path = Some f" "unat off + length bs \<le> length f"
  shows "fs' = fs(path \<mapsto> patch (unat off) bs f)"
  using assms
  by (auto simp: put_at_def write_all_at_def write_bytes_def patch_def fun_upd_idem split: sum.splits if_splits)

lemma live_read_tracked:
  assumes laws: "\<And>x. runs_to K L kd dd lg x (lv_live L x)" and "live_read L h n m = (bs, m')"
  shows "length bs = n" "runs_to K L kd dd lg m m'"
    "j < n \<Longrightarrow> \<exists>x. runs_to K L kd dd lg m x \<and> runs_to K L kd dd lg x m' \<and> bs ! j = lv_byte L (mc_mem x) (h + of_nat j)"
proof -
  have "length bs = n \<and> runs_to K L kd dd lg m m' \<and>
    (\<forall>j < n. \<exists>x. runs_to K L kd dd lg m x \<and> runs_to K L kd dd lg x m' \<and> bs ! j = lv_byte L (mc_mem x) (h + of_nat j))"
    using assms(2)
  proof (induction n arbitrary: h m bs)
    case (Suc n)
    obtain cs where cs: "live_read L (h + 1) n (lv_live L m) = (cs, m')" "bs = lv_byte L (mc_mem (lv_live L m)) h # cs"
      using Suc.prems by (auto simp: Let_def split: prod.splits)
    note IH = Suc.IH [OF cs(1)]
    have "\<exists>x. runs_to K L kd dd lg m x \<and> runs_to K L kd dd lg x m' \<and> bs ! j = lv_byte L (mc_mem x) (h + of_nat j)"
      if j: "j < Suc n" for j
    proof (cases j)
      case 0
      then show ?thesis using IH laws cs(2) by auto
    next
      case (Suc i)
      then obtain x where "runs_to K L kd dd lg (lv_live L m) x" "runs_to K L kd dd lg x m'"
        "cs ! i = lv_byte L (mc_mem x) (h + 1 + of_nat i)" using IH j by auto
      then show ?thesis using Suc cs(2) laws [of m] by (intro exI [of _ x]) (auto simp: add.assoc intro: runs_to_trans)
    qed
    then show ?case using IH cs(2) laws [of m] by (auto intro: runs_to_trans)
  qed simp
  then show "length bs = n" "runs_to K L kd dd lg m m'"
    "j < n \<Longrightarrow> \<exists>x. runs_to K L kd dd lg m x \<and> runs_to K L kd dd lg x m' \<and> bs ! j = lv_byte L (mc_mem x) (h + of_nat j)"
    by blast+
qed

text \<open>The image so far: the first \<open>n\<close> bytes are those of guest RAM, or their page is marked.\<close>

definition image_upto ::
  "('v \<Rightarrow> u32 \<Rightarrow> nat \<Rightarrow> bool) \<Rightarrow> ('m \<Rightarrow> nat \<Rightarrow> nat \<Rightarrow> bool) \<Rightarrow> ('q, 'm, 'e, 'f, 'v, 's) live_env
   \<Rightarrow> nat \<Rightarrow> ('q, 'm, 'e, 'f, 'v, 's) Machine \<Rightarrow> bytes \<Rightarrow> bool" where
  "image_upto kd dd L n m f \<longleftrightarrow>
     length f = image_size (lv_hosts L (mc_mem m)) \<and> (\<forall>k < n. f ! k = ram_image L (mc_mem m) ! k \<or> stale_ok kd dd L m k)"

lemma image_upto_runs:
  assumes "image_upto kd dd L n m f" "runs_to K L kd dd lg m m'" "all_logged lg L m"
    "regions_ok (lv_hosts L (mc_mem m))" "n \<le> image_size (lv_hosts L (mc_mem m))"
  shows "image_upto kd dd L n m' f"
proof -
  have "f ! k = ram_image L (mc_mem m') ! k \<or> stale_ok kd dd L m' k" if "k < n" for k
    using assms(1) byte_tracked [OF assms(2,3,4), of k] that assms(5) unfolding image_upto_def by fastforce
  moreover have "lv_hosts L (mc_mem m') = lv_hosts L (mc_mem m)" using assms(2) by (simp add: runs_to_def)
  ultimately show ?thesis using assms(1) by (simp add: image_upto_def)
qed

lemma copy_region_upto:
  assumes "\<And>x. runs_to K L kd dd lg x (lv_live L x)" and read: "live_read L base (unat len) m = (bs, m')"
    and hosts: "lv_hosts L (mc_mem m) = pre @ (base, len) # rs"
    and log: "all_logged lg L m" and ok: "regions_ok (lv_hosts L (mc_mem m))"
    and img: "image_upto kd dd L (image_size pre) m f"
  shows "image_upto kd dd L (image_size pre + unat len) m' (patch (image_size pre) bs f)"
proof -
  note R = live_read_tracked [OF assms(1) read]
  have h': "lv_hosts L (mc_mem m') = lv_hosts L (mc_mem m)" using R(2) by (simp add: runs_to_def)
  have start: "region_start (lv_hosts L (mc_mem m)) (length pre) = image_size pre" by (simp add: region_start_def hosts)
  have len: "length f = image_size (pre @ (base, len) # rs)" using img hosts by (simp add: image_upto_def)
  have in_f: "image_size pre + length bs \<le> length f" by (simp add: len R(1))
  have old: "image_upto kd dd L (image_size pre) m' f"
    by (rule image_upto_runs [OF img R(2) log ok]) (simp add: hosts)
  have "patch (image_size pre) bs f ! k = ram_image L (mc_mem m') ! k \<or> stale_ok kd dd L m' k"
    if k: "k < image_size pre + unat len" for k
  proof (cases "k < image_size pre")
    case True
    then show ?thesis using old in_f k by (auto simp: nth_patch image_upto_def)
  next
    case False
    define j where "j = k - image_size pre"
    have j: "j < unat len" "k = image_size pre + j" using False k by (auto simp: j_def)
    obtain x where x: "runs_to K L kd dd lg m x" "runs_to K L kd dd lg x m'" "bs ! j = lv_byte L (mc_mem x) (base + of_nat j)"
      using R(3) [OF j(1)] by blast
    have hx: "lv_hosts L (mc_mem x) = lv_hosts L (mc_mem m)" using x(1) by (simp add: runs_to_def)
    have "ram_image L (mc_mem x) ! k = bs ! j"
      using nth_ram_image [of "length pre" L "mc_mem x" j] start x(3) j by (simp add: hx hosts)
    moreover have "k < image_size (lv_hosts L (mc_mem x))" using j by (simp add: hx hosts)
    ultimately have "ram_image L (mc_mem m') ! k = bs ! j \<or> stale_ok kd dd L m' k"
      using byte_tracked(1) [OF x(2) runs_to_logged [OF x(1) log]] ok hx by metis
    moreover have "patch (image_size pre) bs f ! k = bs ! j" using in_f j R(1) by (simp add: nth_patch)
    ultimately show ?thesis by auto
  qed
  then show ?thesis using in_f img h' by (simp add: image_upto_def)
qed

lemma copy_regions_upto:
  assumes laws: "\<And>x. runs_to K L kd dd lg x (lv_live L x)"
    and "copy_regions L path off rs (m, fs) = (Inr (), (m', fs'))"
    and "lv_hosts L (mc_mem m) = pre @ rs" "off = of_nat (image_size pre)" "fs path = Some f"
    and "all_logged lg L m" "regions_ok (lv_hosts L (mc_mem m))" "image_upto kd dd L (image_size pre) m f"
  shows "runs_to K L kd dd lg m m' \<and>
    (\<exists>f'. fs' = fs(path \<mapsto> f') \<and> image_upto kd dd L (image_size (lv_hosts L (mc_mem m'))) m' f')"
  using assms(2-)
proof (induction rs arbitrary: off m fs pre f)
  case Nil
  then have "fs' = fs(path \<mapsto> f)" by (auto simp: fun_upd_idem)
  then show ?case using Nil by auto
next
  case (Cons r rs)
  obtain base len where r: "r = (base, len)" by (cases r)
  obtain bs m1 where rd: "live_read L base (unat len) m = (bs, m1)" by fastforce
  obtain fs1 where put: "put_at L path off bs fs = (Inr (), fs1)"
    and rest: "copy_regions L path (off + len) rs (m1, fs1) = (Inr (), (m', fs'))"
    using Cons.prems(1) by (auto simp: r rd split: prod.splits sum.splits)
  note R = live_read_tracked [OF laws rd]
  have "image_size pre < 2 ^ 63" using Cons.prems(2,6) by (simp add: regions_ok_def)
  then have off: "unat off = image_size pre" by (simp add: Cons.prems(3) unat_of_nat)
  have "unat off + length bs \<le> length f"
    using Cons.prems(2,7) by (simp add: off R(1) image_upto_def r)
  from put_at_inside [OF put Cons.prems(4) this] have fs1: "fs1 = fs(path \<mapsto> patch (image_size pre) bs f)" by (simp add: off)
  have h1: "lv_hosts L (mc_mem m1) = (pre @ [(base, len)]) @ rs"
    using R(2) Cons.prems(2) by (simp add: runs_to_def r)
  have up: "image_upto kd dd L (image_size (pre @ [(base, len)])) m1 (patch (image_size pre) bs f)"
    using copy_region_upto [OF laws rd _ Cons.prems(5,6,7)] Cons.prems(2) by (simp add: r)
  have "runs_to K L kd dd lg m1 m' \<and>
      (\<exists>f'. fs' = fs1(path \<mapsto> f') \<and> image_upto kd dd L (image_size (lv_hosts L (mc_mem m'))) m' f')"
  proof (rule Cons.IH [OF rest h1 _ _ _ _ up])
    show "off + len = of_nat (image_size (pre @ [(base, len)]))" by (simp add: Cons.prems(3))
    show "all_logged lg L m1" by (rule runs_to_logged [OF R(2) Cons.prems(5)])
    show "regions_ok (lv_hosts L (mc_mem m1))" using R(2) Cons.prems(6) by (simp add: runs_to_def)
  qed (simp add: fs1)
  then show ?case using R(2) fs1 by (auto intro: runs_to_trans)
qed

lemma unat_image_size: "regions_ok rs \<Longrightarrow> unat (sum_list (map snd rs)) = image_size rs"
proof (induction rs)
  case (Cons r rs)
  then have "unat (sum_list (map snd rs)) = image_size rs" by (auto simp: regions_ok_def)
  with Cons.prems show ?case by (simp add: regions_ok_def unat_word_ariths o_def)
qed simp

lemma write_branch_image_upto:
  assumes laws: "\<And>x. runs_to K L kd dd lg x (lv_live L x)"
    and "write_branch_image L (lv_hosts L (mc_mem m)) path (m, fs) = (Inr c, (m', fs'))"
    and "all_logged lg L m" "regions_ok (lv_hosts L (mc_mem m))"
  shows "runs_to K L kd dd lg m m'"
    "\<exists>f. fs' = fs(path \<mapsto> f) \<and> image_upto kd dd L (image_size (lv_hosts L (mc_mem m'))) m' f"
proof -
  define z where "z = replicate (image_size (lv_hosts L (mc_mem m))) (0 :: u8)"
  have "copy_regions L path 0 (lv_hosts L (mc_mem m)) (m, fs(path \<mapsto> z)) = (Inr (), (m', fs'))"
    using assms(2) unat_image_size [OF assms(4)]
    by (auto simp: write_branch_image_def Let_def io_bind_def io_return_def z_def split: sum.splits if_splits prod.splits)
  then have "runs_to K L kd dd lg m m' \<and>
      (\<exists>f'. fs' = (fs(path \<mapsto> z))(path \<mapsto> f') \<and> image_upto kd dd L (image_size (lv_hosts L (mc_mem m'))) m' f')"
    by (rule copy_regions_upto [OF laws, where pre = "[]"]) (auto simp: assms z_def image_upto_def)
  then show "runs_to K L kd dd lg m m'"
    "\<exists>f. fs' = fs(path \<mapsto> f) \<and> image_upto kd dd L (image_size (lv_hosts L (mc_mem m'))) m' f" by auto
qed


section \<open>Collecting and copying the dirty pages\<close>

text \<open>A page of region \<open>i\<close> as the entry the code makes for it.\<close>

definition page_entry :: "(u64 \<times> u64) list \<Rightarrow> nat \<Rightarrow> nat \<Rightarrow> DirtyPage" where
  "page_entry rs i p =
     \<lparr> dp_host_addr = fst (rs ! i) + of_nat (p * BRANCH_PAGE_SIZE),
       dp_file_offset = of_nat (region_start rs i + p * BRANCH_PAGE_SIZE) \<rparr>"

lemma page_offset_less:
  "p * BRANCH_PAGE_SIZE < 2 ^ 64 \<Longrightarrow> (of_nat (p * BRANCH_PAGE_SIZE) :: u64) < len \<longleftrightarrow> p * BRANCH_PAGE_SIZE < unat len"
  by (simp add: word_less_nat_alt unat_of_nat del: of_nat_mult)

text \<open>The words of a region are short enough for every page offset to fit 64 bits, or the page is past the end.\<close>

lemma region_pages_iff:
  assumes "64 * max (length kvm) (length dev) * BRANCH_PAGE_SIZE \<le> 2 ^ 64"
  shows "d \<in> set (region_pages h fb len kvm dev) \<longleftrightarrow>
    (\<exists>p. (word_has kvm p \<or> word_has dev p) \<and> p * BRANCH_PAGE_SIZE < unat len \<and>
      d = \<lparr> dp_host_addr = h + of_nat (p * BRANCH_PAGE_SIZE), dp_file_offset = fb + of_nat (p * BRANCH_PAGE_SIZE) \<rparr>)"
    (is "_ \<longleftrightarrow> (\<exists>p. ?P p)")
proof
  define N where "N = max (length kvm) (length dev)"
  have fits: "p * BRANCH_PAGE_SIZE < 2 ^ 64" if "p < N * 64" for p
    using assms that unfolding N_def [symmetric] by (simp add: BRANCH_PAGE_SIZE_def)
  show "\<exists>p. ?P p" if "d \<in> set (region_pages h fb len kvm dev)"
  proof -
    from that obtain i b where ib: "i < N" "b < 64" "bit (get_word kvm i OR get_word dev i) b"
      "of_nat ((i * 64 + b) * BRANCH_PAGE_SIZE) < len"
      "d = \<lparr> dp_host_addr = h + of_nat ((i * 64 + b) * BRANCH_PAGE_SIZE), dp_file_offset = fb + of_nat ((i * 64 + b) * BRANCH_PAGE_SIZE) \<rparr>"
      by (auto simp: region_pages_def word_pages_def Let_def and_exp_eq_0_iff_not_bit N_def not_le simp del: of_nat_mult of_nat_add
          split: if_splits)
    then have "?P (i * 64 + b)"
      using fits [of "i * 64 + b"] page_offset_less [of "i * 64 + b" len] by (simp add: word_has_def bit_or_iff del: of_nat_mult of_nat_add)
    then show ?thesis by blast
  qed
  show "d \<in> set (region_pages h fb len kvm dev)" if "\<exists>p. ?P p"
  proof -
    from that obtain p where p: "?P p" by blast
    define i b where "i = p div 64" and "b = p mod 64"
    have ib: "b < 64" "i * 64 + b = p" by (simp_all add: i_def b_def)
    have bit: "bit (get_word kvm i OR get_word dev i) b" using p by (auto simp: word_has_def i_def b_def bit_or_iff)
    have "i < N" using p by (auto simp: word_has_def get_word_def i_def N_def split: if_splits)
    moreover from this have "p * BRANCH_PAGE_SIZE < 2 ^ 64" using fits ib by simp
    then have "of_nat (p * BRANCH_PAGE_SIZE) < len" using p by (simp only: page_offset_less)
    moreover have "get_word kvm i OR get_word dev i \<noteq> 0" using bit by auto
    ultimately show ?thesis
      using p ib bit by (auto simp: region_pages_def word_pages_def Let_def and_exp_eq_0_iff_not_bit N_def not_le intro!: bexI [of _ i]
          image_eqI [of _ _ b] simp del: of_nat_mult of_nat_add)
  qed
qed


text \<open>Two machines with the same guest RAM, regions, logging and configuration.\<close>

definition same_ram ::
  "('m, 'e, 'f, 'v) kvm_env \<Rightarrow> ('q, 'm, 'e, 'f, 'v, 's) live_env \<Rightarrow> ('v \<Rightarrow> u32 \<Rightarrow> bool)
   \<Rightarrow> ('q, 'm, 'e, 'f, 'v, 's) Machine \<Rightarrow> ('q, 'm, 'e, 'f, 'v, 's) Machine \<Rightarrow> bool" where
  "same_ram K L lg m m' \<longleftrightarrow>
     lv_byte L (mc_mem m') = lv_byte L (mc_mem m) \<and> lv_hosts L (mc_mem m') = lv_hosts L (mc_mem m) \<and>
     k_regions K (mc_mem m') = k_regions K (mc_mem m) \<and> lg (mc_vm m') = lg (mc_vm m) \<and> mc_config m' = mc_config m"

lemma same_ram_image: "same_ram K L lg m m' \<Longrightarrow> ram_image L (mc_mem m') = ram_image L (mc_mem m)"
  by (simp add: same_ram_def ram_image_def host_bytes_def)

lemma page_entry_at:
  "page_entry (pre @ (h, len) # rs) (length pre) p =
     \<lparr> dp_host_addr = h + of_nat (p * BRANCH_PAGE_SIZE), dp_file_offset = of_nat (image_size pre) + of_nat (p * BRANCH_PAGE_SIZE) \<rparr>"
  by (simp add: page_entry_def region_start_def)

lemma collect_slots_pages:
  assumes laws: "branch_laws K L kd dd lg"
    and "collect_slots K L (length pre) fb rs m = (Inr ps, m')"
    and "lv_hosts L (mc_mem m) = pre @ rs" "fb = of_nat (image_size pre)" "length (pre @ rs) < 2 ^ 32"
  shows "same_ram K L lg m m' \<and>
    (\<forall>d \<in> set ps. \<exists>i p. i < length (pre @ rs) \<and> p * BRANCH_PAGE_SIZE < unat (snd ((pre @ rs) ! i)) \<and>
       d = page_entry (pre @ rs) i p) \<and>
    (\<forall>i p. length pre \<le> i \<longrightarrow> i < length (pre @ rs) \<longrightarrow> p * BRANCH_PAGE_SIZE < unat (snd ((pre @ rs) ! i)) \<longrightarrow>
       marked kd dd m (i, p) \<longrightarrow> page_entry (pre @ rs) i p \<in> set ps)"
  using assms(2-)
proof (induction rs arbitrary: pre fb m ps)
  case Nil
  then show ?case by (auto simp: same_ram_def)
next
  case (Cons r rs)
  obtain h len where r: "r = (h, len)" by (cases r)
  obtain kvm v where kv: "k_get_dirty_log K (of_nat (length pre)) len (mc_vm m) = Inr (kvm, v)"
    using Cons.prems(1) by (auto simp: r split: sum.splits prod.splits)
  obtain dev mem where dv: "lv_bitmap L (length pre) (mc_mem m) = (dev, mem)" by fastforce
  define m1 where "m1 = m\<lparr> mc_vm := v, mc_mem := mem \<rparr>"
  obtain qs where qs: "collect_slots K L (length (pre @ [r])) (fb + len) rs m1 = (Inr qs, m')"
    "ps = region_pages h fb len kvm dev @ qs"
    using Cons.prems(1) kv dv
    by (auto simp: r m1_def io_bind_def io_return_def split: sum.splits prod.splits)
  have k: "length kvm \<le> 2 ^ 46" "lg v = lg (mc_vm m)" "\<And>t. t \<noteq> of_nat (length pre) \<Longrightarrow> kd v t = kd (mc_vm m) t"
    "\<And>p. p * BRANCH_PAGE_SIZE < unat len \<Longrightarrow> kd (mc_vm m) (of_nat (length pre)) p \<Longrightarrow> word_has kvm p"
    using laws kv unfolding branch_laws_def by blast+
  have d: "length dev \<le> 2 ^ 46" "lv_byte L mem = lv_byte L (mc_mem m)" "lv_hosts L mem = lv_hosts L (mc_mem m)"
    "k_regions K mem = k_regions K (mc_mem m)" "\<And>j. j \<noteq> length pre \<Longrightarrow> dd mem j = dd (mc_mem m) j"
    "\<And>p. dd (mc_mem m) (length pre) p \<Longrightarrow> word_has dev p"
    using laws dv unfolding branch_laws_def by blast+
  have eq: "(pre @ [r]) @ rs = pre @ r # rs" by simp
  have hosts1: "lv_hosts L (mc_mem m1) = (pre @ [r]) @ rs" using Cons.prems(2) by (simp add: m1_def d(3))
  have fb1: "fb + len = of_nat (image_size (pre @ [r]))" by (simp add: Cons.prems(3) r)
  have len1: "length ((pre @ [r]) @ rs) < 2 ^ 32" using Cons.prems(4) by simp
  note IH = Cons.IH [OF qs(1) hosts1 fb1 len1, unfolded eq]
  have "64 * max (length kvm) (length dev) * BRANCH_PAGE_SIZE \<le> 2 ^ 64"
    using k(1) d(1) by (auto simp: BRANCH_PAGE_SIZE_def max_def)
  note pages = region_pages_iff [OF this, of _ h fb len]
  have here: "e \<in> set (region_pages h fb len kvm dev) \<longleftrightarrow>
      (\<exists>p. (word_has kvm p \<or> word_has dev p) \<and> p * BRANCH_PAGE_SIZE < unat len \<and> e = page_entry (pre @ r # rs) (length pre) p)" for e
    using pages [of e] unfolding r page_entry_at Cons.prems(3) by simp
  have mk: "marked kd dd m1 (i, p) = marked kd dd m (i, p)" if "i \<noteq> length pre" "i < length (pre @ r # rs)" for i p
  proof -
    have "(of_nat i :: u32) \<noteq> of_nat (length pre)"
      using that Cons.prems(4) by (simp add: of_nat_inverse word_unat_eq_iff unat_of_nat)
    then show ?thesis using that by (simp add: marked_def m1_def k(3) d(5))
  qed
  have "page_entry (pre @ r # rs) i p \<in> set ps"
    if "length pre \<le> i" "i < length (pre @ r # rs)" "p * BRANCH_PAGE_SIZE < unat (snd ((pre @ r # rs) ! i))" "marked kd dd m (i, p)" for i p
  proof (cases "i = length pre")
    case True
    then have "word_has kvm p \<or> word_has dev p" using that k(4) d(6) by (auto simp: marked_def r)
    then show ?thesis using that(3) True by (auto simp: qs(2) here r)
  next
    case False
    then show ?thesis using IH that mk [of i p] by (auto simp: qs(2))
  qed
  moreover have "\<exists>i p. i < length (pre @ r # rs) \<and> p * BRANCH_PAGE_SIZE < unat (snd ((pre @ r # rs) ! i)) \<and>
      e = page_entry (pre @ r # rs) i p" if e: "e \<in> set ps" for e
  proof (cases "e \<in> set qs")
    case False
    then obtain p where "p * BRANCH_PAGE_SIZE < unat len" "e = page_entry (pre @ r # rs) (length pre) p"
      using e by (auto simp: qs(2) here)
    then show ?thesis by (intro exI [of _ "length pre"] exI [of _ p]) (simp add: r)
  qed (use IH in blast)
  moreover have "same_ram K L lg m m'" using IH by (simp add: same_ram_def m1_def d(2-4) k(2))
  ultimately show ?case by blast
qed

text \<open>Copying pages of an image into a file that has its length.\<close>

definition page_of_image :: "('q, 'm, 'e, 'f, 'v, 's) live_env \<Rightarrow> 'm \<Rightarrow> DirtyPage \<Rightarrow> bool" where
  "page_of_image L mem d \<longleftrightarrow> unat (dp_file_offset d) + BRANCH_PAGE_SIZE \<le> length (ram_image L mem) \<and>
     host_bytes L mem (dp_host_addr d) BRANCH_PAGE_SIZE = slice (unat (dp_file_offset d)) BRANCH_PAGE_SIZE (ram_image L mem)"

definition in_page_of :: "nat \<Rightarrow> DirtyPage \<Rightarrow> bool" where
  "in_page_of k d \<longleftrightarrow> unat (dp_file_offset d) \<le> k \<and> k < unat (dp_file_offset d) + BRANCH_PAGE_SIZE"

lemma nth_slice: "i < n \<Longrightarrow> off + n \<le> length xs \<Longrightarrow> slice off n xs ! i = xs ! (off + i)"
  by (simp add: slice_def)

lemma recopy_pages_image:
  assumes "recopy_pages L path mem ds fs = (Inr (), fs')" "fs path = Some f" "length f = length (ram_image L mem)"
    and "\<forall>d \<in> set ds. page_of_image L mem d"
  shows "\<exists>f'. fs' = fs(path \<mapsto> f') \<and> length f' = length (ram_image L mem) \<and>
     (\<forall>k < length f'. f' ! k = ram_image L mem ! k \<or> f' ! k = f ! k \<and> (\<forall>d \<in> set ds. \<not> in_page_of k d))"
  using assms
proof (induction ds arbitrary: fs f)
  case Nil
  then have "fs' = fs(path \<mapsto> f)" by (auto simp: fun_upd_idem)
  then show ?case using Nil by auto
next
  case (Cons d ds)
  define bs where "bs = host_bytes L mem (dp_host_addr d) BRANCH_PAGE_SIZE"
  obtain fs1 where put: "put_at L path (dp_file_offset d) bs fs = (Inr (), fs1)"
    and rest: "recopy_pages L path mem ds fs1 = (Inr (), fs')"
    using Cons.prems(1) by (auto simp: io_bind_def bs_def split: sum.splits prod.splits)
  have d: "unat (dp_file_offset d) + BRANCH_PAGE_SIZE \<le> length f"
    "bs = slice (unat (dp_file_offset d)) BRANCH_PAGE_SIZE (ram_image L mem)"
    using Cons.prems(3,4) by (auto simp: page_of_image_def bs_def)
  define f1 where "f1 = patch (unat (dp_file_offset d)) bs f"
  have "length bs = BRANCH_PAGE_SIZE" by (simp add: bs_def)
  then have fs1: "fs1 = fs(path \<mapsto> f1)" and len1: "length f1 = length (ram_image L mem)"
    and nth1: "k < length f \<Longrightarrow> f1 ! k = (if in_page_of k d then ram_image L mem ! k else f ! k)" for k
    using put_at_inside [OF put Cons.prems(2)] d Cons.prems(3)
    by (auto simp: f1_def nth_patch nth_slice in_page_of_def)
  have "\<exists>f'. fs' = fs1(path \<mapsto> f') \<and> length f' = length (ram_image L mem) \<and>
     (\<forall>k < length f'. f' ! k = ram_image L mem ! k \<or> f' ! k = f1 ! k \<and> (\<forall>d \<in> set ds. \<not> in_page_of k d))"
    by (rule Cons.IH [OF rest _ len1]) (use Cons.prems(4) fs1 in auto)
  then obtain f' where f': "fs' = fs1(path \<mapsto> f')" "length f' = length (ram_image L mem)"
    "\<And>k. k < length f' \<Longrightarrow> f' ! k = ram_image L mem ! k \<or> f' ! k = f1 ! k \<and> (\<forall>d \<in> set ds. \<not> in_page_of k d)" by blast
  have "f' ! k = ram_image L mem ! k \<or> f' ! k = f ! k \<and> (\<forall>e \<in> set (d # ds). \<not> in_page_of k e)" if "k < length f'" for k
    using f'(3) [OF that] nth1 [of k] that f'(2) Cons.prems(3) by (cases "in_page_of k d") auto
  then show ?case using f'(1,2) fs1 by (intro exI [of _ f']) auto
qed

lemma page_entry_of_image:
  assumes "regions_ok (lv_hosts L mem)" "i < length (lv_hosts L mem)"
    "p * BRANCH_PAGE_SIZE < unat (snd (lv_hosts L mem ! i))"
  shows "page_of_image L mem (page_entry (lv_hosts L mem) i p)"
    "unat (dp_file_offset (page_entry (lv_hosts L mem) i p)) = region_start (lv_hosts L mem) i + p * BRANCH_PAGE_SIZE"
proof -
  have dv: "BRANCH_PAGE_SIZE dvd unat (snd (lv_hosts L mem ! i))"
    using assms(1,2) by (auto simp: regions_ok_def)
  then obtain c where c: "unat (snd (lv_hosts L mem ! i)) = BRANCH_PAGE_SIZE * c" by blast
  then have "p < c" using assms(3) by (simp add: mult.commute BRANCH_PAGE_SIZE_def)
  then have pg: "p * BRANCH_PAGE_SIZE + BRANCH_PAGE_SIZE \<le> unat (snd (lv_hosts L mem ! i))"
    by (simp add: c BRANCH_PAGE_SIZE_def)
  have le: "region_start (lv_hosts L mem) i + p * BRANCH_PAGE_SIZE + BRANCH_PAGE_SIZE \<le> image_size (lv_hosts L mem)"
    using region_start_le [OF assms(2)] pg by linarith
  moreover have "image_size (lv_hosts L mem) < 2 ^ 63" using assms(1) by (simp add: regions_ok_def)
  ultimately have "region_start (lv_hosts L mem) i + p * BRANCH_PAGE_SIZE < 2 ^ 64" by simp
  then show off: "unat (dp_file_offset (page_entry (lv_hosts L mem) i p)) = region_start (lv_hosts L mem) i + p * BRANCH_PAGE_SIZE"
    by (simp add: page_entry_def unat_of_nat del: of_nat_mult of_nat_add)
  show "page_of_image L mem (page_entry (lv_hosts L mem) i p)"
    using le slice_ram_image [OF assms(2) pg]
    by (simp add: page_of_image_def off length_ram_image) (simp add: page_entry_def)
qed

text \<open>Recopying the collected pages completes the image.\<close>

lemma recopy_completes:
  assumes laws: "branch_laws K L kd dd lg" and ok: "regions_ok (lv_hosts L (mc_mem m))"
    and "collect_dirty_pages K L m = (Inr ds, m')" "recopy_branch_pages L path (mc_mem m') ds fs = (Inr n, fs')"
    and "fs path = Some f" "image_upto kd dd L (image_size (lv_hosts L (mc_mem m))) m f"
  shows "fs' = fs(path \<mapsto> ram_image L (mc_mem m))" "same_ram K L lg m m'"
proof -
  define rs where "rs = lv_hosts L (mc_mem m)"
  have col: "collect_slots K L (length []) 0 rs m = (Inr ds, m')" using assms(3) by (simp add: collect_dirty_pages_def rs_def)
  have "length ([] @ rs) < 2 ^ 32" using ok by (simp add: regions_ok_def rs_def)
  then have C: "same_ram K L lg m m' \<and>
    (\<forall>d \<in> set ds. \<exists>i p. i < length rs \<and> p * BRANCH_PAGE_SIZE < unat (snd (rs ! i)) \<and> d = page_entry rs i p) \<and>
    (\<forall>i p. 0 \<le> i \<longrightarrow> i < length rs \<longrightarrow> p * BRANCH_PAGE_SIZE < unat (snd (rs ! i)) \<longrightarrow>
       marked kd dd m (i, p) \<longrightarrow> page_entry rs i p \<in> set ds)"
    using collect_slots_pages [OF laws col] by (simp add: rs_def)
  then show ram: "same_ram K L lg m m'" by blast
  have img: "ram_image L (mc_mem m') = ram_image L (mc_mem m)" and h': "lv_hosts L (mc_mem m') = rs"
    using same_ram_image [OF ram] ram by (simp_all add: same_ram_def rs_def)
  have good: "page_of_image L (mc_mem m') d" if "d \<in> set ds" for d
    using C that page_entry_of_image(1) [of L "mc_mem m'"] ok by (auto simp: h' rs_def)
  have len: "length f = length (ram_image L (mc_mem m'))" using assms(6) by (simp add: image_upto_def length_ram_image h' rs_def)
  have rec: "recopy_pages L path (mc_mem m') ds fs = (Inr (), fs')"
    using assms(4) by (auto simp: recopy_branch_pages_def io_bind_def io_return_def split: sum.splits prod.splits)
  obtain f' where f': "fs' = fs(path \<mapsto> f')" "length f' = length (ram_image L (mc_mem m'))"
    "\<And>k. k < length f' \<Longrightarrow> f' ! k = ram_image L (mc_mem m') ! k \<or> f' ! k = f ! k \<and> (\<forall>d \<in> set ds. \<not> in_page_of k d)"
    using recopy_pages_image [OF rec assms(5) len] good by blast
  have "f' ! k = ram_image L (mc_mem m) ! k" if k: "k < length f'" for k
  proof -
    have "\<not> stale_ok kd dd L m k" if "\<forall>d \<in> set ds. \<not> in_page_of k d"
    proof
      assume "stale_ok kd dd L m k"
      then obtain i off where i: "i < length rs" "off < unat (snd (rs ! i))" "k = region_start rs i + off"
        "marked kd dd m (i, off div BRANCH_PAGE_SIZE)" unfolding stale_ok_def rs_def by blast
      define p where "p = off div BRANCH_PAGE_SIZE"
      have p: "p * BRANCH_PAGE_SIZE \<le> off" "off < p * BRANCH_PAGE_SIZE + BRANCH_PAGE_SIZE"
        by (simp_all add: p_def BRANCH_PAGE_SIZE_def)
      then have "p * BRANCH_PAGE_SIZE < unat (snd (rs ! i))" using i(2) by linarith
      then have "page_entry rs i p \<in> set ds" "unat (dp_file_offset (page_entry rs i p)) = region_start rs i + p * BRANCH_PAGE_SIZE"
        using C i page_entry_of_image(2) [of L "mc_mem m" i p] ok by (auto simp: rs_def p_def)
      then show False using that p i(3) by (auto simp: in_page_of_def)
    qed
    then show ?thesis
      using f'(3) [OF k] assms(6) k by (auto simp: image_upto_def img f'(2) length_ram_image)
  qed
  then have "f' = ram_image L (mc_mem m)" using f'(2) img by (intro nth_equalityI) auto
  then show "fs' = fs(path \<mapsto> ram_image L (mc_mem m))" using f'(1) by simp
qed


section \<open>Dumping and loading\<close>

definition no_faults :: "('q, 'm, 'e, 'f, 'v, 's) live_env \<Rightarrow> bool" where
  "no_faults L \<longleftrightarrow> (\<forall>opn n. lv_fault L opn n = None)"

lemma try_io_ok [simp]: "no_faults L \<Longrightarrow> try_io L opn n = Inr ()"
  by (simp add: no_faults_def try_io_def)

lemma checked_add_inside: "unat a + unat n \<le> 2 ^ 64 \<Longrightarrow> b < n \<Longrightarrow> checked_add a b = Some (a + b)" for a b n :: u64
  by (simp add: checked_add_def word_less_nat_alt)

lemma dump_region_image:
  assumes "no_faults L" "ram_laws E K L" "i < length (lv_hosts L mem)" "off \<le> snd (lv_hosts L mem ! i)"
  shows "dump_region E L mem (fst (k_regions K mem ! i)) (snd (lv_hosts L mem ! i)) off out =
    (Inr (), out @ host_bytes L mem (fst (lv_hosts L mem ! i) + off) (unat (snd (lv_hosts L mem ! i)) - unat off))"
  using assms(4)
proof (induction "unat (snd (lv_hosts L mem ! i)) - unat off" arbitrary: off out rule: less_induct)
  case less
  define len where "len = snd (lv_hosts L mem ! i)"
  show ?case
  proof (cases "off < len")
    case True
    define n where "n = min (unat (len - off)) BUF_LEN"
    have s: "unat (off + of_nat n) = unat off + n" "0 < n" "unat off + n \<le> unat len"
      using chunk_step [OF True] by (simp_all only: n_def)
    have law: "unat (fst (k_regions K mem ! i)) + unat len \<le> 2 ^ 64"
      "m_read E mem (fst (k_regions K mem ! i) + off) n = Inr (host_bytes L mem (fst (lv_hosts L mem ! i) + off) n)"
      using assms(2,3) s(3) by (auto simp: ram_laws_def len_def)
    have "dump_region E L mem (fst (k_regions K mem ! i)) len off out =
        dump_region E L mem (fst (k_regions K mem ! i)) len (off + of_nat n) (out @ host_bytes L mem (fst (lv_hosts L mem ! i) + off) n)"
      using True law assms(1) checked_add_inside [OF law(1) True]
      by (subst dump_region.simps) (simp add: n_def [symmetric] Let_def)
    also have "\<dots> = (Inr (), (out @ host_bytes L mem (fst (lv_hosts L mem ! i) + off) n) @
        host_bytes L mem (fst (lv_hosts L mem ! i) + (off + of_nat n)) (unat len - unat (off + of_nat n)))"
      unfolding len_def
    proof (rule less.hyps)
      show "unat (snd (lv_hosts L mem ! i)) - unat (off + of_nat n) < unat (snd (lv_hosts L mem ! i)) - unat off"
        using s unfolding len_def by linarith
      show "off + of_nat n \<le> snd (lv_hosts L mem ! i)" using s unfolding len_def by (simp add: word_le_nat_alt)
    qed
    also have "unat len - unat (off + of_nat n) = unat len - unat off - n" using s(1) by simp
    finally show ?thesis
      using s host_bytes_append [of L mem "fst (lv_hosts L mem ! i) + off" n "unat len - unat off - n"]
      by (simp add: len_def add.assoc)
  next
    case False
    then have "off = len" using less.prems by (simp add: len_def)
    then show ?thesis
      by (subst dump_region.simps) (simp add: len_def host_bytes_def)
  qed
qed

lemma dump_guest_memory_image:
  assumes "no_faults L" "ram_laws E K L"
  shows "dump_guest_memory E K L path mem fs = (Inr (), fs(path \<mapsto> ram_image L mem))"
proof -
  have lens: "map snd (k_regions K mem) = map snd (lv_hosts L mem)" using assms(2) by (simp add: ram_laws_def)
  have "dump_regions E L mem (drop j (k_regions K mem)) out =
      (Inr (), out @ concat (map (\<lambda>(b, n). host_bytes L mem b (unat n)) (drop j (lv_hosts L mem))))"
    if "j \<le> length (lv_hosts L mem)" for j out
    using that
  proof (induction "length (lv_hosts L mem) - j" arbitrary: j out)
    case 0
    then show ?case using map_eq_imp_length_eq [OF lens] by simp
  next
    case (Suc x)
    then have j: "j < length (lv_hosts L mem)" by simp
    have len: "length (k_regions K mem) = length (lv_hosts L mem)" by (rule map_eq_imp_length_eq [OF lens])
    have "snd (k_regions K mem ! j) = snd (lv_hosts L mem ! j)" using lens j len by (metis nth_map)
    then obtain s b n where r: "k_regions K mem ! j = (s, n)" "lv_hosts L mem ! j = (b, n)" by (metis prod.collapse)
    have "drop j (k_regions K mem) = (s, n) # drop (Suc j) (k_regions K mem)"
      "drop j (lv_hosts L mem) = (b, n) # drop (Suc j) (lv_hosts L mem)"
      using j len r by (metis Cons_nth_drop_Suc)+
    moreover have "dump_region E L mem s n 0 out = (Inr (), out @ host_bytes L mem b (unat n))"
      using dump_region_image [OF assms j, of 0 out] r by simp
    ultimately show ?case using Suc.hyps(1) [of "Suc j"] Suc.hyps(2) j by (simp add: io_bind_def)
  qed
  from this [of 0 "[]"] show ?thesis using assms(1) by (simp add: dump_guest_memory_def ram_image_def)
qed

text \<open>Writing guest memory writes the bytes of the mapping and nothing else.\<close>

definition write_laws ::
  "('q, 'm, 'e) venv \<Rightarrow> ('m, 'e, 'f, 'v) kvm_env \<Rightarrow> ('q, 'm, 'e, 'f, 'v, 's) live_env \<Rightarrow> bool" where
  "write_laws E K L \<longleftrightarrow>
     (\<forall>mem i off bs. i < length (lv_hosts L mem) \<longrightarrow> unat off + length bs \<le> unat (snd (lv_hosts L mem ! i)) \<longrightarrow>
        (\<exists>mem'. m_write E mem (fst (k_regions K mem ! i) + off) bs = Inr mem' \<and> lv_hosts L mem' = lv_hosts L mem \<and>
           k_regions K mem' = k_regions K mem \<and>
           ram_image L mem' = patch (region_start (lv_hosts L mem) i + unat off) bs (ram_image L mem)))"

lemma write_lawsD:
  assumes "write_laws E K L" "i < length (lv_hosts L mem)" "unat off + length bs \<le> unat (snd (lv_hosts L mem ! i))"
  obtains mem' where "m_write E mem (fst (k_regions K mem ! i) + off) bs = Inr mem'" "lv_hosts L mem' = lv_hosts L mem"
    "k_regions K mem' = k_regions K mem"
    "ram_image L mem' = patch (region_start (lv_hosts L mem) i + unat off) bs (ram_image L mem)"
  using assms unfolding write_laws_def by blast

lemma patch_patch:
  "off + length a + length b \<le> length f \<Longrightarrow> patch (off + length a) b (patch off a f) = patch off (a @ b) f"
  by (simp add: patch_def ac_simps)

lemma load_region_image:
  assumes "no_faults L" "ram_laws E K L" "write_laws E K L" "i < length (lv_hosts L mem)"
    "off \<le> snd (lv_hosts L mem ! i)" "unat (snd (lv_hosts L mem ! i)) - unat off \<le> length inp"
  shows "\<exists>mem'. load_region E L (fst (k_regions K mem ! i)) (snd (lv_hosts L mem ! i)) off (inp, mem) =
      (Inr (), (drop (unat (snd (lv_hosts L mem ! i)) - unat off) inp, mem')) \<and>
    lv_hosts L mem' = lv_hosts L mem \<and> k_regions K mem' = k_regions K mem \<and>
    ram_image L mem' = patch (region_start (lv_hosts L mem) i + unat off)
      (take (unat (snd (lv_hosts L mem ! i)) - unat off) inp) (ram_image L mem)"
  using assms(4-)
proof (induction "unat (snd (lv_hosts L mem ! i)) - unat off" arbitrary: off inp mem rule: less_induct)
  case less
  define len start where "len = snd (lv_hosts L mem ! i)" and "start = fst (k_regions K mem ! i)"
  show ?case
  proof (cases "off < len")
    case True
    define n where "n = min (unat (len - off)) BUF_LEN"
    have s: "unat (off + of_nat n) = unat off + n" "0 < n" "unat off + n \<le> unat len"
      using chunk_step [OF True] by (simp_all only: n_def)
    have ni: "n \<le> length inp" using s(3) less.prems(3) by (simp add: len_def)
    have law: "unat start + unat len \<le> 2 ^ 64" using assms(2) less.prems(1) s(3) by (auto simp: ram_laws_def len_def start_def)
    have "unat off + length (take n inp) \<le> unat (snd (lv_hosts L mem ! i))" using s(3) ni by (simp add: len_def)
    from write_lawsD [OF assms(3) less.prems(1) this] obtain mem1 where
      m1: "m_write E mem (start + off) (take n inp) = Inr mem1" "lv_hosts L mem1 = lv_hosts L mem"
      "k_regions K mem1 = k_regions K mem"
      "ram_image L mem1 = patch (region_start (lv_hosts L mem) i + unat off) (take n inp) (ram_image L mem)"
      unfolding start_def by blast
    have step: "load_region E L start len off (inp, mem) = load_region E L start len (off + of_nat n) (drop n inp, mem1)"
      using True m1(1) ni assms(1) checked_add_inside [OF law True]
      by (subst load_region.simps) (simp add: n_def [symmetric] Let_def)
    have "\<exists>mem'. load_region E L (fst (k_regions K mem1 ! i)) (snd (lv_hosts L mem1 ! i)) (off + of_nat n) (drop n inp, mem1) =
        (Inr (), (drop (unat (snd (lv_hosts L mem1 ! i)) - unat (off + of_nat n)) (drop n inp), mem')) \<and>
      lv_hosts L mem' = lv_hosts L mem1 \<and> k_regions K mem' = k_regions K mem1 \<and>
      ram_image L mem' = patch (region_start (lv_hosts L mem1) i + unat (off + of_nat n))
        (take (unat (snd (lv_hosts L mem1 ! i)) - unat (off + of_nat n)) (drop n inp)) (ram_image L mem1)"
    proof (rule less.hyps)
      show "unat (snd (lv_hosts L mem1 ! i)) - unat (off + of_nat n) < unat (snd (lv_hosts L mem ! i)) - unat off"
        using s unfolding m1(2) len_def by linarith
      show "off + of_nat n \<le> snd (lv_hosts L mem1 ! i)" using s unfolding m1(2) len_def by (simp add: word_le_nat_alt)
      show "unat (snd (lv_hosts L mem1 ! i)) - unat (off + of_nat n) \<le> length (drop n inp)"
        using s less.prems(3) unfolding m1(2) len_def by simp
    qed (use less.prems(1) m1(2) in simp)
    then obtain mem' where m': "load_region E L start len off (inp, mem) = (Inr (), (drop (unat len - unat off) inp, mem'))"
      "lv_hosts L mem' = lv_hosts L mem" "k_regions K mem' = k_regions K mem"
      "ram_image L mem' = patch (region_start (lv_hosts L mem) i + (unat off + n))
        (take (unat len - unat off - n) (drop n inp)) (ram_image L mem1)"
      using s step by (auto simp: m1(2,3) len_def [symmetric] start_def [symmetric] drop_drop)
    define o1 where "o1 = region_start (lv_hosts L mem) i + unat off"
    have "region_start (lv_hosts L mem) i + unat len \<le> length (ram_image L mem)"
      using region_start_le [OF less.prems(1)] by (simp add: length_ram_image len_def)
    then have "o1 + n + (unat len - unat off - n) \<le> length (ram_image L mem)" using s by (simp add: o1_def)
    then have "patch (o1 + n) (take (unat len - unat off - n) (drop n inp)) (patch o1 (take n inp) (ram_image L mem)) =
        patch o1 (take n inp @ take (unat len - unat off - n) (drop n inp)) (ram_image L mem)"
      using patch_patch [of o1 "take n inp" "take (unat len - unat off - n) (drop n inp)"] ni by simp
    also have "take n inp @ take (unat len - unat off - n) (drop n inp) = take (unat len - unat off) inp"
      using s by (simp add: take_add [symmetric])
    finally show ?thesis
      using m' m1(4) by (auto simp: len_def [symmetric] start_def [symmetric] o1_def add.assoc)
  next
    case False
    then have "off = len" using less.prems by (simp add: len_def)
    then show ?thesis
      by (subst load_region.simps) (simp add: len_def patch_def)
  qed
qed


lemma region_start_Suc: "j < length rs \<Longrightarrow> region_start rs (Suc j) = region_start rs j + unat (snd (rs ! j))"
  by (simp add: region_start_def take_Suc_conv_app_nth)

lemma load_regions_image:
  assumes "no_faults L" "ram_laws E K L" "write_laws E K L"
    and "j \<le> length (lv_hosts L mem)" "image_size (drop j (lv_hosts L mem)) \<le> length inp"
  shows "\<exists>mem'. fst (load_regions E L (drop j (k_regions K mem)) (inp, mem)) = Inr () \<and>
    snd (snd (load_regions E L (drop j (k_regions K mem)) (inp, mem))) = mem' \<and>
    lv_hosts L mem' = lv_hosts L mem \<and> k_regions K mem' = k_regions K mem \<and>
    ram_image L mem' = patch (region_start (lv_hosts L mem) j) (take (image_size (drop j (lv_hosts L mem))) inp) (ram_image L mem)"
  using assms(4-)
proof (induction "length (lv_hosts L mem) - j" arbitrary: j inp mem)
  case 0
  have "map snd (k_regions K mem) = map snd (lv_hosts L mem)" using assms(2) by (simp add: ram_laws_def)
  from map_eq_imp_length_eq [OF this] show ?case using 0 by (simp add: patch_def)
next
  case (Suc x)
  define rs where "rs = lv_hosts L mem"
  have j: "j < length rs" using Suc by (simp add: rs_def)
  have lens: "map snd (k_regions K mem) = map snd rs" using assms(2) by (simp add: ram_laws_def rs_def)
  note len = map_eq_imp_length_eq [OF lens]
  have sn: "snd (k_regions K mem ! j) = snd (rs ! j)" using lens j len by (metis nth_map)
  have dk: "drop j (k_regions K mem) = (fst (k_regions K mem ! j), snd (rs ! j)) # drop (Suc j) (k_regions K mem)"
    using j len sn by (metis Cons_nth_drop_Suc prod.collapse)
  define n where "n = unat (snd (rs ! j))"
  have dh: "image_size (drop j rs) = n + image_size (drop (Suc j) rs)"
    using j by (simp add: Cons_nth_drop_Suc [symmetric] n_def)
  have fits: "n + image_size (drop (Suc j) rs) \<le> length inp" using Suc.prems(2) dh by (simp add: rs_def)
  from load_region_image [OF assms(1-3), of j mem 0 inp] obtain mem1 where
    m1: "load_region E L (fst (k_regions K mem ! j)) (snd (rs ! j)) 0 (inp, mem) = (Inr (), (drop n inp, mem1))"
    "lv_hosts L mem1 = rs" "k_regions K mem1 = k_regions K mem"
    "ram_image L mem1 = patch (region_start rs j) (take n inp) (ram_image L mem)"
    using j fits unfolding rs_def [symmetric] n_def [symmetric] by auto
  have "\<exists>mem'. fst (load_regions E L (drop (Suc j) (k_regions K mem1)) (drop n inp, mem1)) = Inr () \<and>
    snd (snd (load_regions E L (drop (Suc j) (k_regions K mem1)) (drop n inp, mem1))) = mem' \<and>
    lv_hosts L mem' = lv_hosts L mem1 \<and> k_regions K mem' = k_regions K mem1 \<and>
    ram_image L mem' = patch (region_start (lv_hosts L mem1) (Suc j))
      (take (image_size (drop (Suc j) (lv_hosts L mem1))) (drop n inp)) (ram_image L mem1)"
    by (rule Suc.hyps(1)) (use Suc.hyps(2) j m1(2) fits in \<open>auto simp: rs_def\<close>)
  then obtain mem' where m': "fst (load_regions E L (drop (Suc j) (k_regions K mem)) (drop n inp, mem1)) = Inr ()"
    "snd (snd (load_regions E L (drop (Suc j) (k_regions K mem)) (drop n inp, mem1))) = mem'" "lv_hosts L mem' = rs" "k_regions K mem' = k_regions K mem"
    "ram_image L mem' = patch (region_start rs j + n) (take (image_size (drop (Suc j) rs)) (drop n inp))
      (patch (region_start rs j) (take n inp) (ram_image L mem))"
    using m1(2-4) region_start_Suc [OF j] by (auto simp: n_def)
  have "region_start rs j + image_size (drop j rs) = length (ram_image L mem)"
    by (simp add: length_ram_image rs_def region_start_def flip: sum_list_append map_append)
  then have "ram_image L mem' = patch (region_start rs j) (take n inp @ take (image_size (drop (Suc j) rs)) (drop n inp)) (ram_image L mem)"
    using m'(5) patch_patch [of "region_start rs j" "take n inp" "take (image_size (drop (Suc j) rs)) (drop n inp)" "ram_image L mem"] dh fits
    by simp
  also have "take n inp @ take (image_size (drop (Suc j) rs)) (drop n inp) = take (image_size (drop j rs)) inp"
    by (simp add: dh take_add)
  finally show ?case using m' m1(1) by (simp add: dk io_bind_def rs_def [symmetric])
qed

lemma load_guest_memory_image:
  assumes "no_faults L" "ram_laws E K L" "write_laws E K L" "fs path = Some bs" "length bs = image_size (lv_hosts L mem)"
  shows "\<exists>mem'. load_guest_memory E K L fs path mem = (Inr (), mem') \<and> lv_hosts L mem' = lv_hosts L mem \<and> ram_image L mem' = bs"
proof -
  obtain r inp mem' where ld: "load_regions E L (k_regions K mem) (bs, mem) = (r, (inp, mem'))" by (metis prod.collapse)
  with load_regions_image [OF assms(1-3), of 0 mem bs] have "r = Inr ()" "lv_hosts L mem' = lv_hosts L mem"
    "ram_image L mem' = patch 0 bs (ram_image L mem)"
    using assms(5) by (auto simp: region_start_def)
  then show ?thesis using ld assms(1,4,5) by (simp add: load_guest_memory_def patch_def length_ram_image)
qed

text \<open>A private mapping of a file shows the bytes of its slice, and guest memory made of mapped regions of \<open>n\<close>
  bytes in all has their contents in order.\<close>

definition map_laws ::
  "('q, 'm, 'e, 'f, 'v, 's) live_env \<Rightarrow> (bytes \<Rightarrow> u64 \<times> u64 \<times> u64 \<Rightarrow> string + 'r) \<Rightarrow> ('r list \<Rightarrow> string + 'm)
   \<Rightarrow> ('r \<Rightarrow> bytes) \<Rightarrow> nat \<Rightarrow> bool" where
  "map_laws L map_region from_regions content n \<longleftrightarrow>
     (\<forall>f gpa sz off. unat off + unat sz \<le> length f \<longrightarrow>
        (\<exists>r. map_region f (gpa, sz, off) = Inr r \<and> content r = slice (unat off) (unat sz) f)) \<and>
     (\<forall>rs. length (concat (map content rs)) = n \<longrightarrow>
        (\<exists>mem. from_regions rs = Inr mem \<and> ram_image L mem = concat (map content rs)))"

lemma cow_regions_content:
  assumes "map_laws L map_region from_regions content n" "unat off + image_size rs = length f" "length f < 2 ^ 64"
  shows "(\<forall>r \<in> set (map (map_region f) (cow_layout off rs)). is_ok r) \<and>
    concat (map content (map projr (map (map_region f) (cow_layout off rs)))) = drop (unat off) f"
  using assms(2)
proof (induction rs arbitrary: off)
  case (Cons r rs)
  obtain gpa sz where r: "r = (gpa, sz)" by (cases r)
  have le: "unat off + unat sz \<le> length f" using Cons.prems by (simp add: r)
  then have off: "unat (off + sz) = unat off + unat sz" using assms(3) by (simp add: unat_word_ariths)
  from assms(1) le obtain x where x: "map_region f (gpa, sz, off) = Inr x" "content x = slice (unat off) (unat sz) f"
    unfolding map_laws_def by blast
  have "slice (unat off) (unat sz) f @ drop (unat off + unat sz) f = drop (unat off) f"
    by (simp add: slice_def) (metis add.commute append_take_drop_id drop_drop)
  then show ?case using Cons.IH [of "off + sz"] Cons.prems x by (simp add: r off)
qed simp

lemma allocate_cow_image:
  assumes "map_laws L map_region from_regions content (length f)" "guest_ranges mib = Inr rs" "length f = image_size rs" "length f < 2 ^ 64"
  shows "\<exists>mem. allocate_cow_guest_memory (Inr f) map_region from_regions mib = Inr mem \<and> ram_image L mem = f"
proof -
  define xs where "xs = map (map_region f) (cow_layout 0 rs)"
  have c: "\<forall>r \<in> set xs. is_ok r" "concat (map content (map projr xs)) = f"
    using cow_regions_content [OF assms(1), of 0 rs f] assms(3,4) by (simp_all add: xs_def)
  have "find (\<lambda>r. \<not> is_ok r) xs = None" using c(1) by (auto simp: find_None_iff)
  moreover obtain mem where "from_regions (map projr xs) = Inr mem" "ram_image L mem = f"
    using assms(1) c(2) unfolding map_laws_def by metis
  ultimately show ?thesis using assms(2) by (simp add: allocate_cow_guest_memory_def Let_def xs_def)
qed


section \<open>A branch, step by step\<close>

lemma on_machine_Inr_iff: "on_machine f (m, fs) = (Inr x, s) \<longleftrightarrow> (\<exists>m'. f m = (Inr x, m') \<and> s = (m', fs))"
  by (auto simp: on_machine_def split: prod.splits)

lemma on_files_Inr_iff: "on_files f (m, fs) = (Inr x, s) \<longleftrightarrow> (\<exists>fs'. f m fs = (Inr x, fs') \<and> s = (m, fs'))"
  by (auto simp: on_files_def split: prod.splits)

lemma quiesce_runs:
  assumes "branch_laws K L kd dd lg" "quiesce_at_barrier E L True m = (Inr (), m')"
  shows "runs_to K L kd dd lg m m'"
proof -
  obtain n cs where "lv_park L n (m\<lparr> mc_device_captures := cs \<rparr>) = (True, m')"
    using assms(2) by (auto simp: quiesce_at_barrier_def Let_def split: if_splits sum.splits prod.splits bool.splits)
  then have "runs_to K L kd dd lg (m\<lparr> mc_device_captures := cs \<rparr>) m'"
    using assms(1) unfolding branch_laws_def by (metis snd_conv)
  then show ?thesis
    by (simp add: runs_to_def all_logged_def tracks_def page_view_def marked_def Let_def)
qed

lemma release_runs:
  assumes "branch_laws K L kd dd lg" "release_barrier L m = (Inr (), m')"
  shows "runs_to K L kd dd lg m m'"
proof -
  have "snd (lv_resume L 5 m) = m'" using assms(2) by (auto simp: release_barrier_def split: prod.splits bool.splits)
  then show ?thesis using assms(1) unfolding branch_laws_def by metis
qed

lemma capture_parked_keeps:
  assumes "capture_parked K m = (r, m')"
  shows "mc_mem m' = mc_mem m" "mc_vm m' = mc_vm m" "mc_config m' = mc_config m"
  using assms
  by (auto simp: capture_parked_def io_bind_def collect_vcpu_states_def collect_device_states_def
      split: prod.splits sum.splits)

lemma set_slots_logged:
  assumes laws: "branch_laws K L kd dd lg"
    and "set_slots K KVM_MEM_LOG_DIRTY_PAGES (of_nat j) rs v = (Inr (), v')" "j + length rs < 2 ^ 32"
  shows "(\<forall>i < j. lg v (of_nat i) \<longrightarrow> lg v' (of_nat i)) \<and> (\<forall>i. j \<le> i \<longrightarrow> i < j + length rs \<longrightarrow> lg v' (of_nat i))"
  using assms(2-)
proof (induction rs arbitrary: j v)
  case (Cons r rs)
  obtain start len where r: "r = (start, len)" by (cases r)
  obtain v1 where v1: "k_set_user_memory_region K \<lparr> ms_slot = of_nat j, ms_guest_phys_addr = start, ms_memory_size = len,
      ms_flags = KVM_MEM_LOG_DIRTY_PAGES \<rparr> v = Inr v1"
    and rest: "set_slots K KVM_MEM_LOG_DIRTY_PAGES (of_nat (Suc j)) rs v1 = (Inr (), v')"
    using Cons.prems(1) by (auto simp: r add.commute split: sum.splits)
  have "(ms_flags s = KVM_MEM_LOG_DIRTY_PAGES \<longrightarrow> lg w' (ms_slot s)) \<and> (\<forall>t. t \<noteq> ms_slot s \<longrightarrow> lg w' t = lg w t)"
    if "k_set_user_memory_region K s w = Inr w'" for s w w' using laws that unfolding branch_laws_def by blast
  from this [OF v1] have lg1: "lg v1 (of_nat j)" "\<And>t. t \<noteq> of_nat j \<Longrightarrow> lg v1 t = lg v t" by simp_all
  have ne: "(of_nat i :: u32) \<noteq> of_nat j" if "i < j" for i
    using that Cons.prems(2) by (simp add: word_unat_eq_iff unat_of_nat)
  have IH: "(\<forall>i < Suc j. lg v1 (of_nat i) \<longrightarrow> lg v' (of_nat i)) \<and> (\<forall>i. Suc j \<le> i \<longrightarrow> i < Suc j + length rs \<longrightarrow> lg v' (of_nat i))"
    by (rule Cons.IH [OF rest]) (use Cons.prems(2) in simp)
  have "lg v' (of_nat i)" if "j \<le> i" "i < j + length (r # rs)" for i
    using IH lg1(1) that by (cases "i = j") auto
  moreover have "lg v' (of_nat i)" if "i < j" "lg v (of_nat i)" for i
    using IH lg1(2) [OF ne] that by simp
  ultimately show ?case by blast
qed simp

lemma arm_logging_logged:
  assumes "branch_laws K L kd dd lg" "ram_laws E K L" "regions_ok (lv_hosts L (mc_mem m))" "arm_logging K L m = (Inr (), m')"
  shows "all_logged lg L m'" "lv_hosts L (mc_mem m') = lv_hosts L (mc_mem m)" "mc_config m' = mc_config m"
proof -
  obtain v ds m1 where v: "set_slots K KVM_MEM_LOG_DIRTY_PAGES (of_nat 0) (k_regions K (mc_mem m)) (mc_vm m) = (Inr (), v)"
    and col: "collect_dirty_pages K L (m\<lparr> mc_vm := v \<rparr>) = (Inr ds, m')"
    using assms(4)
    by (auto simp: arm_logging_def set_dirty_logging_def io_bind_def io_return_def split: sum.splits prod.splits)
  have "map snd (k_regions K (mc_mem m)) = map snd (lv_hosts L (mc_mem m))" using assms(2) by (simp add: ram_laws_def)
  from map_eq_imp_length_eq [OF this] have len: "length (k_regions K (mc_mem m)) = length (lv_hosts L (mc_mem m))" .
  have n: "length (lv_hosts L (mc_mem m)) < 2 ^ 32" using assms(3) by (simp add: regions_ok_def)
  have lg: "lg v (of_nat i)" if "i < length (lv_hosts L (mc_mem m))" for i
    using set_slots_logged [OF assms(1) v] that len n by simp
  have "same_ram K L lg (m\<lparr> mc_vm := v \<rparr>) m'"
    using collect_slots_pages [OF assms(1), of "[]" 0 "lv_hosts L (mc_mem m)" "m\<lparr> mc_vm := v \<rparr>" ds m'] col n
    by (simp add: collect_dirty_pages_def)
  then show "all_logged lg L m'" "lv_hosts L (mc_mem m') = lv_hosts L (mc_mem m)" "mc_config m' = mc_config m"
    using lg by (simp_all add: same_ram_def all_logged_def)
qed


lemma branch_finish_InrE:
  assumes "branch_finish E K L dir copied (m, fs) = (Inr out, (m', fs'))"
  obtains m1 st m2 ds m3 n fs1 m4 man where "quiesce_at_barrier E L True m = (Inr (), m1)"
    "capture_parked K m1 = (Inr st, m2)" "collect_dirty_pages K L m2 = (Inr ds, m3)"
    "recopy_branch_pages L (join_path dir MEMORY_FILE) (mc_mem m3) ds fs = (Inr n, fs1)"
    "release_barrier L (snd (set_dirty_logging K False m3)) = (Inr (), m4)"
    "finish_snapshot K L dir (mc_config m4) st fs1 = (Inr man, fs')" "bo_manifest out = man"
proof -
  obtain m1 where q: "quiesce_at_barrier E L True m = (Inr (), m1)"
    and body: "(case capture_and_recopy K L (join_path dir MEMORY_FILE) (m1, fs) of (finished, s1) \<Rightarrow>
       case on_machine (\<lambda>m. release_barrier L (snd (set_dirty_logging K False m))) s1 of (released, s2) \<Rightarrow>
       case finished of
         Inl e \<Rightarrow> (Inl e, s2)
       | Inr (st, recopied) \<Rightarrow>
           (case released of
              Inl e \<Rightarrow> (Inl e, s2)
            | Inr _ \<Rightarrow>
                io_bind (on_files (\<lambda>m. finish_snapshot K L dir (mc_config m) st)) (\<lambda>man.
                io_return \<lparr> bo_manifest = man, bo_copied = copied, bo_recopied = recopied \<rparr>) s2)) = (Inr out, (m', fs'))"
    using assms unfolding branch_finish_def by (elim io_bind_unitE) (auto simp: on_machine_Inr_iff)
  obtain fin s1 where c: "capture_and_recopy K L (join_path dir MEMORY_FILE) (m1, fs) = (fin, s1)" by (metis surj_pair)
  obtain rel s2 where r: "on_machine (\<lambda>m. release_barrier L (snd (set_dirty_logging K False m))) s1 = (rel, s2)" by (metis surj_pair)
  obtain st n where fin: "fin = Inr (st, n)" using body c r by (cases fin) auto
  have rel: "rel = Inr ()" using body c r fin by (cases rel) auto
  obtain m2 ds m3 fs1 where s: "capture_parked K m1 = (Inr st, m2)" "collect_dirty_pages K L m2 = (Inr ds, m3)"
    "recopy_branch_pages L (join_path dir MEMORY_FILE) (mc_mem m3) ds fs = (Inr n, fs1)" "s1 = (m3, fs1)"
    using c unfolding fin capture_and_recopy_def io_bind_Inr_iff
    by (auto simp: on_machine_Inr_iff on_files_Inr_iff io_return_def)
  obtain m4 where m4: "release_barrier L (snd (set_dirty_logging K False m3)) = (Inr (), m4)" "s2 = (m4, fs1)"
    using r unfolding rel s(4) by (auto simp: on_machine_Inr_iff)
  obtain man where "finish_snapshot K L dir (mc_config m4) st fs1 = (Inr man, fs')" "bo_manifest out = man"
    using body c r fin rel m4(2) by (auto simp: io_bind_Inr_iff on_files_Inr_iff io_return_def)
  then show thesis using that q s m4(1) by blast
qed

lemma branch_InrE:
  assumes "branch E K L dir (m, fs) = (Inr out, (m', fs'))"
  obtains a b c copied d fs1 where "quiesce_at_barrier E L True m = (Inr (), a)" "arm_logging K L a = (Inr (), b)"
    "release_barrier L b = (Inr (), c)"
    "write_branch_image L (lv_hosts L (mc_mem m)) (join_path dir MEMORY_FILE) (c, fs) = (Inr copied, (d, fs1))"
    "branch_finish E K L dir copied (d, fs1) = (Inr out, (m', fs'))"
proof -
  define rest where "rest s1 = io_bind (on_machine (release_barrier L)) (\<lambda>_ s2.
             case write_branch_image L (lv_hosts L (mc_mem m)) (join_path dir MEMORY_FILE) s2 of
               (Inl e, s3) \<Rightarrow>
                 io_bind (on_machine (quiesce_at_barrier E L True))
                   (\<lambda>_ s4. (Inl e, (disarm K L (fst s4), snd s4))) s3
             | (Inr copied, s3) \<Rightarrow> branch_finish E K L dir copied s3) s1" for s1
  obtain a where a: "quiesce_at_barrier E L True m = (Inr (), a)"
    and arm: "(case on_machine (arm_logging K L) (a, fs) of
         (Inl e, s1) \<Rightarrow> (Inl e, (disarm K L (fst s1), snd s1)) | (Inr _, s1) \<Rightarrow> rest s1) = (Inr out, (m', fs'))"
    using assms unfolding branch_def fst_conv rest_def [symmetric]
    by (elim io_bind_unitE) (auto simp: on_machine_Inr_iff on_files_Inr_iff)
  obtain b where b: "arm_logging K L a = (Inr (), b)" "rest (b, fs) = (Inr out, (m', fs'))"
    using arm by (cases "arm_logging K L a") (auto simp: on_machine_def split: sum.splits)
  obtain c where c: "release_barrier L b = (Inr (), c)"
    and img: "(case write_branch_image L (lv_hosts L (mc_mem m)) (join_path dir MEMORY_FILE) (c, fs) of
               (Inl e, s3) \<Rightarrow>
                 io_bind (on_machine (quiesce_at_barrier E L True))
                   (\<lambda>_ s4. (Inl e, (disarm K L (fst s4), snd s4))) s3
             | (Inr copied, s3) \<Rightarrow> branch_finish E K L dir copied s3) = (Inr out, (m', fs'))"
    using b(2) unfolding rest_def by (elim io_bind_unitE) (auto simp: on_machine_Inr_iff)
  obtain r d fs1 where w: "write_branch_image L (lv_hosts L (mc_mem m)) (join_path dir MEMORY_FILE) (c, fs) = (r, (d, fs1))"
    by (metis prod.collapse)
  obtain copied where "r = Inr copied" "branch_finish E K L dir copied (d, fs1) = (Inr out, (m', fs'))"
    using img unfolding w by (cases r) (auto simp: io_bind_Inr_iff)
  then show thesis using that a b(1) c w by simp
qed

lemma image_upto_same:
  "image_upto kd dd L n m f \<Longrightarrow> mc_mem m' = mc_mem m \<Longrightarrow> mc_vm m' = mc_vm m \<Longrightarrow> image_upto kd dd L n m' f"
  by (simp add: image_upto_def stale_ok_def marked_def)

text \<open>What a branch has written when it reaches the metadata: guest RAM as it was when everyone was parked for the
  second time.\<close>

lemma branch_image:
  assumes laws: "branch_laws K L kd dd lg" and ram: "ram_laws E K L" and ok: "regions_ok (lv_hosts L (mc_mem m))"
    and br: "branch E K L dir (m, fs) = (Inr out, (m', fs'))"
  obtains m1 m2 st m3 where "quiesce_at_barrier E L True m1 = (Inr (), m2)" "capture_parked K m2 = (Inr st, m3)"
    "finish_snapshot K L dir (mc_config m) st (fs(join_path dir MEMORY_FILE \<mapsto> ram_image L (mc_mem m2))) =
       (Inr (bo_manifest out), fs')"
proof -
  obtain a b c copied d fs1 where B: "quiesce_at_barrier E L True m = (Inr (), a)" "arm_logging K L a = (Inr (), b)"
    "release_barrier L b = (Inr (), c)"
    "write_branch_image L (lv_hosts L (mc_mem m)) (join_path dir MEMORY_FILE) (c, fs) = (Inr copied, (d, fs1))"
    "branch_finish E K L dir copied (d, fs1) = (Inr out, (m', fs'))" using branch_InrE [OF br] by metis
  obtain m1 st m2 ds m3 n fs2 m4 man where F: "quiesce_at_barrier E L True d = (Inr (), m1)"
    "capture_parked K m1 = (Inr st, m2)" "collect_dirty_pages K L m2 = (Inr ds, m3)"
    "recopy_branch_pages L (join_path dir MEMORY_FILE) (mc_mem m3) ds fs1 = (Inr n, fs2)"
    "release_barrier L (snd (set_dirty_logging K False m3)) = (Inr (), m4)"
    "finish_snapshot K L dir (mc_config m4) st fs2 = (Inr man, fs')" "bo_manifest out = man"
    using branch_finish_InrE [OF B(5)] by metis
  have ra: "runs_to K L kd dd lg m a" by (rule quiesce_runs [OF laws B(1)])
  then have ha: "lv_hosts L (mc_mem a) = lv_hosts L (mc_mem m)" "mc_config a = mc_config m" by (simp_all add: runs_to_def)
  note arm = arm_logging_logged [OF laws ram _ B(2), unfolded ha, OF ok]
  have rc: "runs_to K L kd dd lg b c" by (rule release_runs [OF laws B(3)])
  then have hc: "lv_hosts L (mc_mem c) = lv_hosts L (mc_mem m)" "all_logged lg L c" "mc_config c = mc_config m"
    using arm runs_to_logged [OF rc] by (simp_all add: runs_to_def)
  have live: "runs_to K L kd dd lg x (lv_live L x)" for x using laws by (simp add: branch_laws_def)
  have rd: "runs_to K L kd dd lg c d" and "\<exists>f. fs1 = fs(join_path dir MEMORY_FILE \<mapsto> f) \<and>
      image_upto kd dd L (image_size (lv_hosts L (mc_mem d))) d f"
    using write_branch_image_upto [OF live B(4) [folded hc(1)] hc(2)] ok hc(1) by simp_all
  then obtain f where f: "fs1 = fs(join_path dir MEMORY_FILE \<mapsto> f)" "image_upto kd dd L (image_size (lv_hosts L (mc_mem d))) d f"
    by blast
  have hd: "lv_hosts L (mc_mem d) = lv_hosts L (mc_mem m)" "all_logged lg L d" "mc_config d = mc_config m"
    using rd hc runs_to_logged [OF rd] by (simp_all add: runs_to_def)
  have r1: "runs_to K L kd dd lg d m1" by (rule quiesce_runs [OF laws F(1)])
  then have h1: "lv_hosts L (mc_mem m1) = lv_hosts L (mc_mem m)" "mc_config m1 = mc_config m" using hd by (simp_all add: runs_to_def)
  have "image_upto kd dd L (image_size (lv_hosts L (mc_mem m1))) m1 f"
    using image_upto_runs [OF f(2) r1 hd(2)] ok by (simp add: hd(1) h1)
  then have up: "image_upto kd dd L (image_size (lv_hosts L (mc_mem m2))) m2 f"
    using image_upto_same capture_parked_keeps [OF F(2)] by metis
  have h2: "lv_hosts L (mc_mem m2) = lv_hosts L (mc_mem m)" using h1 capture_parked_keeps [OF F(2)] by simp
  have fs2: "fs2 = fs1(join_path dir MEMORY_FILE \<mapsto> ram_image L (mc_mem m2))" and sr: "same_ram K L lg m2 m3"
    using recopy_completes [OF laws _ F(3) F(4) _ up] ok f(1) by (simp_all add: h2)
  have "mc_config (snd (set_dirty_logging K False m3)) = mc_config m3" by (simp add: set_dirty_logging_def split: prod.splits)
  then have "mc_config m4 = mc_config m"
    using release_runs [OF laws F(5)] sr h1(2) capture_parked_keeps [OF F(2)] by (simp add: runs_to_def same_ram_def)
  then have "finish_snapshot K L dir (mc_config m) st (fs(join_path dir MEMORY_FILE \<mapsto> ram_image L (mc_mem m1))) =
       (Inr (bo_manifest out), fs')"
    using F(6,7) fs2 f(1) capture_parked_keeps [OF F(2)] by simp
  then show thesis using that F(1,2) by blast
qed

text \<open>The same environment with a host whose files never fail.\<close>

abbreviation faultless :: "('q, 'm, 'e, 'f, 'v, 's) live_env \<Rightarrow> ('q, 'm, 'e, 'f, 'v, 's) live_env" where
  "faultless L \<equiv> L\<lparr> lv_fault := \<lambda>_ _. None \<rparr>"

lemma capture_and_dump_parked:
  assumes "ram_laws E K L" "capture_parked K m = (Inr st, m')"
  shows "capture_and_dump E K (faultless L) dir (m, fs) =
    (Inr st, (m', fs(join_path dir MEMORY_FILE \<mapsto> ram_image L (mc_mem m))))"
proof -
  have hb: "host_bytes (faultless L) = host_bytes L" by (intro ext) (simp add: host_bytes_def)
  have img: "ram_image (faultless L) = ram_image L" by (intro ext) (simp add: ram_image_def hb)
  have "ram_laws E K (faultless L)" using assms(1) by (simp add: ram_laws_def hb)
  then have "dump_guest_memory E K (faultless L) path mem fs = (Inr (), fs(path \<mapsto> ram_image L mem))" for path mem
    using dump_guest_memory_image [of "faultless L" E K path mem fs] by (simp add: no_faults_def img)
  then show ?thesis
    using assms(2) capture_parked_keeps [OF assms(2)]
    by (simp add: capture_and_dump_def io_bind_def io_return_def on_machine_def on_files_def)
qed


section \<open>The directory of a snapshot\<close>

text \<open>Decoding what was encoded gives it back.\<close>

definition codec_laws :: "('q, 'm, 'e, 'f, 'v, 's) live_env \<Rightarrow> bool" where
  "codec_laws L \<longleftrightarrow>
     (\<forall>st b. lv_state_to_bytes L st = Inr b \<longrightarrow> lv_state_from_bytes L b = Inr st) \<and>
     (\<forall>man b. lv_manifest_to_json L man = Inr b \<longrightarrow> lv_manifest_from_json L b = Inr man)"

lemma join_path_inj [simp]: "join_path dir a = join_path dir b \<longleftrightarrow> a = b"
  by (simp add: join_path_def)

lemma finish_snapshot_files:
  assumes "finish_snapshot K L dir config st fs = (Inr man, fs')" "codec_laws L"
  shows "load_manifest L fs' dir = Inr man" "load_state L fs' dir man = Inr st" "sm_memory_file man = MEMORY_FILE"
    "fs' (join_path dir MEMORY_FILE) = fs (join_path dir MEMORY_FILE)" "verify_host K (sm_host man) = Inr ()"
    "sm_memory_mib man = memory_mib config" "sm_vcpu_count man = vcpus config"
proof -
  obtain h sb mb where c: "cpuid_hash K = Inr h" "man = full_manifest config h st" "lv_state_to_bytes L st = Inr sb"
    "lv_manifest_to_json L man = Inr mb"
    "fs' = fs(join_path dir STATE_FILE \<mapsto> sb, join_path dir MANIFEST_FILE \<mapsto> mb)"
    using assms(1)
    by (auto simp: finish_snapshot_def write_snapshot_metadata_def io_bind_def io_return_def Let_def
        split: sum.splits prod.splits)
  then show "load_manifest L fs' dir = Inr man" "load_state L fs' dir man = Inr st" "sm_memory_file man = MEMORY_FILE"
    "fs' (join_path dir MEMORY_FILE) = fs (join_path dir MEMORY_FILE)" "verify_host K (sm_host man) = Inr ()"
    "sm_memory_mib man = memory_mib config" "sm_vcpu_count man = vcpus config"
    using assms(2)
    by (auto simp: load_manifest_def load_state_def codec_laws_def full_manifest_def MEMORY_FILE_def STATE_FILE_def
        MANIFEST_FILE_def verify_host_def check_restore_onto_def)
qed

lemma snapshot_in_place_InrE:
  assumes "snapshot_in_place E K L dir (m, fs) = (Inr man, (m', fs'))"
  obtains m1 st m2 fs1 m3 where "quiesce_at_barrier E L True m = (Inr (), m1)"
    "capture_and_dump E K L dir (m1, fs) = (Inr st, (m2, fs1))" "release_barrier L m2 = (Inr (), m3)"
    "finish_snapshot K L dir (mc_config m3) st fs1 = (Inr man, fs')"
proof -
  obtain m1 where q: "quiesce_at_barrier E L True m = (Inr (), m1)"
    and body: "(case capture_and_dump E K L dir (m1, fs) of (captured, s1) \<Rightarrow>
       case on_machine (release_barrier L) s1 of (released, s2) \<Rightarrow>
       case captured of
         Inl e \<Rightarrow> (Inl e, s2)
       | Inr st \<Rightarrow>
           (case released of
              Inl e \<Rightarrow> (Inl e, s2)
            | Inr _ \<Rightarrow> on_files (\<lambda>m. finish_snapshot K L dir (mc_config m) st) s2)) = (Inr man, (m', fs'))"
    using assms unfolding snapshot_in_place_def
    by (elim io_bind_unitE) (auto simp: on_machine_Inr_iff on_files_Inr_iff)
  obtain cap m2 fs1 where c: "capture_and_dump E K L dir (m1, fs) = (cap, (m2, fs1))" by (metis surj_pair)
  obtain rel m3 where r: "release_barrier L m2 = (rel, m3)" by (metis surj_pair)
  obtain st where st: "cap = Inr st" using body c r by (cases cap) (auto simp: on_machine_def)
  have rel: "rel = Inr ()" using body c r st by (cases rel) (auto simp: on_machine_def)
  have "finish_snapshot K L dir (mc_config m3) st fs1 = (Inr man, fs')"
    using body c r st rel by (auto simp: on_machine_def on_files_def split: prod.splits)
  then show thesis using that q c r st rel by blast
qed

lemma capture_and_dump_InrE:
  assumes "capture_and_dump E K L dir (m, fs) = (Inr st, (m', fs'))" "no_faults L" "ram_laws E K L"
  shows "capture_parked K m = (Inr st, m')" "fs' = fs(join_path dir MEMORY_FILE \<mapsto> ram_image L (mc_mem m))"
proof -
  have *: "capture_parked K m = (Inr st, m')"
    "dump_guest_memory E K L (join_path dir MEMORY_FILE) (mc_mem m') fs = (Inr (), fs')"
    using assms(1) unfolding capture_and_dump_def io_bind_Inr_iff
    by (auto simp: on_machine_Inr_iff on_files_Inr_iff io_return_def)
  then show "capture_parked K m = (Inr st, m')" "fs' = fs(join_path dir MEMORY_FILE \<mapsto> ram_image L (mc_mem m))"
    using dump_guest_memory_image [OF assms(2,3)] capture_parked_keeps [OF *(1)] by simp_all
qed


section \<open>A guest to branch\<close>

text \<open>One mebibyte of RAM at address 0, mapped at host address 0; the guest keeps counting in byte 5 and its device
  bitmap marks the first page.\<close>

definition ram_env :: "(ringq, page, nat) venv" where
  "ram_env = low_env\<lparr>
     m_read := (\<lambda>m a n. if unat a + n \<le> 0x100000 then Inr (page_read m a n) else Inl ''invalid guest address''),
     m_write := (\<lambda>m a bs. if unat a + length bs \<le> 0x100000 then Inr (page_write m a bs)
                           else Inl ''invalid guest address'') \<rparr>"

definition ram_kvm :: "(page, nat, VcpuState, unit) kvm_env" where
  "ram_kvm = demo_kvm\<lparr> k_regions := \<lambda>_. [(0, 0x100000)] \<rparr>"

definition busy_state :: VmState where
  "busy_state = \<lparr> vm_vcpus = [zero_vcpu], vm_devices = [], vm_clock = [],
     vm_irqchip = \<lparr> ic_pic_master = [], ic_pic_slave = [], ic_ioapic = [], ic_pit = [] \<rparr> \<rparr>"

definition busy_manifest :: SnapshotManifest where
  "busy_manifest = full_manifest demo_config (leaves_hash []) busy_state"

definition tick :: "(ringq, page, nat, VcpuState, unit, nat) Machine \<Rightarrow> (ringq, page, nat, VcpuState, unit, nat) Machine" where
  "tick m = m\<lparr> mc_mem := (mc_mem m)(5 := mc_mem m 5 + 1) \<rparr>"

definition busy_env :: "(ringq, page, nat, VcpuState, unit, nat) live_env" where
  "busy_env =
     \<lparr> lv_park = (\<lambda>_ m. (True, (tick m)\<lparr> mc_vcpu_states := [Some zero_vcpu] \<rparr>)), lv_resume = (\<lambda>_ m. (True, tick m)),
       lv_live = tick, lv_join = (\<lambda>m. ([], m)), lv_polls = (\<lambda>_ m. [m]), lv_hosts = (\<lambda>_. [(0, 0x100000)]),
       lv_byte = (\<lambda>m h. m h), lv_bitmap = (\<lambda>_ m. ([1], m)), lv_fault = (\<lambda>_ _. None),
       lv_state_to_bytes = (\<lambda>st. if st = busy_state then Inr [1] else Inl ''encode''),
       lv_state_from_bytes = (\<lambda>_. Inr busy_state),
       lv_manifest_to_json = (\<lambda>man. if man = busy_manifest then Inr [2] else Inl ''encode''),
       lv_manifest_from_json = (\<lambda>_. Inr busy_manifest) \<rparr>"

definition busy_machine :: "(ringq, page, nat, VcpuState, unit, nat) Machine" where
  "busy_machine = demo_machine\<lparr> mc_vcpu_states := [None] \<rparr>"

lemmas busy_defs = busy_env_def ram_kvm_def ram_env_def busy_machine_def busy_manifest_def busy_state_def tick_def

lemma busy_hosts: "lv_hosts busy_env mem = [(0, 0x100000)]"
  by (simp add: busy_env_def)

lemma busy_image: "ram_image busy_env mem = host_bytes busy_env mem 0 0x100000"
  by (simp add: ram_image_def busy_hosts)

lemma busy_page_read: "host_bytes busy_env mem h n = page_read mem h n"
  by (simp add: host_bytes_def page_read_def busy_env_def)

lemma busy_laws:
  "no_faults busy_env" "codec_laws busy_env" "ram_laws ram_env ram_kvm busy_env"
  "regions_ok (lv_hosts busy_env mem)"
proof -
  show "no_faults busy_env" "codec_laws busy_env" by (auto simp: no_faults_def codec_laws_def busy_env_def)
  have "lv_hosts busy_env = (\<lambda>_. [(0, 0x100000)])" by (simp add: busy_env_def)
  then show "ram_laws ram_env ram_kvm busy_env" "regions_ok (lv_hosts busy_env mem)"
    by (simp_all add: ram_laws_def regions_ok_def busy_page_read ram_kvm_def ram_env_def BRANCH_PAGE_SIZE_def)
qed

lemma busy_write_laws: "write_laws ram_env ram_kvm busy_env"
proof -
  have h: "lv_hosts busy_env = (\<lambda>_. [(0, 0x100000)])" "k_regions ram_kvm = (\<lambda>_. [(0, 0x100000)])"
    by (simp_all add: busy_env_def ram_kvm_def)
  have "host_bytes busy_env (page_write mem off bs) 0 0x100000 = patch (unat off) bs (host_bytes busy_env mem 0 0x100000)"
    if "unat off + length bs \<le> 0x100000" for mem off and bs :: bytes
  proof (rule nth_equalityI)
    fix k assume "k < length (host_bytes busy_env (page_write mem off bs) 0 0x100000)"
    then have k: "k < 0x100000" by simp
    then have u: "unat (of_nat k :: u64) = k" by (simp add: unat_of_nat)
    have "off \<le> of_nat k \<Longrightarrow> unat (of_nat k - off) = k - unat off" by (simp add: unat_sub u)
    then show "host_bytes busy_env (page_write mem off bs) 0 0x100000 ! k = patch (unat off) bs (host_bytes busy_env mem 0 0x100000) ! k"
      using k that u by (simp add: nth_patch) (auto simp: busy_env_def page_write_def word_le_nat_alt)
  qed (use that in simp)
  then show ?thesis by (simp add: write_laws_def h region_start_def ram_env_def busy_image)
qed

lemma busy_branch_laws:
  "branch_laws ram_kvm busy_env (\<lambda>_ _ _. False) (\<lambda>_ i p. i = 0 \<and> p = 0) (\<lambda>_ _. True)"
proof -
  have p0: "p = 0" if "of_nat (p * BRANCH_PAGE_SIZE) + of_nat i = (5 :: u64)" "i < BRANCH_PAGE_SIZE" "p * BRANCH_PAGE_SIZE < 0x100000" for p i
  proof -
    have "unat (of_nat (p * BRANCH_PAGE_SIZE + i) :: u64) = p * BRANCH_PAGE_SIZE + i"
      using that by (simp add: unat_of_nat BRANCH_PAGE_SIZE_def del: of_nat_add of_nat_mult)
    moreover have "unat (5 :: u64) = 5" by simp
    ultimately have "5 = p * BRANCH_PAGE_SIZE + i" using that(1) by (simp del: of_nat_mult flip: of_nat_add)
    then show ?thesis by (cases p) (simp_all add: BRANCH_PAGE_SIZE_def)
  qed
  have "page_view busy_env (tick m) (i, p) = page_view busy_env m (i, p) \<or> i = 0 \<and> p = 0" for m i p
    by (auto simp: page_view_def busy_env_def host_bytes_def tick_def Let_def simp del: of_nat_mult split: if_splits dest!: p0)
  then have "tracks (page_view busy_env) (marked (\<lambda>_ _ _. False) (\<lambda>_ i p. i = 0 \<and> p = 0)) m (tick m)" for m
    unfolding tracks_def marked_def by (metis (mono_tags, lifting) case_prod_conv surj_pair)
  moreover have "mc_config (tick m) = mc_config m" for m by (simp add: tick_def)
  moreover have "lv_hosts busy_env x = lv_hosts busy_env y" "k_regions ram_kvm x = k_regions ram_kvm y" for x y
    by (simp_all add: busy_env_def ram_kvm_def)
  ultimately have "runs_to ram_kvm busy_env (\<lambda>_ _ _. False) (\<lambda>_ i p. i = 0 \<and> p = 0) (\<lambda>_ _. True) m (tick m)" for m
    unfolding runs_to_def by blast
  moreover have "runs_to ram_kvm busy_env (\<lambda>_ _ _. False) (\<lambda>_ i p. i = 0 \<and> p = 0) (\<lambda>_ _. True) m (n\<lparr> mc_vcpu_states := x \<rparr>) =
      runs_to ram_kvm busy_env (\<lambda>_ _ _. False) (\<lambda>_ i p. i = 0 \<and> p = 0) (\<lambda>_ _. True) m n" for m n x
    by (simp add: runs_to_def tracks_def page_view_def marked_def all_logged_def Let_def)
  moreover have "lv_live busy_env = tick" "lv_resume busy_env = (\<lambda>_ m. (True, tick m))"
    "lv_park busy_env = (\<lambda>_ m. (True, (tick m)\<lparr> mc_vcpu_states := [Some zero_vcpu] \<rparr>))" "lv_bitmap busy_env = (\<lambda>_ m. ([1], m))"
    by (simp_all add: busy_env_def)
  moreover have "k_get_dirty_log ram_kvm = (\<lambda>_ _ v. Inr ([], v))" by (simp add: ram_kvm_def demo_kvm_def)
  moreover have "word_has [1] 0" by (simp add: word_has_def get_word_def)
  ultimately show ?thesis unfolding branch_laws_def by simp
qed


lemma busy_sel [simp]:
  "lv_live busy_env = tick" "lv_resume busy_env = (\<lambda>_ m. (True, tick m))"
  "lv_park busy_env = (\<lambda>_ m. (True, (tick m)\<lparr> mc_vcpu_states := [Some zero_vcpu] \<rparr>))"
  "lv_bitmap busy_env = (\<lambda>_ m. ([1], m))" "lv_hosts busy_env = (\<lambda>_. [(0, 0x100000)])"
  "lv_state_to_bytes busy_env busy_state = Inr [1]" "lv_manifest_to_json busy_env busy_manifest = Inr [2]"
  "k_get_dirty_log ram_kvm = (\<lambda>_ _ v. Inr ([], v))" "k_regions ram_kvm = (\<lambda>_. [(0, 0x100000)])"
  "k_set_user_memory_region ram_kvm = (\<lambda>_. Inr)" "k_get_clock ram_kvm v = Inr []" "k_get_irqchip ram_kvm c v = Inr []"
  "k_get_pit2 ram_kvm v = Inr []" "k_supported_cpuid ram_kvm = Inr []" "try_io busy_env opn n = Inr ()"
  by (simp_all add: busy_env_def ram_kvm_def demo_kvm_def try_io_def)

text \<open>Machines that differ from the busy one in RAM and captures only.\<close>

definition busy_like :: "(ringq, page, nat, VcpuState, unit, nat) Machine \<Rightarrow> bool" where
  "busy_like m \<longleftrightarrow> mc_vcpu_states m \<noteq> [] \<and> mc_device_captures m = [] \<and> mc_config m = demo_config"

lemma busy_like_machine: "busy_like busy_machine"
  by (simp add: busy_like_def busy_machine_def demo_machine_def)

lemma busy_quiesce:
  "busy_like m \<Longrightarrow> quiesce_at_barrier ram_env busy_env True m = (Inr (), (tick m)\<lparr> mc_vcpu_states := [Some zero_vcpu] \<rparr>)"
  by (cases m) (simp add: quiesce_at_barrier_def busy_like_def Let_def)

lemma busy_capture:
  "busy_like m \<Longrightarrow> mc_vcpu_states m = [Some zero_vcpu] \<Longrightarrow> capture_parked ram_kvm m = (Inr busy_state, m\<lparr> mc_vcpu_states := [None] \<rparr>)"
  by (simp add: capture_parked_def io_bind_def collect_vcpu_states_def collect_device_states_def busy_like_def device_states_def
      capture_clock_def capture_irqchip_def kvm_err_def busy_state_def)

lemma busy_collect: "collect_dirty_pages ram_kvm busy_env m = (Inr [\<lparr> dp_host_addr = 0, dp_file_offset = 0 \<rparr>], m)"
proof -
  have "region_pages 0 0 0x100000 [] [1] = [\<lparr> dp_host_addr = 0, dp_file_offset = 0 \<rparr>]"
    by (simp add: region_pages_def word_pages_def get_word_def BRANCH_PAGE_SIZE_def upt_rec)
  then show ?thesis by (simp add: collect_dirty_pages_def io_bind_def io_return_def)
qed

lemma busy_live_read: "\<exists>bs mem. live_read busy_env h n m = (bs, m\<lparr> mc_mem := mem \<rparr>) \<and> length bs = n"
proof (induction n arbitrary: h m)
  case 0
  show ?case by (rule exI [of _ "[]"], rule exI [of _ "mc_mem m"]) simp
next
  case (Suc n)
  obtain bs mem where "live_read busy_env (h + 1) n (tick m) = (bs, (tick m)\<lparr> mc_mem := mem \<rparr>)" "length bs = n"
    using Suc.IH by blast
  then have "live_read busy_env h (Suc n) m = (lv_byte busy_env (mc_mem (tick m)) h # bs, m\<lparr> mc_mem := mem \<rparr>)"
    by (simp add: tick_def)
  then show ?case using \<open>length bs = n\<close> by (metis length_Cons)
qed

lemma host_bytes_eq_Nil: "host_bytes L mem h n = [] \<longleftrightarrow> n = 0"
  by (simp add: host_bytes_def)

lemma busy_put: "bs \<noteq> [] \<Longrightarrow> unat off + length bs < 2 ^ 63 \<Longrightarrow> \<exists>f. put_at busy_env path off bs fs = (Inr (), fs(path \<mapsto> f))"
  by (cases "fs path") (auto simp: put_at_def write_all_at_def)

lemma busy_finish:
  "finish_snapshot ram_kvm busy_env dir demo_config busy_state fs =
     (Inr busy_manifest, fs(join_path dir STATE_FILE \<mapsto> [1], join_path dir MANIFEST_FILE \<mapsto> [2]))"
  by (simp add: finish_snapshot_def cpuid_hash_def kvm_err_def write_snapshot_metadata_def io_bind_def io_return_def Let_def
      flip: busy_manifest_def)

lemma busy_write_image:
  "\<exists>mem f. write_branch_image busy_env [(0, 0x100000)] path (m, fs) = (Inr 256, (m\<lparr> mc_mem := mem \<rparr>, fs(path \<mapsto> f)))"
proof -
  obtain bs mem where b: "live_read busy_env 0 0x100000 m = (bs, m\<lparr> mc_mem := mem \<rparr>)" "length bs = 0x100000"
    using busy_live_read by blast
  obtain f where "put_at busy_env path 0 bs (fs(path \<mapsto> replicate 0x100000 0)) = (Inr (), fs(path \<mapsto> f))"
    using busy_put [of bs 0 path "fs(path \<mapsto> replicate 0x100000 0)"] b(2) by (cases bs) auto
  then have "write_branch_image busy_env [(0, 0x100000)] path (m, fs) = (Inr 256, (m\<lparr> mc_mem := mem \<rparr>, fs(path \<mapsto> f)))"
    using b(1) by (simp add: write_branch_image_def Let_def io_bind_def io_return_def BRANCH_PAGE_SIZE_def)
  then show ?thesis by blast
qed

lemma busy_branches: "\<exists>out s. branch ram_env ram_kvm busy_env dir (busy_machine, fs) = (Inr out, s)"
proof -
  define p where "p = join_path dir MEMORY_FILE"
  define a where "a = (tick busy_machine)\<lparr> mc_vcpu_states := [Some zero_vcpu] \<rparr>"
  have a: "quiesce_at_barrier ram_env busy_env True busy_machine = (Inr (), a)" "busy_like a"
    using busy_quiesce [OF busy_like_machine] busy_like_machine by (auto simp: a_def busy_like_def tick_def)
  have b: "arm_logging ram_kvm busy_env a = (Inr (), a)"
    by (simp add: arm_logging_def set_dirty_logging_def io_bind_def io_return_def busy_collect)
  have c: "release_barrier busy_env m = (Inr (), tick m)" for m by (simp add: release_barrier_def)
  obtain mem f where d: "write_branch_image busy_env [(0, 0x100000)] p (tick a, fs) = (Inr 256, ((tick a)\<lparr> mc_mem := mem \<rparr>, fs(p \<mapsto> f)))"
    using busy_write_image by blast
  define d1 e where "d1 = (tick a)\<lparr> mc_mem := mem \<rparr>" and "e = (tick d1)\<lparr> mc_vcpu_states := [Some zero_vcpu] \<rparr>"
  have q: "quiesce_at_barrier ram_env busy_env True d1 = (Inr (), e)" "busy_like e" "mc_vcpu_states e = [Some zero_vcpu]"
    using busy_quiesce [of d1] a(2) by (auto simp: d1_def e_def busy_like_def tick_def)
  define e1 where "e1 = e\<lparr> mc_vcpu_states := [None] \<rparr>"
  obtain g where g: "recopy_branch_pages busy_env p (mc_mem e1) [\<lparr> dp_host_addr = 0, dp_file_offset = 0 \<rparr>] (fs(p \<mapsto> f)) = (Inr 1, fs(p \<mapsto> g))"
    using busy_put [of "host_bytes busy_env (mc_mem e1) 0 BRANCH_PAGE_SIZE" 0 p "fs(p \<mapsto> f)"]
    by (auto simp: recopy_branch_pages_def io_bind_def io_return_def BRANCH_PAGE_SIZE_def host_bytes_eq_Nil)
  have r: "capture_and_recopy ram_kvm busy_env p (e, fs(p \<mapsto> f)) = (Inr (busy_state, 1), (e1, fs(p \<mapsto> g)))"
    using busy_capture [OF q(2,3)] g
    by (simp add: capture_and_recopy_def io_bind_def io_return_def on_machine_def on_files_def busy_collect e1_def)
  have cfg: "mc_config (tick e1) = demo_config" "snd (set_dirty_logging ram_kvm False e1) = e1"
    using q(2) by (simp_all add: e1_def busy_like_def tick_def set_dirty_logging_def)
  have "\<exists>out s. branch_finish ram_env ram_kvm busy_env dir 256 (d1, fs(p \<mapsto> f)) = (Inr out, s)"
    using q(1) r c cfg busy_finish [of dir "fs(p \<mapsto> g)"]
    by (simp add: branch_finish_def io_bind_def io_return_def on_machine_def on_files_def p_def)
  then show ?thesis
    using a(1) b c d by (simp add: branch_def io_bind_def on_machine_def on_files_def p_def d1_def)
qed

lemma busy_snapshots:
  "\<exists>m' fs'. snapshot_in_place ram_env ram_kvm busy_env dir (busy_machine, fs) = (Inr busy_manifest, (m', fs'))"
proof -
  define a where "a = (tick busy_machine)\<lparr> mc_vcpu_states := [Some zero_vcpu] \<rparr>"
  have a: "quiesce_at_barrier ram_env busy_env True busy_machine = (Inr (), a)" "busy_like a" "mc_vcpu_states a = [Some zero_vcpu]"
    using busy_quiesce [OF busy_like_machine] busy_like_machine by (auto simp: a_def busy_like_def tick_def)
  define a1 where "a1 = a\<lparr> mc_vcpu_states := [None] \<rparr>"
  have d: "capture_and_dump ram_env ram_kvm busy_env dir (a, fs) =
      (Inr busy_state, (a1, fs(join_path dir MEMORY_FILE \<mapsto> ram_image busy_env (mc_mem a))))"
    using busy_capture [OF a(2,3)] dump_guest_memory_image [OF busy_laws(1,3)]
    by (simp add: capture_and_dump_def io_bind_def io_return_def on_machine_def on_files_def a1_def)
  have "mc_config (tick a1) = demo_config" using a(2) by (simp add: a1_def busy_like_def tick_def)
  then show ?thesis
    using a(1) d busy_finish
    by (simp add: snapshot_in_place_def io_bind_def on_machine_def on_files_def release_barrier_def)
qed


section \<open>Properties\<close>



text \<open>C2: A snapshot taken in place restores.  When the snapshot of a running guest succeeds on a host without file errors, there is
  the moment at which everyone was parked, and from the directory alone the manifest and the captured state are read
  back, the host check of a restore on the same host passes, loading the memory file into a fresh guest of the same size
  succeeds and gives it the RAM of that moment, and mapping the file copy-on-write for a fork gives the same RAM.\<close>

theorem snapshot_directory_restores:
  assumes "no_faults L" and "ram_laws E K L" and "write_laws E K L" and "codec_laws L"
    and "map_laws L map_region from_regions content (image_size ranges)"
    and "snapshot_in_place E K L dir (m, fs) = (Inr man, (m', fs'))"
    and "\<forall>x. map snd (lv_hosts L x) = map snd ranges" and "guest_ranges mib = Inr ranges" and "image_size ranges < 2 ^ 64"
  shows "\<exists>m1 st m2 r' c. quiesce_at_barrier E L True m = (Inr (), m1) \<and> capture_parked K m1 = (Inr st, m2) \<and>
     load_manifest L fs' dir = Inr man \<and> load_state L fs' dir man = Inr st \<and> verify_host K (sm_host man) = Inr () \<and>
     load_guest_memory E K L fs' (join_path dir (sm_memory_file man)) r = (Inr (), r') \<and>
     ram_image L r' = ram_image L (mc_mem m1) \<and>
     allocate_cow_guest_memory (case fs' (join_path dir (sm_memory_file man)) of None \<Rightarrow> Inl ''no such file'' | Some b \<Rightarrow> Inr b)
       map_region from_regions mib = Inr c \<and> ram_image L c = ram_image L (mc_mem m1)"
proof -
  obtain m1 st m2 fs1 m3 where q: "quiesce_at_barrier E L True m = (Inr (), m1)"
    and d: "capture_and_dump E K L dir (m1, fs) = (Inr st, (m2, fs1))"
    and "release_barrier L m2 = (Inr (), m3)"
    and f: "finish_snapshot K L dir (mc_config m3) st fs1 = (Inr man, fs')"
    by (rule snapshot_in_place_InrE [OF assms(6)])
  note cap = capture_and_dump_InrE [OF d assms(1,2)]
  note fin = finish_snapshot_files [OF f assms(4)]
  have size: "image_size (lv_hosts L x) = image_size ranges" for x
    using arg_cong [OF assms(7) [rule_format, of x], of "\<lambda>ns. sum_list (map unat ns)"] by (simp add: o_def)
  have mem: "fs' (join_path dir (sm_memory_file man)) = Some (ram_image L (mc_mem m1))"
    using fin(3,4) cap(2) by simp
  obtain r' where r': "load_guest_memory E K L fs' (join_path dir (sm_memory_file man)) r = (Inr (), r')"
    "ram_image L r' = ram_image L (mc_mem m1)"
    using load_guest_memory_image [where mem = r and fs = fs' and path = "join_path dir (sm_memory_file man)", OF assms(1-3) mem] by (auto simp: length_ram_image size)
  have "map_laws L map_region from_regions content (length (ram_image L (mc_mem m1)))"
    using assms(5) by (simp add: length_ram_image size)
  from allocate_cow_image [OF this assms(8)] obtain c where
    "allocate_cow_guest_memory (Inr (ram_image L (mc_mem m1))) map_region from_regions mib = Inr c"
    "ram_image L c = ram_image L (mc_mem m1)"
    using assms(9) by (auto simp: length_ram_image size)
  then show ?thesis using q cap(1) fin(1,2,5) r' mem by (simp add: exI)
qed

text \<open>The mapping of the busy guest: a region is its bytes.\<close>

definition page_map :: "bytes \<Rightarrow> u64 \<times> u64 \<times> u64 \<Rightarrow> string + bytes" where
  "page_map f = (\<lambda>(gpa, sz, off). Inr (slice (unat off) (unat sz) f))"

lemma page_map_laws: "map_laws busy_env page_map (\<lambda>rs. Inr (page_of (concat rs))) (\<lambda>r. r) 0x100000"
proof -
  have "host_bytes busy_env (page_of bs) 0 0x100000 = bs" if "length bs = 0x100000" for bs
  proof (rule nth_equalityI)
    fix k assume "k < length (host_bytes busy_env (page_of bs) 0 0x100000)"
    then have k: "k < 0x100000" by simp
    then have "unat (of_nat k :: u64) = k" by (simp add: unat_of_nat)
    moreover have "lv_byte busy_env = (\<lambda>m h. m h)" by (simp add: busy_env_def)
    ultimately show "host_bytes busy_env (page_of bs) 0 0x100000 ! k = bs ! k" using k that by (simp add: page_of_def)
  qed (use that in simp)
  then show ?thesis by (simp add: map_laws_def page_map_def busy_image)
qed

theorem snapshot_directory_restores_witness:
  "\<exists>m' fs' m1 st m2 r' c.
     snapshot_in_place ram_env ram_kvm busy_env ''d'' (busy_machine, Map.empty) = (Inr busy_manifest, (m', fs')) \<and>
     quiesce_at_barrier ram_env busy_env True busy_machine = (Inr (), m1) \<and> capture_parked ram_kvm m1 = (Inr st, m2) \<and>
     load_manifest busy_env fs' ''d'' = Inr busy_manifest \<and> load_state busy_env fs' ''d'' busy_manifest = Inr st \<and>
     verify_host ram_kvm (sm_host busy_manifest) = Inr () \<and>
     load_guest_memory ram_env ram_kvm busy_env fs' (join_path ''d'' (sm_memory_file busy_manifest)) (\<lambda>_. 7) = (Inr (), r') \<and>
     ram_image busy_env r' = ram_image busy_env (mc_mem m1) \<and>
     allocate_cow_guest_memory (case fs' (join_path ''d'' (sm_memory_file busy_manifest)) of None \<Rightarrow> Inl ''no such file'' | Some b \<Rightarrow> Inr b)
       page_map (\<lambda>rs. Inr (page_of (concat rs))) 1 = Inr c \<and> ram_image busy_env c = ram_image busy_env (mc_mem m1)"
proof -
  obtain m' fs' where s: "snapshot_in_place ram_env ram_kvm busy_env ''d'' (busy_machine, Map.empty) = (Inr busy_manifest, (m', fs'))"
    using busy_snapshots by blast
  have g: "guest_ranges 1 = Inr [(0, 0x100000)]"
    by (simp add: guest_ranges_def checked_mul_def MMIO_GAP_START_def)
  have l: "map_laws busy_env page_map (\<lambda>rs. Inr (page_of (concat rs))) (\<lambda>r. r) (image_size [(0, 0x100000)])"
    using page_map_laws by simp
  have h: "\<forall>x. map snd (lv_hosts busy_env x) = map snd [(0 :: u64, 0x100000 :: u64)]" "image_size [(0 :: u64, 0x100000 :: u64)] < 2 ^ 64"
    by simp_all
  from snapshot_directory_restores [OF busy_laws(1,3) busy_write_laws busy_laws(2) l s h(1) g h(2), of "\<lambda>_. 7"] s
  show ?thesis by blast
qed

end
