(* ===== verification/Net_Plan.thy ===== *)
theory Net_Plan
  imports Text_Codec
begin

text \<open>
  Host networking (\<open>crates/mm-net/src\<close>): the pool of guest addresses (\<open>ipam.rs\<close>), the kernel's
  \<open>ip=\<close> parameter (\<open>bootparam.rs\<close>), the plan of a clone's network namespace with the exact argument vectors of the
  commands that build it (\<open>clone_net.rs\<close>), and the operations that run them (\<open>clone_host.rs\<close>,
  \<open>host.rs\<close>).  The host tools are a parameter: whether a command can be started and how it exits.  The operations
  record every command they run, in order.
\<close>

section \<open>Addresses\<close>

type_synonym ipv4 = "u8 \<times> u8 \<times> u8 \<times> u8"

definition dec_of :: "'a::len word \<Rightarrow> string" where
  "dec_of w = dec_of_nat (unat w)"

definition ip_string :: "ipv4 \<Rightarrow> string" where
  "ip_string = (\<lambda>(a, b, c, d). join_with ''.'' [dec_of a, dec_of b, dec_of c, dec_of d])"

definition ip_bits :: "ipv4 \<Rightarrow> u32" where
  "ip_bits = (\<lambda>(a, b, c, d). push_bit 24 (ucast a) OR push_bit 16 (ucast b) OR push_bit 8 (ucast c) OR ucast d)"

definition ip_of_bits :: "u32 \<Rightarrow> ipv4" where
  "ip_of_bits w = (ucast (drop_bit 24 w), ucast (drop_bit 16 w), ucast (drop_bit 8 w), ucast w)"

text \<open>The pool.  Only the last octet of an address is kept.\<close>

datatype IpamError = Exhausted

record Ipam =
  ia_base :: "u8 \<times> u8 \<times> u8"
  ia_gateway_host :: u8
  ia_allocated :: "u8 set"

definition ipam_new :: "u8 \<times> u8 \<times> u8 \<Rightarrow> u8 \<Rightarrow> Ipam" where
  "ipam_new base gw = \<lparr> ia_base = base, ia_gateway_host = gw, ia_allocated = {} \<rparr>"

definition ipam_addr :: "Ipam \<Rightarrow> u8 \<Rightarrow> ipv4" where
  "ipam_addr p h = (case ia_base p of (a, b, c) \<Rightarrow> (a, b, c, h))"

definition gateway :: "Ipam \<Rightarrow> ipv4" where
  "gateway p = ipam_addr p (ia_gateway_host p)"

definition allocate :: "Ipam \<Rightarrow> (IpamError + ipv4) \<times> Ipam" where
  "allocate p =
     (case find (\<lambda>h. \<not> (h = ia_gateway_host p \<or> h \<in> ia_allocated p)) (map of_nat [1..<255]) of
        None \<Rightarrow> (Inl Exhausted, p)
      | Some h \<Rightarrow> (Inr (ipam_addr p h), p\<lparr> ia_allocated := insert h (ia_allocated p) \<rparr>))"

definition host_octet :: "ipv4 \<Rightarrow> u8" where
  "host_octet = (\<lambda>(a, b, c, d). d)"

definition release :: "ipv4 \<Rightarrow> Ipam \<Rightarrow> Ipam" where
  "release a p = p\<lparr> ia_allocated := ia_allocated p - {host_octet a} \<rparr>"

definition reserve :: "ipv4 \<Rightarrow> Ipam \<Rightarrow> Ipam" where
  "reserve a p = p\<lparr> ia_allocated := insert (host_octet a) (ia_allocated p) \<rparr>"

definition ip_cmdline :: "ipv4 \<Rightarrow> ipv4 \<Rightarrow> ipv4 \<Rightarrow> string \<Rightarrow> string \<Rightarrow> string" where
  "ip_cmdline client gw netmask hostname iface =
     ''ip='' @ ip_string client @ ''::'' @ ip_string gw @ '':'' @ ip_string netmask @ '':'' @ hostname @ '':'' @ iface @ '':off''"


section \<open>The plan of a clone's network\<close>

definition VETH_BASE :: "u8 \<times> u8" where "VETH_BASE = (10, 201)"

record VethLink =
  vl_host_addr :: ipv4
  vl_netns_addr :: ipv4
  vl_prefix_len :: u8

definition for_index :: "u32 \<Rightarrow> VethLink option" where
  "for_index index =
     (case checked_mul index 4 of
        None \<Rightarrow> None
      | Some offset \<Rightarrow>
          if 65536 \<le> offset then None
          else let third = ucast (drop_bit 8 offset); octet = ucast (offset AND 0xff) in
            Some \<lparr> vl_host_addr = (fst VETH_BASE, snd VETH_BASE, third, octet + 1),
                   vl_netns_addr = (fst VETH_BASE, snd VETH_BASE, third, octet + 2), vl_prefix_len = 30 \<rparr>)"

definition host_cidr :: "VethLink \<Rightarrow> string" where
  "host_cidr l = ip_string (vl_host_addr l) @ ''/'' @ dec_of (vl_prefix_len l)"

definition netns_cidr :: "VethLink \<Rightarrow> string" where
  "netns_cidr l = ip_string (vl_netns_addr l) @ ''/'' @ dec_of (vl_prefix_len l)"

definition netns_name :: "string \<Rightarrow> string" where
  "netns_name machine = ''mm-clone-'' @ machine"

definition host_veth_name :: "u32 \<Rightarrow> string" where
  "host_veth_name index = ''mmvh'' @ dec_of index"

definition netns_veth_name :: "u32 \<Rightarrow> string" where
  "netns_veth_name index = ''mmvc'' @ dec_of index"

record CloneNetPlan =
  cp_index :: u32
  cp_netns :: string
  cp_host_veth :: string
  cp_netns_veth :: string
  cp_link :: VethLink
  cp_internal_ip :: ipv4
  cp_clone_ip :: ipv4
  cp_upstream :: string
  cp_tap :: string

definition plan_new :: "u32 \<Rightarrow> string \<Rightarrow> ipv4 \<Rightarrow> ipv4 \<Rightarrow> string \<Rightarrow> string \<Rightarrow> CloneNetPlan option" where
  "plan_new index machine internal_ip clone_ip upstream tap =
     (case for_index index of
        None \<Rightarrow> None
      | Some l \<Rightarrow> Some
          \<lparr> cp_index = index, cp_netns = netns_name machine, cp_host_veth = host_veth_name index,
            cp_netns_veth = netns_veth_name index, cp_link = l, cp_internal_ip = internal_ip, cp_clone_ip = clone_ip,
            cp_upstream = upstream, cp_tap = tap \<rparr>)"

definition internal_gateway :: "ipv4 \<Rightarrow> ipv4" where
  "internal_gateway = (\<lambda>(a, b, c, d). (a, b, c, 1))"

definition network_addr :: "ipv4 \<Rightarrow> u8 \<Rightarrow> ipv4" where
  "network_addr a prefix =
     ip_of_bits (ip_bits a AND (if prefix = 0 then 0 else push_bit (unat (32 - prefix)) (- 1)))"

text \<open>The argument vectors, one per method of the plan.\<close>

datatype root_step = NetnsAdd | NetnsDel | VethAdd | VethDel | HostAddr | HostLinkUp | HostRoute | HostRouteDel

fun root_args :: "root_step \<Rightarrow> CloneNetPlan \<Rightarrow> string list" where
  "root_args NetnsAdd p = [''netns'', ''add'', cp_netns p]"
| "root_args NetnsDel p = [''netns'', ''del'', cp_netns p]"
| "root_args VethAdd p =
     [''link'', ''add'', cp_host_veth p, ''type'', ''veth'', ''peer'', ''name'', cp_netns_veth p, ''netns'', cp_netns p]"
| "root_args VethDel p = [''link'', ''del'', cp_host_veth p]"
| "root_args HostAddr p = [''addr'', ''add'', host_cidr (cp_link p), ''dev'', cp_host_veth p]"
| "root_args HostLinkUp p = [''link'', ''set'', cp_host_veth p, ''up'']"
| "root_args HostRoute p =
     [''route'', ''add'', ip_string (cp_clone_ip p) @ ''/32'', ''via'', ip_string (vl_netns_addr (cp_link p))]"
| "root_args HostRouteDel p = [''route'', ''del'', ip_string (cp_clone_ip p) @ ''/32'']"

datatype netns_step = NetnsVethAddr | NetnsVethUp | NetnsLoUp | NetnsDefaultRoute | NetnsTapAddr | NetnsTapUp

fun netns_args :: "netns_step \<Rightarrow> CloneNetPlan \<Rightarrow> string list" where
  "netns_args NetnsVethAddr p = [''addr'', ''add'', netns_cidr (cp_link p), ''dev'', cp_netns_veth p]"
| "netns_args NetnsVethUp p = [''link'', ''set'', cp_netns_veth p, ''up'']"
| "netns_args NetnsLoUp p = [''link'', ''set'', ''lo'', ''up'']"
| "netns_args NetnsDefaultRoute p = [''route'', ''add'', ''default'', ''via'', ip_string (vl_host_addr (cp_link p))]"
| "netns_args NetnsTapAddr p =
     [''addr'', ''add'', ip_string (internal_gateway (cp_internal_ip p)) @ ''/24'', ''dev'', cp_tap p]"
| "netns_args NetnsTapUp p = [''link'', ''set'', cp_tap p, ''up'']"

datatype nat_rule = Snat | Dnat | HostMasq

fun nat_args :: "nat_rule \<Rightarrow> string \<Rightarrow> CloneNetPlan \<Rightarrow> string list" where
  "nat_args Snat act p =
     [''-t'', ''nat'', act, ''POSTROUTING'', ''-s'', ip_string (cp_internal_ip p), ''-o'', cp_netns_veth p,
      ''-j'', ''SNAT'', ''--to'', ip_string (cp_clone_ip p)]"
| "nat_args Dnat act p =
     [''-t'', ''nat'', act, ''PREROUTING'', ''-i'', cp_netns_veth p, ''-d'', ip_string (cp_clone_ip p),
      ''-j'', ''DNAT'', ''--to'', ip_string (cp_internal_ip p)]"
| "nat_args HostMasq act p =
     [''-t'', ''nat'', act, ''POSTROUTING'', ''-s'', ip_string (network_addr (vl_host_addr (cp_link p)) 30) @ ''/30'',
      ''-o'', cp_upstream p, ''-j'', ''MASQUERADE'']"


section \<open>Running commands\<close>

datatype HostNetError = IoError string | Spawn string | Command string string | NameTooLong string

type_synonym cmd = "string \<times> string list"

text \<open>How a command ends: it cannot be started, or it exits with success or with a message.\<close>

datatype exit = NotStarted | Succeeded | Failed string

type_synonym tools = "cmd \<Rightarrow> exit"

text \<open>An operation on the host: its result, and the commands run so far.\<close>

type_synonym 'a hostop = "cmd list \<Rightarrow> (HostNetError + 'a) \<times> cmd list"

definition run :: "tools \<Rightarrow> string \<Rightarrow> string list \<Rightarrow> unit hostop" where
  "run T prog args log =
     ((case T (prog, args) of
         NotStarted \<Rightarrow> Inl (Spawn prog)
       | Succeeded \<Rightarrow> Inr ()
       | Failed err \<Rightarrow> Inl (Command (prog @ '' '' @ join_with '' '' args) err)), log @ [(prog, args)])"

fun run_all :: "tools \<Rightarrow> cmd list \<Rightarrow> unit hostop" where
  "run_all T [] log = (Inr (), log)"
| "run_all T (c # cs) log =
     (case run T (fst c) (snd c) log of (Inl e, log1) \<Rightarrow> (Inl e, log1) | (Inr _, log1) \<Rightarrow> run_all T cs log1)"

definition ip_cmd :: "string list \<Rightarrow> cmd" where
  "ip_cmd args = (''ip'', args)"

definition ip_in :: "string \<Rightarrow> string list \<Rightarrow> cmd" where
  "ip_in ns args = (''ip'', ''-n'' # ns # args)"

definition iptables_in :: "string \<Rightarrow> string list \<Rightarrow> cmd" where
  "iptables_in ns args = (''ip'', ''netns'' # ''exec'' # ns # ''iptables'' # args)"

definition create_netns :: "tools \<Rightarrow> CloneNetPlan \<Rightarrow> unit hostop" where
  "create_netns T p = run_all T [ip_cmd (root_args NetnsAdd p), ip_in (cp_netns p) (netns_args NetnsLoUp p)]"

definition wire_steps :: "CloneNetPlan \<Rightarrow> cmd list" where
  "wire_steps p =
     [ip_cmd (root_args VethAdd p), ip_cmd (root_args HostAddr p), ip_cmd (root_args HostLinkUp p),
      ip_in (cp_netns p) (netns_args NetnsVethAddr p), ip_in (cp_netns p) (netns_args NetnsVethUp p),
      ip_in (cp_netns p) (netns_args NetnsTapAddr p), ip_in (cp_netns p) (netns_args NetnsTapUp p),
      ip_in (cp_netns p) (netns_args NetnsDefaultRoute p),
      (''ip'', [''netns'', ''exec'', cp_netns p, ''sysctl'', ''-q'', ''-w'', ''net.ipv4.ip_forward=1'']),
      iptables_in (cp_netns p) [''-P'', ''FORWARD'', ''ACCEPT''], (''iptables'', [''-P'', ''FORWARD'', ''ACCEPT'']),
      iptables_in (cp_netns p) (nat_args Snat ''-A'' p), iptables_in (cp_netns p) (nat_args Dnat ''-A'' p),
      (''iptables'', nat_args HostMasq ''-A'' p), ip_cmd (root_args HostRoute p)]"

definition wire_clone_net :: "tools \<Rightarrow> CloneNetPlan \<Rightarrow> unit hostop" where
  "wire_clone_net T p = run_all T (wire_steps p)"

text \<open>Every step is attempted and the first error is returned.\<close>

fun run_each :: "tools \<Rightarrow> cmd list \<Rightarrow> unit hostop" where
  "run_each T [] log = (Inr (), log)"
| "run_each T (c # cs) log =
     (case run T (fst c) (snd c) log of
        (r, log1) \<Rightarrow> (case run_each T cs log1 of (r', log2) \<Rightarrow> ((case r of Inl e \<Rightarrow> Inl e | Inr _ \<Rightarrow> r'), log2)))"

definition teardown_steps :: "CloneNetPlan \<Rightarrow> cmd list" where
  "teardown_steps p =
     [(''iptables'', nat_args HostMasq ''-D'' p), ip_cmd (root_args HostRouteDel p), ip_cmd (root_args VethDel p),
      ip_cmd (root_args NetnsDel p)]"

definition teardown_clone_net :: "tools \<Rightarrow> CloneNetPlan \<Rightarrow> unit hostop" where
  "teardown_clone_net T p = run_each T (teardown_steps p)"

text \<open>The entry point of \<open>mm rm\<close> for a clone: the plan is rebuilt from what the machine's record holds.\<close>

definition host_teardown :: "tools \<Rightarrow> string \<Rightarrow> u32 \<Rightarrow> ipv4 \<Rightarrow> string option \<Rightarrow> string option \<Rightarrow> string + unit hostop" where
  "host_teardown T machine index clone_ip upstream egress =
     (let up = (case upstream of Some u \<Rightarrow> u | None \<Rightarrow> (case egress of Some u \<Rightarrow> u | None \<Rightarrow> ''eth0'')) in
      case plan_new index machine clone_ip clone_ip up (''mmtap'' @ dec_of index) of
        None \<Rightarrow> Inl ''clone index overflows the veth /16''
      | Some p \<Rightarrow> Inr (teardown_clone_net T p))"

definition masq_args :: "string \<Rightarrow> string \<Rightarrow> string \<Rightarrow> string list" where
  "masq_args act subnet egress =
     [''-t'', ''nat'', act, ''POSTROUTING'', ''-s'', subnet, ''-o'', egress, ''-j'', ''MASQUERADE'']"

definition link_exists :: "tools \<Rightarrow> string \<Rightarrow> bool" where
  "link_exists T name \<longleftrightarrow> T (''ip'', [''link'', ''show'', name]) = Succeeded"

definition ensure_bridge :: "tools \<Rightarrow> string \<Rightarrow> ipv4 \<Rightarrow> u8 \<Rightarrow> unit hostop" where
  "ensure_bridge T name gw prefix log =
     (case (if link_exists T name then (Inr (), log)
            else run T ''ip'' [''link'', ''add'', ''name'', name, ''type'', ''bridge''] log) of
        (Inl e, log1) \<Rightarrow> (Inl e, log1)
      | (Inr _, log1) \<Rightarrow>
          run T ''ip'' [''link'', ''set'', name, ''up'']
            (snd (run T ''ip'' [''addr'', ''add'', ip_string gw @ ''/'' @ dec_of prefix, ''dev'', name] log1)))"

definition enable_nat :: "tools \<Rightarrow> string \<Rightarrow> string \<Rightarrow> unit hostop" where
  "enable_nat T subnet egress log =
     (case (if T (''iptables'', masq_args ''-C'' subnet egress) = Succeeded then (Inr (), log)
            else run T ''iptables'' (masq_args ''-A'' subnet egress) log) of
        (Inl e, log1) \<Rightarrow> (Inl e, log1)
      | (Inr _, log1) \<Rightarrow> run T ''sysctl'' [''-w'', ''net.ipv4.ip_forward=1''] log1)"

definition teardown_tap :: "tools \<Rightarrow> string \<Rightarrow> unit hostop" where
  "teardown_tap T name log = (if link_exists T name then run T ''ip'' [''link'', ''del'', name] log else (Inr (), log))"

text \<open>\<open>tun\<close> is the outcome of opening the TUN device, \<open>setiff\<close> and \<open>persist\<close> those of the two ioctls.\<close>

definition open_tun :: "string + 'd \<Rightarrow> ('d \<Rightarrow> string \<Rightarrow> string + unit) \<Rightarrow> string \<Rightarrow> HostNetError + 'd" where
  "open_tun tun setiff name =
     (case tun of
        Inl e \<Rightarrow> Inl (IoError e)
      | Inr fd \<Rightarrow>
          if 16 \<le> length name then Inl (NameTooLong name)
          else (case setiff fd name of Inl e \<Rightarrow> Inl (IoError e) | Inr _ \<Rightarrow> Inr fd))"

definition create_tap ::
  "tools \<Rightarrow> string + 'd \<Rightarrow> ('d \<Rightarrow> string \<Rightarrow> string + unit) \<Rightarrow> ('d \<Rightarrow> string + unit) \<Rightarrow> string \<Rightarrow> string
   \<Rightarrow> (string \<times> 'd) hostop" where
  "create_tap T tun setiff persist name bridge log =
     (case open_tun tun setiff name of
        Inl e \<Rightarrow> (Inl e, log)
      | Inr fd \<Rightarrow>
          (case persist fd of
             Inl e \<Rightarrow> (Inl (IoError e), log)
           | Inr _ \<Rightarrow>
               (case run_all T [(''ip'', [''link'', ''set'', name, ''master'', bridge]), (''ip'', [''link'', ''set'', name, ''up''])] log of
                  (Inl e, log1) \<Rightarrow> (Inl e, log1)
                | (Inr _, log1) \<Rightarrow> (Inr (name, fd), log1))))"


section \<open>The address pool\<close>

lemma host_octet_ipam_addr [simp]: "host_octet (ipam_addr p h) = h"
  by (simp add: host_octet_def ipam_addr_def split: prod.splits)

lemma find_Some_first: "find P xs = Some x \<longleftrightarrow> (\<exists>i < length xs. P (xs ! i) \<and> x = xs ! i \<and> (\<forall>j < i. \<not> P (xs ! j)))"
  by (rule find_Some_iff)

lemma octet_eq_iff: "m < 256 \<Longrightarrow> n < 256 \<Longrightarrow> (of_nat m :: u8) = of_nat n \<longleftrightarrow> m = n"
  by (simp add: word_unat_eq_iff unat_of_nat)

lemma allocate_Inr:
  assumes "allocate p = (Inr a, p')"
  obtains n where "1 \<le> n" "n \<le> 254" "a = ipam_addr p (of_nat n)" "of_nat n \<noteq> ia_gateway_host p" "of_nat n \<notin> ia_allocated p"
    "p' = p\<lparr> ia_allocated := insert (of_nat n) (ia_allocated p) \<rparr>"
    "\<And>k. 1 \<le> k \<Longrightarrow> k < n \<Longrightarrow> of_nat k = ia_gateway_host p \<or> of_nat k \<in> ia_allocated p"
proof -
  let ?P = "\<lambda>h. \<not> (h = ia_gateway_host p \<or> h \<in> ia_allocated p)"
  obtain h where h: "find ?P (map of_nat [1..<255]) = Some h" "a = ipam_addr p h" "p' = p\<lparr> ia_allocated := insert h (ia_allocated p) \<rparr>"
    using assms by (auto simp: allocate_def split: option.splits)
  obtain i where i: "i < 254" "?P (of_nat (i + 1))" "h = of_nat (i + 1)" "\<And>j. j < i \<Longrightarrow> \<not> ?P (of_nat (j + 1))"
    using h(1) unfolding find_Some_first by (auto simp: nth_append add.commute simp del: of_nat_Suc of_nat_add upt_Suc)
  show thesis
  proof (rule that)
    show "of_nat k = ia_gateway_host p \<or> of_nat k \<in> ia_allocated p" if "1 \<le> k" "k < i + 1" for k
      using i(4) [of "k - 1"] that by simp
  qed (use i h in \<open>auto simp del: of_nat_Suc of_nat_add\<close>)
qed

lemma allocate_Inl_iff:
  "allocate p = (Inl e, p') \<longleftrightarrow>
     p' = p \<and> (\<forall>n. 1 \<le> n \<and> n \<le> 254 \<longrightarrow> of_nat n = ia_gateway_host p \<or> of_nat n \<in> ia_allocated p)"
proof -
  have "find (\<lambda>h. \<not> (h = ia_gateway_host p \<or> h \<in> ia_allocated p)) (map of_nat [1..<255]) = None \<longleftrightarrow>
      (\<forall>n. 1 \<le> n \<and> n \<le> 254 \<longrightarrow> of_nat n = ia_gateway_host p \<or> of_nat n \<in> ia_allocated p)"
    by (auto simp: find_None_iff)
  then show ?thesis by (cases e) (auto simp: allocate_def split: option.splits)
qed

lemma fold_reserve: "fold reserve as p = p\<lparr> ia_allocated := ia_allocated p \<union> host_octet ` set as \<rparr>"
  by (induction as arbitrary: p) (auto simp: reserve_def)


section \<open>Links\<close>

lemma network_addr_30: "network_addr (a, b, c, d) 30 = (a, b, c, d AND NOT 3)"
proof -
  have m: "unat (32 - 30 :: u8) = 2" by simp
  have m3: "(3 :: u8) = mask 2" by (simp add: mask_eq_exp_minus_1)
  show ?thesis
    unfolding network_addr_def ip_bits_def ip_of_bits_def case_prod_conv m m3
    by (auto intro!: bit_word_eqI simp: bit_or_iff bit_and_iff bit_push_bit_iff bit_drop_bit_eq bit_unsigned_iff
        bit_mask_iff bit_not_iff bit_1_iff bit_minus_1_iff)
      (drule bit_imp_le_length, simp)+
qed

lemma ucast_eq_of_nat: "(ucast x :: 'b::len word) = of_nat (unat x)" for x :: "'a::len word"
  by (simp add: word_unat_eq_iff unat_of_nat unsigned_ucast_eq take_bit_eq_mod)

lemma unat_drop_bit: "unat (drop_bit n x) = unat x div 2 ^ n" for x :: "'a::len word"
  by (subst unsigned_drop_bit_eq) (simp add: drop_bit_eq_div take_bit_nat_eq_self)

lemma unat_mask_8: "unat (x AND 0xff) = unat x mod 256" for x :: u32
proof -
  have m: "(0xff :: u32) = mask 8" by (simp add: mask_eq_exp_minus_1)
  show ?thesis unfolding m take_bit_eq_mask [symmetric] by (subst unsigned_take_bit_eq) (simp add: take_bit_eq_mod)
qed

text \<open>The octets of the block of slot \<open>i\<close>.\<close>

lemma for_index_Some:
  assumes "for_index i = Some l"
  defines "n \<equiv> 4 * unat i"
  shows "n < 65536" "vl_host_addr l = (10, 201, of_nat (n div 256), of_nat (n mod 256 + 1))"
    "vl_netns_addr l = (10, 201, of_nat (n div 256), of_nat (n mod 256 + 2))" "vl_prefix_len l = 30"
proof -
  obtain w where w: "checked_mul i 4 = Some w" "\<not> 65536 \<le> w"
    "l = \<lparr> vl_host_addr = (10, 201, ucast (drop_bit 8 w), ucast (w AND 0xff) + 1),
           vl_netns_addr = (10, 201, ucast (drop_bit 8 w), ucast (w AND 0xff) + 2), vl_prefix_len = 30 \<rparr>"
    using assms(1) by (auto simp: for_index_def Let_def VETH_BASE_def split: option.splits if_splits)
  have uw: "unat w = n" using unat_checked_mul [OF w(1)] by (simp add: n_def)
  then show n: "n < 65536" using w(2) by (simp add: word_le_nat_alt)
  show "vl_host_addr l = (10, 201, of_nat (n div 256), of_nat (n mod 256 + 1))"
    "vl_netns_addr l = (10, 201, of_nat (n div 256), of_nat (n mod 256 + 2))" "vl_prefix_len l = 30"
    by (simp_all add: w(3) ucast_eq_of_nat unat_drop_bit unat_mask_8 uw)
qed

lemma for_index_None_iff: "for_index i = None \<longleftrightarrow> 16384 \<le> unat i"
proof (cases "checked_mul i 4")
  case None
  then show ?thesis by (auto simp: for_index_def checked_mul_def split: if_splits)
next
  case (Some w)
  have "65536 \<le> w \<longleftrightarrow> 16384 \<le> unat i" using unat_checked_mul [OF Some] by (simp add: word_le_nat_alt)
  then show ?thesis using Some by (simp add: for_index_def Let_def)
qed

text \<open>The two low bits of an end of a link are its place in the block.\<close>

lemma clear_low_bits: "4 dvd k \<Longrightarrow> k < 256 \<Longrightarrow> r < 4 \<Longrightarrow> (of_nat (k + r) :: u8) AND NOT 3 = of_nat k"
proof -
  assume k: "4 dvd k" "k < 256" "r < 4"
  then obtain q where q: "k = 4 * q" by blast
  have m: "(3 :: u8) = mask 2" by (simp add: mask_eq_exp_minus_1)
  have "x AND NOT (mask 2) = push_bit 2 (drop_bit 2 x)" for x :: u8
  proof (rule bit_word_eqI)
    fix n
    show "bit (x AND NOT (mask 2)) n = bit (push_bit 2 (drop_bit 2 x)) n" if "n < LENGTH(8)"
      using that by (cases "n < 2") (auto simp: bit_and_iff bit_not_iff bit_mask_iff bit_push_bit_iff bit_drop_bit_eq
          not_less dest!: le_Suc_ex)
  qed
  then have "unat ((of_nat (k + r) :: u8) AND NOT (mask 2)) = (k + r) div 4 * 4 mod 256"
    using k q by (simp add: push_bit_eq_mult unat_word_ariths unat_drop_bit unat_of_nat del: of_nat_add)
  also have "\<dots> = k" using k q by simp
  finally show ?thesis unfolding m using k(2) by (simp add: word_unat_eq_iff unat_of_nat)
qed

lemma link_network:
  assumes "for_index i = Some l"
  defines "n \<equiv> 4 * unat i"
  shows "network_addr (vl_host_addr l) 30 = (10, 201, of_nat (n div 256), of_nat (n mod 256))"
    "network_addr (vl_netns_addr l) 30 = (10, 201, of_nat (n div 256), of_nat (n mod 256))"
proof -
  have "4 dvd n mod 256" "n mod 256 < 256" by (simp_all add: n_def dvd_mod)
  note clear = clear_low_bits [OF this]
  show "network_addr (vl_host_addr l) 30 = (10, 201, of_nat (n div 256), of_nat (n mod 256))"
    "network_addr (vl_netns_addr l) 30 = (10, 201, of_nat (n div 256), of_nat (n mod 256))"
    using for_index_Some [OF assms(1)] clear [of 1] clear [of 2]
    by (simp_all add: network_addr_30 n_def del: of_nat_add)
qed

lemma dec_of_inj [simp]: "dec_of v = dec_of w \<longleftrightarrow> v = w"
  by (simp add: dec_of_def dec_of_nat_inj word_unat_eq_iff)


section \<open>What the commands undo\<close>

text \<open>The command that takes back what a command created in the host's own namespace; addresses and states of a link go
  with the link, and everything inside a clone's namespace goes with the namespace.\<close>

fun undo :: "cmd \<Rightarrow> cmd list" where
  "undo (prog, args) =
     (if prog = ''ip'' \<and> length args = 3 \<and> take 2 args = [''netns'', ''add''] then [(''ip'', [''netns'', ''del'', args ! 2])]
      else if prog = ''ip'' \<and> 3 \<le> length args \<and> take 2 args = [''link'', ''add''] then [(''ip'', [''link'', ''del'', args ! 2])]
      else if prog = ''ip'' \<and> 3 \<le> length args \<and> take 2 args = [''route'', ''add''] then [(''ip'', [''route'', ''del'', args ! 2])]
      else if prog = ''iptables'' \<and> 3 \<le> length args \<and> take 3 args = [''-t'', ''nat'', ''-A'']
      then [(''iptables'', [''-t'', ''nat'', ''-D''] @ drop 3 args)]
      else [])"

lemma run_all_prefix: "\<exists>n. snd (run_all T cs log) = log @ take n cs"
proof (induction cs arbitrary: log)
  case (Cons c cs)
  show ?case
  proof (cases "T c")
    case Succeeded
    obtain n where "snd (run_all T cs (log @ [c])) = (log @ [c]) @ take n cs" using Cons.IH by blast
    then have "snd (run_all T (c # cs) log) = log @ take (Suc n) (c # cs)" using Succeeded by (simp add: run_def)
    then show ?thesis by blast
  qed (auto simp: run_def intro: exI [of _ 1])
qed simp

lemma run_all_Inr: "run_all T cs log = (Inr (), log') \<Longrightarrow> log' = log @ cs"
proof (induction cs arbitrary: log)
  case (Cons c cs)
  then have "run_all T cs (log @ [c]) = (Inr (), log')" by (auto simp: run_def split: exit.splits)
  from Cons.IH [OF this] show ?case by simp
qed simp

lemma run_each_log: "snd (run_each T cs log) = log @ cs"
  by (induction cs arbitrary: log) (simp_all add: run_def case_prod_beta)

lemma set_undo_prefix: "set (concat (map undo (take n cs))) \<subseteq> set (concat (map undo cs))"
  using set_take_subset [of n cs] by auto

lemma undo_other [simp]:
  "undo (ip_in ns args) = []" "undo (iptables_in ns args) = []" "undo (''ip'', ''netns'' # ''exec'' # args) = []"
  by (simp_all add: ip_in_def iptables_in_def)

lemma undo_steps:
  "set (concat (map undo ([ip_cmd (root_args NetnsAdd p), ip_in (cp_netns p) (netns_args NetnsLoUp p)] @ wire_steps p))) =
     set (teardown_steps (p\<lparr> cp_internal_ip := a, cp_tap := t \<rparr>))"
  by (auto simp: wire_steps_def teardown_steps_def ip_cmd_def)

declare undo.simps [simp del]


section \<open>Properties\<close>

text \<open>C14: Address allocation from persisted state.  A pool that is rebuilt by reserving the addresses in use hands out an address of
  its own /24 that is not in use and is neither the network, the gateway nor the broadcast address; the next allocation gives
  another one; releasing the address makes exactly the same allocation possible again; and as long as fewer than 253
  addresses are in use there is one to hand out.\<close>

theorem ipam_allocates_fresh:
  fixes used :: "ipv4 list" and a b c gw :: u8
  defines "p \<equiv> fold reserve used (ipam_new (a, b, c) gw)"
  shows "(length used < 253 \<longrightarrow> (\<exists>x p'. allocate p = (Inr x, p'))) \<and>
    (\<forall>x p'. allocate p = (Inr x, p') \<longrightarrow>
       x \<notin> set used \<and> x \<noteq> gateway p \<and> (\<exists>h. x = (a, b, c, h) \<and> h \<noteq> 0 \<and> h \<noteq> 255) \<and>
       (\<forall>y. fst (allocate p') = Inr y \<longrightarrow> y \<noteq> x) \<and> allocate (release x p') = (Inr x, p'))"
proof (intro conjI impI allI)
  have p: "ia_base p = (a, b, c)" "ia_gateway_host p = gw" "ia_allocated p = host_octet ` set used"
    by (simp_all add: p_def fold_reserve ipam_new_def)
  show "\<exists>x p'. allocate p = (Inr x, p')" if "length used < 253"
  proof (rule ccontr)
    assume "\<not> ?thesis"
    then obtain e p' where "allocate p = (Inl e, p')" by (metis old.sum.exhaust surj_pair)
    then have "of_nat n \<in> insert gw (host_octet ` set used)" if "n \<in> {1..254}" for n
      using that by (auto simp: allocate_Inl_iff p)
    then have "(of_nat :: nat \<Rightarrow> u8) ` {1..254} \<subseteq> insert gw (host_octet ` set used)" by blast
    then have "card ((of_nat :: nat \<Rightarrow> u8) ` {1..254}) \<le> card (insert gw (host_octet ` set used))" by (intro card_mono) auto
    also have "\<dots> \<le> Suc (card (host_octet ` set used))" by (simp add: card_insert_if)
    also have "card (host_octet ` set used) \<le> length used" using card_image_le card_length le_trans by blast
    finally have "card ((of_nat :: nat \<Rightarrow> u8) ` {1..254}) \<le> Suc (length used)" by simp
    moreover have "inj_on (of_nat :: nat \<Rightarrow> u8) {1..254}" by (rule inj_onI) (simp add: octet_eq_iff)
    ultimately show False using that by (simp add: card_image)
  qed
  fix x p' assume al: "allocate p = (Inr x, p')"
  from allocate_Inr [OF al] obtain n where n: "1 \<le> n" "n \<le> 254" "x = ipam_addr p (of_nat n)" "of_nat n \<noteq> gw"
    "of_nat n \<notin> host_octet ` set used" "p' = p\<lparr> ia_allocated := insert (of_nat n) (host_octet ` set used) \<rparr>" by (auto simp: p)
  have x: "x = (a, b, c, of_nat n)" using n(3) by (simp add: ipam_addr_def p)
  have "host_octet x = of_nat n" by (simp add: x host_octet_def)
  then show "x \<notin> set used" using n(5) by (metis imageI)
  show "x \<noteq> gateway p" using n(4) by (simp add: x gateway_def ipam_addr_def p)
  have "of_nat n \<noteq> (0 :: u8)" "of_nat n \<noteq> (255 :: u8)"
    using n(1,2) octet_eq_iff [of n 0] octet_eq_iff [of n 255] by simp_all
  then show "\<exists>h. x = (a, b, c, h) \<and> h \<noteq> 0 \<and> h \<noteq> 255" using x by blast
  show "y \<noteq> x" if y: "fst (allocate p') = Inr y" for y
  proof -
    obtain p'' where "allocate p' = (Inr y, p'')" using y by (metis prod.collapse)
    from allocate_Inr [OF this] obtain k where "y = ipam_addr p' (of_nat k)" "of_nat k \<notin> ia_allocated p'" by metis
    then show ?thesis using n(6) x by (auto simp: ipam_addr_def p)
  qed
  have "release x p' = p" using n(5,6) by (simp add: release_def x host_octet_def p)
  then show "allocate (release x p') = (Inr x, p')" using al by simp
qed

theorem ipam_allocates_fresh_witness:
  "\<exists>p'. allocate (fold reserve [(10, 0, 0, 2), (10, 0, 0, 3)] (ipam_new (10, 0, 0) 1)) = (Inr (10, 0, 0, 4), p') \<and>
     allocate (release (10, 0, 0, 4) p') = (Inr (10, 0, 0, 4), p')"
proof -
  define p where "p = fold reserve [(10, 0, 0, 2), (10, 0, 0, 3)] (ipam_new (10, 0, 0) 1)"
  note T = ipam_allocates_fresh [of "[(10, 0, 0, 2), (10, 0, 0, 3)]" 10 0 0 1, folded p_def]
  have "length [(10, 0, 0, 2), (10, 0, 0, 3) :: ipv4] < 253" by simp
  then obtain x p' where al: "allocate p = (Inr x, p')" using T by blast
  then have rel: "allocate (release x p') = (Inr x, p')" using T by blast
  have p: "ia_base p = (10, 0, 0)" "ia_gateway_host p = 1" "ia_allocated p = {2, 3}"
    by (auto simp: p_def reserve_def ipam_new_def host_octet_def)
  obtain n where n: "1 \<le> n" "n \<le> 254" "x = ipam_addr p (of_nat n)" "(of_nat n :: u8) \<noteq> 1" "of_nat n \<notin> {2, 3 :: u8}"
    "\<And>k. 1 \<le> k \<Longrightarrow> k < n \<Longrightarrow> (of_nat k :: u8) = 1 \<or> of_nat k \<in> {2, 3 :: u8}"
    using allocate_Inr [OF al] unfolding p by metis
  have "n \<noteq> 1" "n \<noteq> 2" "n \<noteq> 3" using n(4,5) by auto
  moreover have "\<not> 4 < n" using n(6) [of 4] by auto
  ultimately have "n = 4" using n(1) by linarith
  then have "x = (10, 0, 0, 4)" using n(3) by (simp add: ipam_addr_def p)
  then show ?thesis using al rel by (auto simp: p_def)
qed

text \<open>C24: Clones do not share links.  Two clones with different slots get different /30 networks, each holding exactly its own two ends,
  no address in common, different interface names on both ends, and all addresses are outside the guests' own /24; a slot has a
  link exactly when it is below 16384.\<close>

theorem clone_links_disjoint:
  assumes "for_index i = Some l" and "for_index j = Some k" and "i \<noteq> j"
  shows "network_addr (vl_host_addr l) 30 = network_addr (vl_netns_addr l) 30 \<and>
    network_addr (vl_host_addr l) 30 \<noteq> network_addr (vl_host_addr k) 30 \<and>
    distinct [vl_host_addr l, vl_netns_addr l, vl_host_addr k, vl_netns_addr k] \<and>
    distinct [host_veth_name i, netns_veth_name i, host_veth_name j, netns_veth_name j] \<and>
    (\<forall>h. (10, 0, 0, h) \<notin> {vl_host_addr l, vl_netns_addr l}) \<and> (\<forall>s. for_index s = None \<longleftrightarrow> 16384 \<le> unat s)"
proof -
  note L = for_index_Some [OF assms(1)] and M = for_index_Some [OF assms(2)]
  note nl = link_network [OF assms(1)] and nk = link_network [OF assms(2)]
  have ne: "unat i \<noteq> unat j" using assms(3) by (simp add: word_unat_eq_iff)
  have "(of_nat (4 * unat i div 256) :: u8, of_nat (4 * unat i mod 256) :: u8) \<noteq> (of_nat (4 * unat j div 256), of_nat (4 * unat j mod 256))"
  proof
    assume "(of_nat (4 * unat i div 256) :: u8, of_nat (4 * unat i mod 256) :: u8) = (of_nat (4 * unat j div 256), of_nat (4 * unat j mod 256))"
    then have "4 * unat i div 256 = 4 * unat j div 256" "4 * unat i mod 256 = 4 * unat j mod 256"
      using L(1) M(1) by (simp_all add: octet_eq_iff del: of_nat_mult of_nat_numeral)
    then show False using ne div_mult_mod_eq [of "4 * unat i" 256] div_mult_mod_eq [of "4 * unat j" 256] by simp
  qed
  then have net: "network_addr (vl_host_addr l) 30 \<noteq> network_addr (vl_host_addr k) 30" using nl nk by auto
  have "vl_host_addr l \<noteq> vl_netns_addr l" "vl_host_addr k \<noteq> vl_netns_addr k" using L M by simp_all
  moreover have "{vl_host_addr l, vl_netns_addr l} \<inter> {vl_host_addr k, vl_netns_addr k} = {}" using net nl nk by auto
  ultimately show ?thesis
    using net nl L assms(3) by (auto simp: for_index_None_iff host_veth_name_def netns_veth_name_def)
qed

theorem clone_links_disjoint_witness:
  "\<exists>l k. for_index 0 = Some l \<and> for_index 16383 = Some k \<and> network_addr (vl_host_addr l) 30 \<noteq> network_addr (vl_host_addr k) 30"
proof -
  obtain l k where lk: "for_index 0 = Some l" "for_index 16383 = Some k"
    using for_index_None_iff [of 0] for_index_None_iff [of 16383] by (cases "for_index 0"; cases "for_index 16383") auto
  have "(0 :: u32) \<noteq> 16383" by simp
  from clone_links_disjoint [OF lk this] lk show ?thesis by blast
qed



end
