(* ===== verification/Guest_Init.thy ===== *)
theory Guest_Init
  imports Machine_Boot Net_Plan
begin

text \<open>
  What the launcher tells a guest and what the guest makes of it: the construction of the VM configuration with its kernel
  command line (\<open>crates/mm-host/src/config.rs\<close> and the encoders of \<open>launch.rs\<close>), and the parser of the guest's
  init process (\<open>crates/mm-init/src/cmdline.rs\<close>).  The parser reads the line the launcher built followed by the
  device arguments the machine appends while it wires the guest, and recovers the command, the key and the seed.
\<close>

section \<open>The host side\<close>

definition NETMASK :: ipv4 where "NETMASK = (255, 255, 255, 0)"

definition build_vm_config ::
  "u8 \<Rightarrow> u64 \<Rightarrow> string \<Rightarrow> string \<Rightarrow> ipv4 \<Rightarrow> ipv4 \<Rightarrow> ipv4 \<Rightarrow> string \<Rightarrow> string \<Rightarrow> string
   \<Rightarrow> string option \<Rightarrow> string option \<Rightarrow> string option \<Rightarrow> VmConfig" where
  "build_vm_config cpus mem kernel_path rootfs_path ip gw netmask hostname tap macaddr workload_argv_hex
     authorized_key_hex random_seed_hex =
     (let ip_param = ip_cmdline ip gw netmask hostname ''eth0'';
          mode = (case workload_argv_hex of Some h \<Rightarrow> ''mm.workload_argv='' @ h | None \<Rightarrow> ''mm.mode=sandbox'');
          line0 = ''console=ttyS0 root=/dev/vda ro init=/init reboot=t panic=1 '' @ FAST_BOOT_ARGS @ '' '' @ ip_param
                  @ '' '' @ mode;
          line1 = (case authorized_key_hex of Some h \<Rightarrow> line0 @ '' mm.authorized_key='' @ h | None \<Rightarrow> line0);
          line2 = (case random_seed_hex of Some h \<Rightarrow> line1 @ '' mm.random_seed='' @ h | None \<Rightarrow> line1) in
      \<lparr> vcpus = cpus, memory_mib = mem, kernel = kernel_path, kernel_cmdline = line2,
        rootfs = \<lparr> bd_path = rootfs_path, bd_read_only = True, bd_rate_limit = None \<rparr>,
        devices = [NetDev tap macaddr None] \<rparr>)"

text \<open>\<open>uuid\<close> is the fresh identifier the name's suffix is cut from.\<close>

definition default_name :: "string \<Rightarrow> string \<Rightarrow> string" where
  "default_name uuid img =
     hd (split_on (CHR '':'') (last (split_on (CHR ''/'') img))) @ ''-'' @ take 6 uuid"

definition mac_from_ip :: "ipv4 \<Rightarrow> string" where
  "mac_from_ip = (\<lambda>(a, b, c, d). ''02:00:00:'' @ hex2 b @ '':'' @ hex2 c @ '':'' @ hex2 d)"

definition hex_encode :: "bytes \<Rightarrow> string" where
  "hex_encode bs = concat (map hex2 bs)"

definition encode_argv :: "string list \<Rightarrow> string" where
  "encode_argv argv = hex_encode (bytes_of (join_with [CHR 0x00] argv))"


section \<open>The guest side\<close>

datatype Mode = Workload | Sandbox

record InitConfig =
  ic_workload :: "string option"
  ic_args :: "string list"
  ic_mode :: Mode
  ic_vsock_boot_port :: "u32 option"
  ic_authorized_key :: "string option"
  ic_random_seed :: "bytes option"

definition init_default :: InitConfig where
  "init_default =
     \<lparr> ic_workload = None, ic_args = [], ic_mode = Workload, ic_vsock_boot_port = None, ic_authorized_key = None,
       ic_random_seed = None \<rparr>"

fun hex_pairs :: "string \<Rightarrow> bytes option" where
  "hex_pairs (h # l # rest) =
     (case hex_val h of
        None \<Rightarrow> None
      | Some hi \<Rightarrow>
          (case hex_val l of
             None \<Rightarrow> None
           | Some lo \<Rightarrow> map_option (Cons (push_bit 4 (of_nat hi) OR of_nat lo)) (hex_pairs rest)))"
| "hex_pairs _ = Some []"

definition decode_hex :: "string \<Rightarrow> bytes option" where
  "decode_hex s = (if odd (length s) then None else hex_pairs s)"

definition workload_of :: "string list \<Rightarrow> InitConfig \<Rightarrow> InitConfig" where
  "workload_of argv cfg =
     (case argv of [] \<Rightarrow> cfg | first # rest \<Rightarrow> cfg\<lparr> ic_workload := Some first, ic_args := rest \<rparr>)"

definition init_token :: "string \<Rightarrow> InitConfig \<Rightarrow> InitConfig" where
  "init_token tok cfg =
     (case split_once (CHR ''='') tok of
        None \<Rightarrow> cfg
      | Some (k, v) \<Rightarrow>
          if k = ''mm.workload'' then cfg\<lparr> ic_workload := Some v \<rparr>
          else if k = ''mm.args'' then cfg\<lparr> ic_args := filter (\<lambda>s. s \<noteq> []) (split_on (CHR '','') v) \<rparr>
          else if k = ''mm.workload_argv'' then
            (case decode_hex v of
               None \<Rightarrow> cfg
             | Some bytes \<Rightarrow>
                 workload_of (filter (\<lambda>s. utf8_valid (bytes_of s))
                   (filter (\<lambda>s. s \<noteq> []) (split_on (CHR 0x00) (text_of bytes)))) cfg)
          else if k = ''mm.mode'' \<and> v = ''sandbox'' then cfg\<lparr> ic_mode := Sandbox \<rparr>
          else if k = ''mm.vsock_boot_port'' then
            cfg\<lparr> ic_vsock_boot_port := map_option of_nat (parse_uint (2 ^ 32) v) \<rparr>
          else if k = ''mm.authorized_key'' then
            cfg\<lparr> ic_authorized_key :=
                  (case decode_hex v of
                     None \<Rightarrow> None
                   | Some bytes \<Rightarrow> if utf8_valid bytes then Some (text_of bytes) else None) \<rparr>
          else if k = ''mm.random_seed'' then
            cfg\<lparr> ic_random_seed :=
                  (case decode_hex v of None \<Rightarrow> None | Some bytes \<Rightarrow> if bytes = [] then None else Some bytes) \<rparr>
          else cfg)"

definition init_parse :: "string \<Rightarrow> InitConfig" where
  "init_parse cmdline = fold init_token (split_whitespace cmdline) init_default"


section \<open>Splitting a command line\<close>

lemma split_ws_acc_append:
  "p sp \<Longrightarrow> split_ws_acc p acc (s @ sp # t) = split_ws_acc p acc s @ split_ws_acc p [] t"
  by (induction s arbitrary: acc) auto

lemma split_whitespace_append: "is_ws sp \<Longrightarrow> split_whitespace (s @ sp # t) = split_whitespace s @ split_whitespace t"
  by (simp add: split_whitespace_def split_ws_acc_append)

lemma is_ws_space [simp]: "is_ws (CHR '' '')"
  by (simp add: is_ws_def)

lemma split_whitespace_nil [simp]: "split_whitespace [] = []"
  by (simp add: split_whitespace_def)

definition plain :: "string \<Rightarrow> bool" where
  "plain s \<longleftrightarrow> (\<forall>c \<in> set s. \<not> is_ws c)"

lemma plain_append [simp]: "plain (a @ b) \<longleftrightarrow> plain a \<and> plain b"
  by (auto simp: plain_def)

lemma plain_Cons [simp]: "plain (c # s) \<longleftrightarrow> \<not> is_ws c \<and> plain s"
  by (auto simp: plain_def)

lemma plain_Nil [simp]: "plain []"
  by (simp add: plain_def)

lemma plain_subset: "set s \<subseteq> set t \<Longrightarrow> plain t \<Longrightarrow> plain s"
  by (auto simp: plain_def)

lemma plain_dec [simp]: "plain (dec_of_nat n)"
  by (rule plain_subset [OF dec_of_nat_digits]) (simp add: is_ws_def)

lemma plain_hex2 [simp]: "plain (hex2 b)"
  by (rule plain_subset [OF hex2_chars]) (simp add: is_ws_def)

lemma plain_hex_encode [simp]: "plain (hex_encode bs)"
  by (induction bs) (simp_all add: hex_encode_def)

lemma plain_ip_string [simp]: "plain (ip_string a)"
  by (cases a) (simp add: ip_string_def dec_of_def is_ws_def)

lemma split_whitespace_plain: "plain w \<Longrightarrow> w \<noteq> [] \<Longrightarrow> split_whitespace w = [w]"
  by (simp add: plain_def split_whitespace_word)


section \<open>Hexadecimal round trips\<close>

lemma nibbles_join: "push_bit 4 (of_nat (unat b div 16)) OR of_nat (unat b mod 16) = (b :: u8)"
proof -
  have "unat b < 256" using unsigned_less [of b] by simp
  then have m: "unat b div 16 mod 256 = unat b div 16" "unat b mod 16 mod 256 = unat b mod 16" by simp_all
  have "(of_nat (unat b div 16) :: u8) = drop_bit 4 b"
    using m(1) by (simp add: word_unat_eq_iff unat_of_nat unat_drop_bit)
  moreover have "(of_nat (unat b mod 16) :: u8) = take_bit 4 b"
    using m(2) by (simp add: word_unat_eq_iff unat_of_nat take_bit_eq_mod unat_mod_distrib)
  moreover have "push_bit 4 (drop_bit 4 b) OR take_bit 4 b = b"
  proof (rule bit_word_eqI)
    fix n
    show "bit (push_bit 4 (drop_bit 4 b) OR take_bit 4 b) n = bit b n" if "n < LENGTH(8)"
      using that by (cases "n < 4")
        (auto simp: bit_or_iff bit_push_bit_iff bit_drop_bit_eq bit_take_bit_iff not_less dest!: le_Suc_ex)
  qed
  ultimately show ?thesis by simp
qed

lemma hex_pairs_hex2: "hex_pairs (hex2 b @ s) = map_option (Cons b) (hex_pairs s)"
proof -
  have "unat b < 256" using unsigned_less [of b] by simp
  then have "unat b div 16 < 16" "unat b mod 16 < 16" by (simp_all add: less_mult_imp_div_less)
  then show ?thesis using nibbles_join [of b] by (simp add: hex2_def)
qed

lemma even_length_hex_encode [simp]: "even (length (hex_encode bs))"
  by (induction bs) (simp_all add: hex_encode_def)

lemma decode_hex_encode [simp]: "decode_hex (hex_encode bs) = Some bs"
proof -
  have "hex_pairs (hex_encode bs) = Some bs"
    by (induction bs) (simp_all add: hex_encode_def hex_pairs_hex2)
  then show ?thesis by (simp add: decode_hex_def)
qed

lemma split_on_join_filter:
  assumes "\<forall>a \<in> set xs. c \<notin> set a"
  shows "filter (\<lambda>s. s \<noteq> []) (split_on c (join_with [c] xs)) = filter (\<lambda>s. s \<noteq> []) xs"
  using assms
proof (induction xs)
  case (Cons x xs)
  then show ?case by (cases xs) (auto simp: split_on_no_sep)
qed simp

lemma colon_hex2: "CHR '':'' \<notin> set (hex2 b)"
  using hex2_chars [of b] by auto

lemma mac_from_ip_parts:
  "split_on (CHR '':'') (mac_from_ip (a, b, c, d)) = [''02'', ''00'', ''00'', hex2 b, hex2 c, hex2 d]"
  by (simp add: mac_from_ip_def colon_hex2 split_on_no_sep)

lemma mac_round_trip: "parse_mac (mac_from_ip (a, b, c, d)) = Inr [2, 0, 0, b, c, d]"
proof -
  have "parse_hex 256 ''02'' = Some 2" "parse_hex 256 ''00'' = Some 0" by (simp_all add: parse_hex_def hex_val_def)
  then show ?thesis by (simp add: parse_mac_def mac_from_ip_parts)
qed


section \<open>Parsing what the host built\<close>

lemma init_parse_append: "is_ws sp \<Longrightarrow> init_parse (s @ sp # t) = fold init_token (split_whitespace t) (init_parse s)"
  by (simp add: init_parse_def split_whitespace_append)

text \<open>The device arguments carry nothing for the parser.\<close>

lemma init_token_device: "init_token (''virtio_mmio.device='' @ s) cfg = cfg"
  using split_once_append [of "CHR ''=''" "''virtio_mmio.device''" s] by (simp add: init_token_def)

lemma plain_hex_of_nat [simp]: "plain (hex_of_nat n)"
proof (induction n rule: hex_of_nat.induct)
  case (1 n)
  have "plain [digit_char d]" if "d < 16" for d
    by (rule plain_subset [of _ "''0123456789abcdef''"]) (use hex_digit_char_set [OF that] in \<open>simp_all add: is_ws_def\<close>)
  with 1 show ?case by (subst hex_of_nat.simps) simp
qed

lemma split_device_arg:
  "split_whitespace (s @ device_arg base gsi) =
     split_whitespace s @ [''virtio_mmio.device='' @ ''4K@0x'' @ hex_of_nat (unat base) @ '':'' @ dec_of_nat (unat gsi)]"
proof -
  let ?w = "''virtio_mmio.device='' @ ''4K@0x'' @ hex_of_nat (unat base) @ '':'' @ dec_of_nat (unat gsi)"
  have "plain ?w" by (simp add: is_ws_def)
  then have "split_whitespace ?w = [?w]" by (rule split_whitespace_plain) simp
  then show ?thesis using split_whitespace_append [of "CHR '' ''" s ?w] by (simp add: device_arg_def)
qed

lemma init_parse_layout: "init_parse (s @ layout_of ts) = init_parse s"
proof -
  have "init_parse (s @ concat (map (\<lambda>i. device_arg (f i) (g i)) [0..<n])) = init_parse s" for f g n
  proof (induction n)
    case (Suc n)
    have "s @ concat (map (\<lambda>i. device_arg (f i) (g i)) [0..<Suc n]) =
        (s @ concat (map (\<lambda>i. device_arg (f i) (g i)) [0..<n])) @ device_arg (f n) (g n)" by simp
    with Suc show ?case
      unfolding init_parse_def by (simp only: split_device_arg fold_append comp_def fold.simps init_token_device id_def)
  qed simp
  then show ?thesis by (simp add: layout_of_def)
qed

text \<open>The fixed words of the command line, the static address and the mode.\<close>

lemma split_fixed:
  "split_whitespace (''console=ttyS0 root=/dev/vda ro init=/init reboot=t panic=1 '' @ FAST_BOOT_ARGS @ '' '' @ s) =
     [''console=ttyS0'', ''root=/dev/vda'', ''ro'', ''init=/init'', ''reboot=t'', ''panic=1'', ''pci=off'',
      ''8250.nr_uarts=1''] @ split_whitespace s"
  by (simp add: FAST_BOOT_ARGS_def split_whitespace_def is_ws_def)

lemma init_fixed:
  "init_parse (''console=ttyS0 root=/dev/vda ro init=/init reboot=t panic=1 '' @ FAST_BOOT_ARGS @ '' '' @ s) =
     fold init_token (split_whitespace s) init_default"
  unfolding init_parse_def split_fixed by (simp add: init_token_def)

lemma init_word:
  assumes "plain w" "w \<noteq> []"
  shows "fold init_token (split_whitespace (w @ '' '' @ s)) cfg = fold init_token (split_whitespace s) (init_token w cfg)"
    "fold init_token (split_whitespace w) cfg = init_token w cfg"
  using split_whitespace_append [of "CHR '' ''" w s] split_whitespace_plain [OF assms] by simp_all

lemma plain_ip_cmdline: "plain hostname \<Longrightarrow> plain (ip_cmdline a g m hostname ''eth0'')"
  by (simp add: ip_cmdline_def is_ws_def)

lemma init_ip: "init_token (ip_cmdline a g m hostname iface) cfg = cfg"
proof -
  obtain rest where r: "ip_cmdline a g m hostname iface = ''ip'' @ CHR ''='' # rest" by (simp add: ip_cmdline_def)
  show ?thesis unfolding r init_token_def by (subst split_once_append) simp_all
qed

definition mode_word :: "string list option \<Rightarrow> string" where
  "mode_word argv = (case argv of Some a \<Rightarrow> ''mm.workload_argv='' @ encode_argv a | None \<Rightarrow> ''mm.mode=sandbox'')"

lemma plain_mode_word: "plain (mode_word argv)" "mode_word argv \<noteq> []"
  by (simp_all add: mode_word_def encode_argv_def is_ws_def split: option.splits)

lemma init_mode_word:
  assumes "\<And>a. argv = Some a \<Longrightarrow> \<forall>s \<in> set a. CHR 0x00 \<notin> set s \<and> utf8_valid (bytes_of s)"
  shows "init_token (mode_word argv) cfg =
    (case argv of
       None \<Rightarrow> cfg\<lparr> ic_mode := Sandbox \<rparr>
     | Some a \<Rightarrow> workload_of (filter (\<lambda>s. s \<noteq> []) a) cfg)"
proof (cases argv)
  case None
  then show ?thesis by (simp add: mode_word_def init_token_def)
next
  case (Some a)
  have k: "init_token (''mm.workload_argv'' @ CHR ''='' # v) cfg =
      (case decode_hex v of
         None \<Rightarrow> cfg
       | Some bytes \<Rightarrow> workload_of (filter (\<lambda>s. utf8_valid (bytes_of s))
           (filter (\<lambda>s. s \<noteq> []) (split_on (CHR 0x00) (text_of bytes)))) cfg)" for v
    unfolding init_token_def by (subst split_once_append) (simp_all split: option.splits)
  have "filter (\<lambda>s. utf8_valid (bytes_of s)) (filter (\<lambda>s. s \<noteq> []) a) = filter (\<lambda>s. s \<noteq> []) a"
    using assms [OF Some] by (auto intro: filter_cong)
  moreover have "\<forall>s \<in> set a. CHR 0x00 \<notin> set s" using assms [OF Some] by blast
  ultimately show ?thesis
    using k [of "encode_argv a"] Some by (simp add: mode_word_def encode_argv_def split_on_join_filter)
qed

lemma init_key:
  assumes "ic_authorized_key cfg = None" "\<forall>k. key = Some k \<longrightarrow> utf8_valid k"
  shows "(case map_option (\<lambda>k. ''mm.authorized_key='' @ hex_encode k) key of Some w \<Rightarrow> init_token w | None \<Rightarrow> id) cfg =
    cfg\<lparr> ic_authorized_key := map_option text_of key \<rparr>"
proof (cases key)
  case (Some k)
  then show ?thesis
    using assms split_once_append [of "CHR ''=''" "''mm.authorized_key''" "hex_encode k"] by (simp add: init_token_def)
qed (use assms in simp)

lemma init_seed:
  assumes "ic_random_seed cfg = None" "seed \<noteq> Some []"
  shows "(case map_option (\<lambda>k. ''mm.random_seed='' @ hex_encode k) seed of Some w \<Rightarrow> init_token w | None \<Rightarrow> id)
      (cfg\<lparr> ic_authorized_key := key \<rparr>) = cfg\<lparr> ic_authorized_key := key, ic_random_seed := seed \<rparr>"
proof (cases seed)
  case (Some k)
  then show ?thesis
    using assms split_once_append [of "CHR ''=''" "''mm.random_seed''" "hex_encode k"] by (simp add: init_token_def)
qed (use assms in simp)

lemma init_words:
  assumes "plain w1" "w1 \<noteq> []" "plain w2" "w2 \<noteq> []"
    "\<And>w. w3 = Some w \<Longrightarrow> plain w \<and> w \<noteq> []" "\<And>w. w4 = Some w \<Longrightarrow> plain w \<and> w \<noteq> []"
  shows "fold init_token (split_whitespace (w1 @ '' '' @ w2
      @ (case w3 of Some w \<Rightarrow> '' '' @ w | None \<Rightarrow> []) @ (case w4 of Some w \<Rightarrow> '' '' @ w | None \<Rightarrow> []))) cfg =
    (case w4 of Some w \<Rightarrow> init_token w | None \<Rightarrow> id)
      ((case w3 of Some w \<Rightarrow> init_token w | None \<Rightarrow> id) (init_token w2 (init_token w1 cfg)))"
  using assms init_word [of w1] init_word [of w2] init_word [of "the w3"] init_word [of "the w4"]
  by (auto split: option.splits)

lemma build_vm_config_line:
  "kernel_cmdline (build_vm_config cpus mem kern root ip gw netmask hostname tap macaddr (map_option encode_argv argv)
     (map_option hex_encode key) (map_option hex_encode seed)) =
   ''console=ttyS0 root=/dev/vda ro init=/init reboot=t panic=1 '' @ FAST_BOOT_ARGS @ '' '' @
   (ip_cmdline ip gw netmask hostname ''eth0'' @ '' '' @ mode_word argv @
    (case map_option (\<lambda>k. ''mm.authorized_key='' @ hex_encode k) key of Some w \<Rightarrow> '' '' @ w | None \<Rightarrow> []) @
    (case map_option (\<lambda>k. ''mm.random_seed='' @ hex_encode k) seed of Some w \<Rightarrow> '' '' @ w | None \<Rightarrow> []))"
  by (simp add: build_vm_config_def Let_def mode_word_def split: option.splits)

text \<open>C12: The guest's init process recovers what the launcher put on the kernel command line.  For every machine name
  without white space, every command of UTF-8 arguments without NUL bytes, every UTF-8 key and every non-empty seed, the
  parser, run on the line built for the VM with the arguments of any list of virtio devices appended, returns the
  command with its empty arguments left out, the mode, the key and the seed; and the address built for the network device
  is one the VMM's own parser of MAC addresses accepts, with the last three octets of the guest's IP address.
\<close>

theorem guest_init_recovers_launch:
  assumes "\<forall>c \<in> set hostname. \<not> is_ws c"
    and "\<forall>a. argv = Some a \<longrightarrow> (\<forall>s \<in> set a. CHR 0x00 \<notin> set s \<and> utf8_valid (bytes_of s))"
    and "\<forall>k. key = Some k \<longrightarrow> utf8_valid k" "seed \<noteq> Some []"
  shows "init_parse (kernel_cmdline (build_vm_config cpus mem kern root ip gw netmask hostname tap (mac_from_ip ip)
            (map_option encode_argv argv) (map_option hex_encode key) (map_option hex_encode seed)) @ layout_of ts) =
         (case argv of
            None \<Rightarrow> init_default\<lparr> ic_mode := Sandbox \<rparr>
          | Some a \<Rightarrow> workload_of (filter (\<lambda>s. s \<noteq> []) a) init_default)
           \<lparr> ic_authorized_key := map_option text_of key, ic_random_seed := seed \<rparr> \<and>
         parse_mac (mac_from_ip ip) = Inr [2, 0, 0, fst (snd ip), fst (snd (snd ip)), snd (snd (snd ip))]"
proof
  let ?cfg = "case argv of None \<Rightarrow> init_default\<lparr> ic_mode := Sandbox \<rparr>
    | Some a \<Rightarrow> workload_of (filter (\<lambda>s. s \<noteq> []) a) init_default"
  have host: "plain (ip_cmdline ip gw netmask hostname ''eth0'')" "ip_cmdline ip gw netmask hostname ''eth0'' \<noteq> []"
    using assms(1) by (auto intro!: plain_ip_cmdline simp: plain_def [of hostname]) (simp add: ip_cmdline_def)
  let ?key = "map_option (\<lambda>k. ''mm.authorized_key='' @ hex_encode k) key"
  let ?seed = "map_option (\<lambda>k. ''mm.random_seed='' @ hex_encode k) seed"
  have words: "plain w \<and> w \<noteq> []" if "?key = Some w \<or> ?seed = Some w" for w
    using that by (auto simp: is_ws_def)
  have "init_token (mode_word argv) init_default = ?cfg"
    by (rule init_mode_word) (use assms(2) in blast)
  moreover have "ic_authorized_key ?cfg = None" "ic_random_seed ?cfg = None"
    by (simp_all add: init_default_def workload_of_def split: option.splits list.splits)
  ultimately show "init_parse (kernel_cmdline (build_vm_config cpus mem kern root ip gw netmask hostname tap (mac_from_ip ip)
            (map_option encode_argv argv) (map_option hex_encode key) (map_option hex_encode seed)) @ layout_of ts) =
         ?cfg\<lparr> ic_authorized_key := map_option text_of key, ic_random_seed := seed \<rparr>"
    unfolding init_parse_layout build_vm_config_line init_fixed
    by (subst init_words [OF host plain_mode_word words words])
      (simp_all only: init_ip init_key [OF _ assms(3)] init_seed [OF _ assms(4)] InitConfig.simps simp_thms)
  show "parse_mac (mac_from_ip ip) = Inr [2, 0, 0, fst (snd ip), fst (snd (snd ip)), snd (snd (snd ip))]"
    using mac_round_trip by (cases ip) simp
qed

theorem guest_init_recovers_launch_witness:
  "init_parse (kernel_cmdline (build_vm_config 1 256 ''/vmlinux'' ''/rootfs.ext4'' (10, 0, 0, 2) (10, 0, 0, 1) NETMASK ''web''
      ''mm-web'' (mac_from_ip (10, 0, 0, 2)) (map_option encode_argv (Some [''/bin/sh'', ''-c'', [], ''echo hi, you'']))
      (map_option hex_encode (Some (bytes_of ''ssh-ed25519 AAAA''))) (map_option hex_encode (Some [1, 2, 3]))) @ layout_of [2, 1]) =
     \<lparr> ic_workload = Some ''/bin/sh'', ic_args = [''-c'', ''echo hi, you''], ic_mode = Workload, ic_vsock_boot_port = None,
       ic_authorized_key = Some ''ssh-ed25519 AAAA'', ic_random_seed = Some [1, 2, 3] \<rparr> \<and>
   parse_mac (mac_from_ip (10, 0, 0, 2)) = Inr [2, 0, 0, 0, 0, 2]"
proof -
  have ascii: "utf8_valid (bytes_of ''/bin/sh'')" "utf8_valid (bytes_of ''-c'')" "utf8_valid (bytes_of ''echo hi, you'')"
    "utf8_valid (bytes_of ''ssh-ed25519 AAAA'')" "utf8_valid (bytes_of [])"
    by (simp_all add: bytes_of_def)
  show ?thesis
    by (subst guest_init_recovers_launch [THEN conjunct1], simp add: is_ws_def, simp add: ascii, simp add: ascii, simp,
        subst guest_init_recovers_launch [where argv = None and key = None and seed = None and hostname = "[]", THEN conjunct2])
      (simp_all add: workload_of_def init_default_def)
qed

end
