(* ===== verification/Launch.thy ===== *)
theory Launch
  imports Guest_Init
begin

text \<open>
  The privileged launcher (\<open>crates/mm-host/src/launch.rs\<close>): a cold boot and a restore of a machine, from the
  reservation of its address to the spawn of its jailed worker.  The host is a file system and the list of network
  commands run so far.  What the launcher asks of the system around it (the commands, the TUN device, \<open>/dev/kvm\<close>, the image
  store, \<open>ssh-keygen\<close>, \<open>/dev/urandom\<close>, the JSON writer, the spawn itself) is a field of \<open>launch_env\<close>; every file system
  call may also fail.  A hard link is a copy of the node: after linking a file the launcher changes its mode and owner,
  never its contents.
\<close>

section \<open>The host\<close>

type_synonym path = "string list"

datatype kind = Regular bytes | Directory | Socket

record node =
  nd_kind :: kind
  nd_mode :: u32
  nd_owner :: "u32 \<times> u32"

type_synonym fs = "path \<Rightarrow> node option"

record host =
  ho_fs :: fs
  ho_log :: "cmd list"

datatype fsop = Mkdir | HardLink | CopyFile | Chmod | Stat | Chown | WriteFile | ReadFile | Unlink | Bind | OpenLog | DupHandle

record worker_call =
  wc_exe :: string
  wc_args :: "string list"
  wc_fds :: "(nat \<times> nat) list"
  wc_detach :: bool

record launch_env =
  le_tools :: tools
  le_tun :: "string + nat"
  le_setiff :: "nat \<Rightarrow> string \<Rightarrow> string + unit"
  le_persist :: "nat \<Rightarrow> string + unit"
  le_setns :: "string \<Rightarrow> string + unit"
  le_egress :: "string option"
  le_route :: "string option"
  le_rootfs :: "string \<Rightarrow> path \<Rightarrow> path option \<Rightarrow> fs \<Rightarrow> (string + path) \<times> fs"
  le_argv :: "string \<Rightarrow> string + string list"
  le_kvm :: "string + nat"
  le_fault :: "fsop \<Rightarrow> path \<Rightarrow> bool"
  le_keygen :: "path \<Rightarrow> fs \<Rightarrow> exit \<times> fs"
  le_urandom :: "bytes option"
  le_json :: "VmConfig \<Rightarrow> string + bytes"
  le_bind :: "path \<Rightarrow> nat"
  le_exe :: "string + string"
  le_no_userns :: bool
  le_spawn :: "worker_call \<Rightarrow> string + u32"

type_synonym 'a host_act = "host \<Rightarrow> (string + 'a) \<times> host"

definition act_bind :: "'a host_act \<Rightarrow> ('a \<Rightarrow> 'b host_act) \<Rightarrow> 'b host_act" where
  "act_bind f g h = (case f h of (Inl e, h') \<Rightarrow> (Inl e, h') | (Inr x, h') \<Rightarrow> g x h')"

definition act_return :: "'a \<Rightarrow> 'a host_act" where
  "act_return x h = (Inr x, h)"

definition act_lift :: "string + 'a \<Rightarrow> 'a host_act" where
  "act_lift r h = (r, h)"

text \<open>\<open>with_context\<close> on a network operation: its error is replaced by the context.\<close>

definition net :: "string \<Rightarrow> 'a hostop \<Rightarrow> 'a host_act" where
  "net ctx op h =
     (case op (ho_log h) of
        (Inl e, log) \<Rightarrow> (Inl ctx, h\<lparr> ho_log := log \<rparr>)
      | (Inr x, log) \<Rightarrow> (Inr x, h\<lparr> ho_log := log \<rparr>))"

text \<open>A path as the commands see it.\<close>

definition path_string :: "path \<Rightarrow> string" where
  "path_string p = concat (map (\<lambda>c. ''/'' @ c) p)"


section \<open>File system calls\<close>

definition fs_exists :: "launch_env \<Rightarrow> path \<Rightarrow> fs \<Rightarrow> bool" where
  "fs_exists E p m \<longleftrightarrow> \<not> le_fault E Stat p \<and> m p \<noteq> None"

definition is_regular :: "node option \<Rightarrow> bool" where
  "is_regular n \<longleftrightarrow> (case n of Some nd \<Rightarrow> (case nd_kind nd of Regular _ \<Rightarrow> True | _ \<Rightarrow> False) | None \<Rightarrow> False)"

definition is_dir :: "node option \<Rightarrow> bool" where
  "is_dir n \<longleftrightarrow> (case n of Some nd \<Rightarrow> nd_kind nd = Directory | None \<Rightarrow> False)"

definition new_node :: "kind \<Rightarrow> u32 \<Rightarrow> node" where
  "new_node k m = \<lparr> nd_kind = k, nd_mode = m, nd_owner = (0, 0) \<rparr>"

text \<open>\<open>create_dir_all\<close>: every missing directory on the way is made, or none when the call fails.\<close>

definition create_dir_all :: "launch_env \<Rightarrow> path \<Rightarrow> unit host_act" where
  "create_dir_all E p h =
     (if le_fault E Mkdir p \<or> (\<exists>n \<le> length p. ho_fs h (take n p) \<noteq> None \<and> \<not> is_dir (ho_fs h (take n p)))
      then (Inl (''creating '' @ path_string p), h)
      else (Inr (), h\<lparr> ho_fs := (\<lambda>q. if ho_fs h q = None \<and> q = take (length q) p then Some (new_node Directory 0x1ed)
                                     else ho_fs h q) \<rparr>))"

definition hard_link :: "launch_env \<Rightarrow> path \<Rightarrow> path \<Rightarrow> fs \<Rightarrow> fs option" where
  "hard_link E src dst m =
     (if le_fault E HardLink dst \<or> \<not> is_regular (m src) \<or> m dst \<noteq> None \<or> \<not> is_dir (m (butlast dst)) then None
      else Some (m(dst := m src)))"

definition copy_file :: "launch_env \<Rightarrow> path \<Rightarrow> path \<Rightarrow> fs \<Rightarrow> fs option" where
  "copy_file E src dst m =
     (if le_fault E CopyFile dst \<or> \<not> is_regular (m src) \<or> \<not> is_dir (m (butlast dst)) then None
      else Some (m(dst := map_option (\<lambda>n. n\<lparr> nd_owner := (0, 0) \<rparr>) (m src))))"

definition update_node :: "launch_env \<Rightarrow> fsop \<Rightarrow> string \<Rightarrow> path \<Rightarrow> (node \<Rightarrow> node) \<Rightarrow> unit host_act" where
  "update_node E op ctx p f h =
     (case ho_fs h p of
        None \<Rightarrow> (Inl (ctx @ path_string p), h)
      | Some n \<Rightarrow> if le_fault E op p then (Inl (ctx @ path_string p), h)
                  else (Inr (), h\<lparr> ho_fs := (ho_fs h)(p := Some (f n)) \<rparr>))"

text \<open>\<open>std::fs::write\<close>: the file is created or truncated.\<close>

definition write_file :: "launch_env \<Rightarrow> path \<Rightarrow> bytes \<Rightarrow> unit host_act" where
  "write_file E p bs h =
     (if le_fault E WriteFile p \<or> \<not> (ho_fs h p = None \<and> is_dir (ho_fs h (butlast p)) \<or> is_regular (ho_fs h p))
      then (Inl (''writing '' @ path_string p), h)
      else (Inr (), h\<lparr> ho_fs := (ho_fs h)(p \<mapsto>
              (case ho_fs h p of None \<Rightarrow> new_node (Regular bs) 0x1a4 | Some n \<Rightarrow> n\<lparr> nd_kind := Regular bs \<rparr>)) \<rparr>))"


section \<open>Helpers of the launcher\<close>

abbreviation SUBNET_BASE :: "u8 \<times> u8 \<times> u8" where "SUBNET_BASE \<equiv> (10, 0, 0)"
abbreviation SUBNET_CIDR :: string where "SUBNET_CIDR \<equiv> ''10.0.0.0/24''"
abbreviation BRIDGE :: string where "BRIDGE \<equiv> ''mm-br0''"
abbreviation WORKER_UID :: u32 where "WORKER_UID \<equiv> 65534"
abbreviation WORKER_GID :: u32 where "WORKER_GID \<equiv> 65534"

definition chown_to_worker :: "launch_env \<Rightarrow> path \<Rightarrow> unit host_act" where
  "chown_to_worker E p =
     (if CHR 0x00 \<in> set (path_string p) then act_lift (Inl (''path has interior NUL: '' @ path_string p))
      else update_node E Chown ''chown '' p (\<lambda>n. n\<lparr> nd_owner := (WORKER_UID, WORKER_GID) \<rparr>))"

definition link_or_copy :: "launch_env \<Rightarrow> path \<Rightarrow> path \<Rightarrow> unit host_act" where
  "link_or_copy E src dst h =
     (if fs_exists E dst (ho_fs h) then (Inr (), h)
      else case hard_link E src dst (ho_fs h) of
             Some m \<Rightarrow> (Inr (), h\<lparr> ho_fs := m \<rparr>)
           | None \<Rightarrow>
               (case copy_file E src dst (ho_fs h) of
                  None \<Rightarrow> (Inl (''copying '' @ path_string src @ '' -> '' @ path_string dst), h)
                | Some m \<Rightarrow> (Inr (), h\<lparr> ho_fs := m \<rparr>)))"

fun each :: "('x \<Rightarrow> unit host_act) \<Rightarrow> 'x list \<Rightarrow> unit host_act" where
  "each f [] = act_return ()"
| "each f (x # xs) = act_bind (f x) (\<lambda>_. each f xs)"

definition link_snapshot_dir :: "launch_env \<Rightarrow> path \<Rightarrow> path \<Rightarrow> unit host_act" where
  "link_snapshot_dir E src dst =
     each (\<lambda>f. act_bind (link_or_copy E (src @ [f]) (dst @ [f])) (\<lambda>_. chown_to_worker E (dst @ [f])))
       [''manifest.json'', ''state.bin'', ''memory.bin'']"

function verify_path_traversable :: "launch_env \<Rightarrow> fs \<Rightarrow> path \<Rightarrow> string + unit" where
  "verify_path_traversable E m p =
     (case m p of
        Some n \<Rightarrow>
          if \<not> le_fault E Stat p \<and> nd_kind n = Directory \<and> nd_mode n AND 1 = 0
          then Inl (''directory '' @ path_string p @ '' is not world-traversable'')
          else if p = [] then Inr () else verify_path_traversable E m (butlast p)
      | None \<Rightarrow> if p = [] then Inr () else verify_path_traversable E m (butlast p))"
  by pat_completeness auto
termination
  by (relation "measure (\<lambda>(E, m, p). length p)") auto

declare verify_path_traversable.simps [simp del]

definition readable_file :: "launch_env \<Rightarrow> path \<Rightarrow> unit host_act" where
  "readable_file E f =
     act_bind (update_node E Chmod ''chmod 0644 '' f (\<lambda>n. n\<lparr> nd_mode := 0x1a4 \<rparr>)) (\<lambda>_ h.
       case ho_fs h f of
         None \<Rightarrow> (Inl (''stat '' @ path_string f), h)
       | Some n \<Rightarrow>
           if le_fault E Stat f then (Inl (''stat '' @ path_string f), h)
           else if nd_mode n AND 4 = 0 then (Inl (path_string f @ '' is not world-readable''), h)
           else (Inr (), h))"

definition prepare_jail_permissions :: "launch_env \<Rightarrow> path \<Rightarrow> path \<Rightarrow> path list \<Rightarrow> unit host_act" where
  "prepare_jail_permissions E jail jail_root files =
     act_bind (each (\<lambda>d. update_node E Chmod ''chmod 0755 '' d (\<lambda>n. n\<lparr> nd_mode := 0x1ed \<rparr>)) [butlast jail, jail, jail_root]) (\<lambda>_.
     act_bind (each (readable_file E) files) (\<lambda>_ h.
       (verify_path_traversable E (ho_fs h) jail_root, h)))"

text \<open>A stale socket is removed first.\<close>

definition bind_vsock_listener :: "launch_env \<Rightarrow> path \<Rightarrow> nat host_act" where
  "bind_vsock_listener E p h =
     (let m = (case ho_fs h p of
                 Some n \<Rightarrow> if \<not> le_fault E Stat p \<and> nd_kind n = Socket \<and> \<not> le_fault E Unlink p then (ho_fs h)(p := None)
                           else ho_fs h
               | None \<Rightarrow> ho_fs h) in
      if m p \<noteq> None \<or> le_fault E Bind p \<or> \<not> is_dir (m (butlast p))
      then (Inl (''binding vsock bridge socket '' @ path_string p), h\<lparr> ho_fs := m \<rparr>)
      else (Inr (le_bind E p), h\<lparr> ho_fs := m(p \<mapsto> new_node Socket 0x1ed) \<rparr>))"

definition trim_newlines :: "bytes \<Rightarrow> bytes" where
  "trim_newlines bs =
     (case rev (dropWhile (\<lambda>b. b = 10 \<or> b = 13) (rev bs)) of [] \<Rightarrow> bs | t \<Rightarrow> t)"

definition make_ssh_key :: "launch_env \<Rightarrow> path \<Rightarrow> path \<Rightarrow> unit host_act" where
  "make_ssh_key E key pubkey h =
     (if fs_exists E pubkey (ho_fs h) then (Inr (), h)
      else case le_keygen E key (ho_fs h) of (x, m) \<Rightarrow>
        ((case x of
            NotStarted \<Rightarrow> Inl ''running ssh-keygen (is OpenSSH installed?)''
          | Failed e \<Rightarrow> Inl (''ssh-keygen failed with '' @ e)
          | Succeeded \<Rightarrow> Inr ()), h\<lparr> ho_fs := m \<rparr>))"

definition read_file :: "launch_env \<Rightarrow> path \<Rightarrow> bytes host_act" where
  "read_file E p h =
     ((case ho_fs h p of
         Some n \<Rightarrow>
           (case nd_kind n of
              Regular bs \<Rightarrow> if le_fault E ReadFile p then Inl (''reading '' @ path_string p) else Inr bs
            | _ \<Rightarrow> Inl (''reading '' @ path_string p))
       | None \<Rightarrow> Inl (''reading '' @ path_string p)), h)"

definition ensure_ssh_key :: "launch_env \<Rightarrow> path \<Rightarrow> string option host_act" where
  "ensure_ssh_key E root =
     (let dir = root @ [''ssh'']; key = dir @ [''id_ed25519'']; pubkey = dir @ [''id_ed25519.pub''] in
      act_bind (create_dir_all E dir) (\<lambda>_.
      act_bind (make_ssh_key E key pubkey) (\<lambda>_.
      act_bind (read_file E pubkey) (\<lambda>contents.
      act_return (Some (hex_encode (trim_newlines contents)))))))"

definition host_random_seed_hex :: "launch_env \<Rightarrow> string option" where
  "host_random_seed_hex E = map_option hex_encode (le_urandom E)"

fun after_dev :: "string list \<Rightarrow> string option" where
  "after_dev [] = None"
| "after_dev (t # ts) = (if t = ''dev'' then (case ts of [] \<Rightarrow> None | i # _ \<Rightarrow> Some i) else after_dev ts)"

definition default_egress_iface :: "launch_env \<Rightarrow> string option" where
  "default_egress_iface E =
     (case le_egress E of
        Some i \<Rightarrow> Some i
      | None \<Rightarrow> (case le_route E of None \<Rightarrow> None | Some out \<Rightarrow> after_dev (split_whitespace out)))"

definition egress_or_eth0 :: "launch_env \<Rightarrow> string" where
  "egress_or_eth0 E = (case default_egress_iface E of Some i \<Rightarrow> i | None \<Rightarrow> ''eth0'')"

definition open_tun_in_netns :: "launch_env \<Rightarrow> string \<Rightarrow> string \<Rightarrow> HostNetError + nat" where
  "open_tun_in_netns E netns tap =
     (case le_setns E (''/run/netns/'' @ netns) of
        Inl e \<Rightarrow> Inl (IoError e)
      | Inr _ \<Rightarrow> open_tun (le_tun E) (le_setiff E) tap)"

definition spawn_worker ::
  "launch_env \<Rightarrow> path \<Rightarrow> nat \<Rightarrow> nat \<Rightarrow> nat \<Rightarrow> nat \<Rightarrow> path \<Rightarrow> string \<Rightarrow> string \<Rightarrow> u64 \<Rightarrow> bool \<Rightarrow> path \<Rightarrow> string option
   \<Rightarrow> u32 host_act" where
  "spawn_worker E config kvm tap vsock control chroot cgroup cpu_max mem_max detach log_path restore_dir =
     act_bind (act_lift (le_exe E)) (\<lambda>exe.
     act_bind
       (\<lambda>h. if \<not> detach then (Inr (), h)
            else if le_fault E OpenLog log_path \<or>
                    \<not> (ho_fs h log_path = None \<and> is_dir (ho_fs h (butlast log_path)) \<or> is_regular (ho_fs h log_path))
            then (Inl (''opening console log '' @ path_string log_path), h)
            else let h' = h\<lparr> ho_fs := (case ho_fs h log_path of
                                 None \<Rightarrow> (ho_fs h)(log_path \<mapsto> new_node (Regular []) 0x1a4)
                               | Some _ \<Rightarrow> ho_fs h) \<rparr> in
                 if le_fault E DupHandle log_path then (Inl ''cloning console log handle'', h') else (Inr (), h')) (\<lambda>_.
     act_lift (le_spawn E
       \<lparr> wc_exe = exe,
         wc_args =
           [''__vmm-worker'', ''--config'', path_string config, ''--kvm-fd'', ''10'', ''--tap-fd'', ''11'',
            ''--vsock-fd'', ''12'', ''--control-fd'', ''13'', ''--chroot'', path_string chroot, ''--uid'', dec_of WORKER_UID,
            ''--gid'', dec_of WORKER_GID, ''--cgroup'', cgroup, ''--cpu-max'', cpu_max, ''--mem-max'', dec_of mem_max] @
           (case restore_dir of Some d \<Rightarrow> [''--restore-dir'', d] | None \<Rightarrow> []) @
           (if le_no_userns E then [] else [''--user-namespace'']),
         wc_fds = [(kvm, 10), (tap, 11), (vsock, 12), (control, 13)], wc_detach = detach \<rparr>)))"


section \<open>Launching and restoring a machine\<close>

record LaunchSpec =
  ls_image :: string
  ls_name :: string
  ls_cpus :: u8
  ls_memory_mib :: u64
  ls_ssh :: bool
  ls_detach :: bool
  ls_state_root :: path
  ls_kernel_path :: path
  ls_mm_init_path :: path
  ls_sshd_path :: "path option"
  ls_reserved_ips :: "ipv4 list"

record CloneNetConfig =
  cn_index :: u32
  cn_internal_ip :: ipv4
  cn_clone_ip :: ipv4
  cn_upstream :: "string option"

record RestoreSpec =
  rs_name :: string
  rs_snapshot_dir :: path
  rs_rootfs_path :: path
  rs_kernel_path :: path
  rs_cpus :: u8
  rs_memory_mib :: u64
  rs_detach :: bool
  rs_state_root :: path
  rs_reserved_ips :: "ipv4 list"
  rs_clone_net :: "CloneNetConfig option"

record LaunchOutcome =
  lo_name :: string
  lo_ip :: ipv4
  lo_tap_name :: string
  lo_pid :: u32
  lo_console_log :: path
  lo_vsock_path :: path
  lo_control_path :: path

definition alloc_bridge_net :: "launch_env \<Rightarrow> ipv4 list \<Rightarrow> string \<Rightarrow> (ipv4 \<times> ipv4 \<times> string \<times> nat) host_act" where
  "alloc_bridge_net E reserved name =
     (case allocate (fold reserve reserved (ipam_new SUBNET_BASE 1)) of
        (Inl _, _) \<Rightarrow> act_lift (Inl ''guest IP pool exhausted'')
      | (Inr ip, pool) \<Rightarrow>
          (let gw = gateway pool; tapn = ''mm-'' @ name in
           act_bind (net ''ensuring bridge'' (ensure_bridge (le_tools E) BRIDGE gw 24)) (\<lambda>_.
           act_bind (net ''creating TAP'' (create_tap (le_tools E) (le_tun E) (le_setiff E) (le_persist E) tapn BRIDGE)) (\<lambda>tap.
           act_bind (net ''enabling NAT'' (enable_nat (le_tools E) SUBNET_CIDR (egress_or_eth0 E))) (\<lambda>_.
           act_return (ip, gw, tapn, snd tap))))))"

definition clone_network :: "launch_env \<Rightarrow> string \<Rightarrow> CloneNetConfig \<Rightarrow> (ipv4 \<times> ipv4 \<times> ipv4 \<times> string \<times> nat) host_act" where
  "clone_network E name cn =
     (let upstream = (case cn_upstream cn of Some u \<Rightarrow> u | None \<Rightarrow> egress_or_eth0 E);
          tname = ''mmtap'' @ dec_of (cn_index cn) in
      case plan_new (cn_index cn) name (cn_internal_ip cn) (cn_clone_ip cn) upstream tname of
        None \<Rightarrow> act_lift (Inl (''clone index '' @ dec_of (cn_index cn) @ '' overflows the veth /16''))
      | Some plan \<Rightarrow>
          act_bind (net ''creating clone netns'' (create_netns (le_tools E) plan)) (\<lambda>_ h.
            case act_bind
                   (act_lift (case open_tun_in_netns E (cp_netns plan) (cp_tap plan) of
                                Inl _ \<Rightarrow> Inl ''opening TAP inside the clone netns'' | Inr f \<Rightarrow> Inr f)) (\<lambda>f.
                 act_bind (net ''wiring clone networking'' (wire_clone_net (le_tools E) plan)) (\<lambda>_. act_return f)) h of
              (Inr f, h1) \<Rightarrow>
                (Inr (cn_clone_ip cn, cn_internal_ip cn, internal_gateway (cn_internal_ip cn), tname, f), h1)
            | (Inl e, h1) \<Rightarrow> (Inl e, snd (net [] (teardown_clone_net (le_tools E) plan) h1))))"

definition jail_files :: "launch_env \<Rightarrow> path \<Rightarrow> path \<Rightarrow> path \<Rightarrow> unit host_act" where
  "jail_files E jail kernel_path rootfs_path =
     (let jail_root = jail @ [''root'']; jail_kernel = jail_root @ [''vmlinux'']; jail_rootfs = jail_root @ [''rootfs.ext4''] in
      act_bind (create_dir_all E jail_root) (\<lambda>_.
      act_bind (link_or_copy E kernel_path jail_kernel) (\<lambda>_.
      act_bind (link_or_copy E rootfs_path jail_rootfs) (\<lambda>_.
      prepare_jail_permissions E jail jail_root [jail_kernel, jail_rootfs]))))"

definition worker_dir :: "launch_env \<Rightarrow> path \<Rightarrow> unit host_act" where
  "worker_dir E d = act_bind (create_dir_all E d) (\<lambda>_. chown_to_worker E d)"

definition start_worker ::
  "launch_env \<Rightarrow> string \<Rightarrow> path \<Rightarrow> VmConfig \<Rightarrow> bool \<Rightarrow> nat \<Rightarrow> nat \<Rightarrow> string option \<Rightarrow> ipv4 \<Rightarrow> string \<Rightarrow> LaunchOutcome host_act" where
  "start_worker E name jail cfg detach kvm tap restore_dir ip tapn =
     act_bind (act_lift (case validate cfg of Inl _ \<Rightarrow> Inl ''validating VM config'' | Inr u \<Rightarrow> Inr u)) (\<lambda>_.
     act_bind (act_lift (le_json E cfg)) (\<lambda>json.
     act_bind (write_file E (jail @ [''config.json'']) json) (\<lambda>_.
     act_bind (bind_vsock_listener E (jail @ [''vsock.sock''])) (\<lambda>vsock.
     act_bind (bind_vsock_listener E (jail @ [''control.sock''])) (\<lambda>control.
     act_bind (spawn_worker E (jail @ [''config.json'']) kvm tap vsock control (jail @ [''root''])
                 (''micro_machines/'' @ name) (dec_of (ucast (vcpus cfg) * 100000 :: u64) @ '' 100000'')
                 (memory_mib cfg * 1024 * 1024) detach (jail @ [''console.log'']) restore_dir) (\<lambda>pid.
     act_return \<lparr> lo_name = name, lo_ip = ip, lo_tap_name = tapn, lo_pid = pid, lo_console_log = jail @ [''console.log''],
                  lo_vsock_path = jail @ [''vsock.sock''], lo_control_path = jail @ [''control.sock''] \<rparr>))))))"

definition build_rootfs :: "launch_env \<Rightarrow> LaunchSpec \<Rightarrow> path host_act" where
  "build_rootfs E spec h =
     (case le_rootfs E (ls_image spec) (ls_mm_init_path spec) (ls_sshd_path spec) (ho_fs h) of
        (r, m) \<Rightarrow> ((case r of Inl _ \<Rightarrow> Inl (''building rootfs for '' @ ls_image spec) | Inr p \<Rightarrow> Inr p), h\<lparr> ho_fs := m \<rparr>))"

definition launch :: "launch_env \<Rightarrow> LaunchSpec \<Rightarrow> LaunchOutcome host_act" where
  "launch E spec =
     (let root = ls_state_root spec; name = ls_name spec; jail = root @ [''jails'', name] in
      act_bind (build_rootfs E spec) (\<lambda>rootfs_path.
      act_bind (alloc_bridge_net E (ls_reserved_ips spec) name) (\<lambda>(ip, gw, tapn, tap).
      act_bind (act_lift (le_kvm E)) (\<lambda>kvm.
      act_bind (jail_files E jail (ls_kernel_path spec) rootfs_path) (\<lambda>_.
      act_bind (worker_dir E (jail @ [''root'', ''snapshots''])) (\<lambda>_.
      act_bind (ensure_ssh_key E root) (\<lambda>key_hex.
      act_bind (if ls_ssh spec then act_return None
                else act_lift (case le_argv E (ls_image spec) of
                                 Inl _ \<Rightarrow> Inl (''reading the image command for '' @ ls_image spec)
                               | Inr argv \<Rightarrow> Inr (Some (encode_argv argv)))) (\<lambda>argv_hex.
      start_worker E name jail
        (build_vm_config (ls_cpus spec) (ls_memory_mib spec) ''/vmlinux'' ''/rootfs.ext4'' ip gw NETMASK name tapn
           (mac_from_ip ip) argv_hex key_hex (host_random_seed_hex E))
        (ls_detach spec) kvm tap None ip tapn))))))))"

definition restore_launch :: "launch_env \<Rightarrow> RestoreSpec \<Rightarrow> LaunchOutcome host_act" where
  "restore_launch E spec =
     (let root = rs_state_root spec; name = rs_name spec; jail = root @ [''jails'', name] in
      act_bind (case rs_clone_net spec of
                  None \<Rightarrow> act_bind (alloc_bridge_net E (rs_reserved_ips spec) name) (\<lambda>(ip, gw, tapn, tap).
                            act_return (ip, ip, gw, tapn, tap))
                | Some cn \<Rightarrow> clone_network E name cn) (\<lambda>(ip, config_ip, config_gateway, tapn, tap).
      act_bind (act_lift (le_kvm E)) (\<lambda>kvm.
      act_bind (jail_files E jail (rs_kernel_path spec) (rs_rootfs_path spec)) (\<lambda>_.
      act_bind (create_dir_all E (jail @ [''root'', ''restore''])) (\<lambda>_.
      act_bind (link_snapshot_dir E (rs_snapshot_dir spec) (jail @ [''root'', ''restore''])) (\<lambda>_.
      act_bind (chown_to_worker E (jail @ [''root'', ''restore''])) (\<lambda>_.
      act_bind (worker_dir E (jail @ [''root'', ''snapshots''])) (\<lambda>_.
      start_worker E name jail
        (build_vm_config (rs_cpus spec) (rs_memory_mib spec) ''/vmlinux'' ''/rootfs.ext4'' config_ip config_gateway NETMASK
           name tapn (mac_from_ip config_ip) None None None)
        (rs_detach spec) kvm tap (Some ''/restore'') ip tapn))))))))"


section \<open>What the operations keep\<close>

lemma act_bind_Inr_iff:
  "act_bind f g h = (Inr y, h'') \<longleftrightarrow> (\<exists>x h'. f h = (Inr x, h') \<and> g x h' = (Inr y, h''))"
  by (auto simp: act_bind_def split: prod.splits sum.splits)

lemma act_bindE:
  assumes "act_bind f g h = (Inr y, h'')"
  obtains x h' where "f h = (Inr x, h')" "g x h' = (Inr y, h'')"
  using assms unfolding act_bind_Inr_iff by blast

lemma act_simps [simp]:
  "act_lift r h = (r, h)" "act_return x h = (Inr x, h)"
  by (simp_all add: act_lift_def act_return_def)

lemma net_Inr: "net ctx op h = (Inr x, h') \<Longrightarrow> \<exists>log. op (ho_log h) = (Inr x, log) \<and> h' = h\<lparr> ho_log := log \<rparr>"
  by (auto simp: net_def split: prod.splits sum.splits)

definition kind_at :: "fs \<Rightarrow> path \<Rightarrow> kind option" where
  "kind_at m p = map_option nd_kind (m p)"

text \<open>The contents an operation leaves as they are, whatever it returns.\<close>

definition keeps :: "path set \<Rightarrow> 'a host_act \<Rightarrow> bool" where
  "keeps P f \<longleftrightarrow> (\<forall>h. \<forall>p \<in> P. kind_at (ho_fs h) p \<noteq> None \<longrightarrow> kind_at (ho_fs (snd (f h))) p = kind_at (ho_fs h) p)"

named_theorems keeps_rules

lemma keepsD: "keeps P f \<Longrightarrow> f h = (r, h') \<Longrightarrow> p \<in> P \<Longrightarrow> kind_at (ho_fs h) p = Some k \<Longrightarrow> kind_at (ho_fs h') p = Some k"
  unfolding keeps_def by (metis option.simps(3) snd_conv)

lemma keeps_bind [keeps_rules]: "keeps P f \<Longrightarrow> (\<And>x. keeps P (g x)) \<Longrightarrow> keeps P (act_bind f g)"
  unfolding keeps_def act_bind_def by (fastforce split: prod.splits sum.splits)

lemma keeps_pure [keeps_rules]: "keeps P (act_lift r)" "keeps P (act_return x)"
  by (simp_all add: keeps_def)

lemma keeps_same_fs: "(\<And>h. ho_fs (snd (f h)) = ho_fs h) \<Longrightarrow> keeps P f"
  by (simp add: keeps_def)

lemma net_fs [simp]: "ho_fs (snd (net ctx op h)) = ho_fs h"
  by (simp add: net_def split: prod.splits sum.splits)

lemma keeps_net [keeps_rules]: "keeps P (net ctx op)"
  by (rule keeps_same_fs) simp

lemma keeps_create_dir_all [keeps_rules]: "keeps P (create_dir_all E d)"
  by (auto simp: keeps_def create_dir_all_def kind_at_def)

lemma keeps_update_node [keeps_rules]: "(\<And>n. nd_kind (f n) = nd_kind n) \<Longrightarrow> keeps P (update_node E op ctx p f)"
  by (auto simp: keeps_def update_node_def kind_at_def split: option.splits)

lemma keeps_chown [keeps_rules]: "keeps P (chown_to_worker E p)"
  unfolding chown_to_worker_def by (auto intro: keeps_rules)

lemma keeps_write [keeps_rules]: "p \<notin> P \<Longrightarrow> keeps P (write_file E p bs)"
  by (auto simp: keeps_def write_file_def kind_at_def)

lemma keeps_bind_listener [keeps_rules]: "p \<notin> P \<Longrightarrow> keeps P (bind_vsock_listener E p)"
  by (auto simp: keeps_def bind_vsock_listener_def kind_at_def Let_def split: option.splits)

lemma keeps_link [keeps_rules]: "dst \<notin> P \<Longrightarrow> keeps P (link_or_copy E src dst)"
  by (auto simp: keeps_def link_or_copy_def hard_link_def copy_file_def kind_at_def split: option.splits if_splits)

lemma keeps_each [keeps_rules]: "(\<And>x. x \<in> set xs \<Longrightarrow> keeps P (f x)) \<Longrightarrow> keeps P (each f xs)"
  by (induction xs) (auto intro: keeps_rules)

lemma keeps_readable [keeps_rules]: "keeps P (readable_file E f)"
  unfolding readable_file_def by (intro keeps_rules keeps_same_fs) (auto split: option.splits)

lemma keeps_permissions [keeps_rules]: "keeps P (prepare_jail_permissions E jail jail_root files)"
  unfolding prepare_jail_permissions_def by (intro keeps_rules keeps_same_fs) auto

lemma keeps_spawn [keeps_rules]: "log_path \<notin> P \<Longrightarrow> keeps P (spawn_worker E a b c d e f g i j k log_path l)"
  unfolding spawn_worker_def
  by (intro keeps_rules) (auto simp: keeps_def kind_at_def Let_def split: option.splits)

lemma keeps_start_worker [keeps_rules]:
  "(\<And>f. jail @ [f] \<notin> P) \<Longrightarrow> keeps P (start_worker E name jail cfg detach kvm tap rd ip tapn)"
  unfolding start_worker_def by (intro keeps_rules) auto


section \<open>The files of the jail\<close>

lemma kind_at_create_dir_all:
  "create_dir_all E d h = (Inr (), h') \<Longrightarrow>
   kind_at (ho_fs h') p = (if kind_at (ho_fs h) p = None \<and> p = take (length p) d then Some Directory else kind_at (ho_fs h) p)"
  by (auto simp: create_dir_all_def kind_at_def new_node_def split: if_splits)

lemma link_or_copy_Inr:
  assumes "link_or_copy E src dst h = (Inr (), h')" "\<not> le_fault E Stat dst"
  shows "kind_at (ho_fs h') dst = (case kind_at (ho_fs h) dst of Some c \<Rightarrow> Some c | None \<Rightarrow> kind_at (ho_fs h) src)"
    "p \<noteq> dst \<Longrightarrow> kind_at (ho_fs h') p = kind_at (ho_fs h) p" "kind_at (ho_fs h') dst \<noteq> None"
    "kind_at (ho_fs h) dst = None \<Longrightarrow> kind_at (ho_fs h) src \<noteq> Some Directory"
  using assms
  by (auto simp: link_or_copy_def fs_exists_def hard_link_def copy_file_def kind_at_def is_regular_def
      split: if_splits option.splits kind.splits)

lemma act_bind_unitE:
  assumes "act_bind f g h = (Inr y, h'')"
  obtains h' where "f h = (Inr (), h')" "g () h' = (Inr y, h'')"
  using assms by (auto elim: act_bindE)

lemma each_Inr: "each f xs h = (Inr (), h') \<Longrightarrow> x \<in> set xs \<Longrightarrow> \<exists>h1 h2. f x h1 = (Inr (), h2)"
  by (induction xs arbitrary: h) (simp, simp, elim act_bind_unitE, blast)

lemma readable_file_stat: "readable_file E f h = (Inr (), h') \<Longrightarrow> \<not> le_fault E Stat f"
  by (auto simp: readable_file_def act_bind_def split: prod.splits sum.splits option.splits if_splits)

lemma permissions_stat:
  assumes "prepare_jail_permissions E jail jail_root files h = (Inr (), h')" "f \<in> set files"
  shows "\<not> le_fault E Stat f"
proof -
  have "\<exists>h1 h2. each (readable_file E) files h1 = (Inr (), h2)"
    using assms(1) unfolding prepare_jail_permissions_def
    by (elim act_bind_unitE, intro exI)
  then obtain h1 h2 where "each (readable_file E) files h1 = (Inr (), h2)" by (elim exE)
  from each_Inr [OF this assms(2)] show ?thesis using readable_file_stat by (elim exE)
qed

definition jailed :: "fs \<Rightarrow> path \<Rightarrow> path \<Rightarrow> kind option" where
  "jailed m src dst = (case kind_at m dst of Some c \<Rightarrow> Some c | None \<Rightarrow> kind_at m src)"

lemma jail_files_Inr:
  assumes "jail_files E jail kp rp h = (Inr (), h')" "rp \<noteq> jail @ [''root'', ''vmlinux'']"
  shows "kind_at (ho_fs h') (jail @ [''root'', ''vmlinux'']) = jailed (ho_fs h) kp (jail @ [''root'', ''vmlinux''])"
    "kind_at (ho_fs h') (jail @ [''root'', ''rootfs.ext4'']) = jailed (ho_fs h) rp (jail @ [''root'', ''rootfs.ext4''])"
    "kind_at (ho_fs h') (jail @ [''root'', ''vmlinux'']) \<noteq> None" "kind_at (ho_fs h') (jail @ [''root'', ''rootfs.ext4'']) \<noteq> None"
proof -
  let ?k = "jail @ [''root'', ''vmlinux'']" and ?r = "jail @ [''root'', ''rootfs.ext4'']"
  obtain h1 h2 h3 where s: "create_dir_all E (jail @ [''root'']) h = (Inr (), h1)" "link_or_copy E kp ?k h1 = (Inr (), h2)"
    "link_or_copy E rp ?r h2 = (Inr (), h3)" "prepare_jail_permissions E jail (jail @ [''root'']) [?k, ?r] h3 = (Inr (), h')"
    using assms(1) unfolding jail_files_def Let_def append_assoc append.simps by (elim act_bind_unitE)
  have st: "\<not> le_fault E Stat ?k" "\<not> le_fault E Stat ?r" using permissions_stat [OF s(4)] by simp_all
  note d = kind_at_create_dir_all [OF s(1)]
  have new: "kind_at (ho_fs h1) ?k = kind_at (ho_fs h) ?k" "kind_at (ho_fs h1) ?r = kind_at (ho_fs h) ?r"
    using d [of ?k] d [of ?r] by simp_all
  have src: "kind_at (ho_fs h1) p \<noteq> Some Directory \<Longrightarrow> kind_at (ho_fs h1) p = kind_at (ho_fs h) p" for p
    using d [of p] by (auto split: if_splits)
  note k = link_or_copy_Inr [OF s(2) st(1)] and r = link_or_copy_Inr [OF s(3) st(2)]
  have k3: "kind_at (ho_fs h3) ?k = jailed (ho_fs h) kp ?k"
    using k r(2) [of ?k] src [of kp] new by (auto simp: jailed_def split: option.splits)
  have r3: "kind_at (ho_fs h3) ?r = jailed (ho_fs h) rp ?r"
    using r(1,4) k(2) [of ?r] k(2) [OF assms(2)] src [of rp] new by (auto simp: jailed_def split: option.splits)
  have some: "kind_at (ho_fs h3) ?k \<noteq> None" "kind_at (ho_fs h3) ?r \<noteq> None" using r(2) [of ?k] k(3) r(3) by simp_all
  have "kind_at (ho_fs h') p = kind_at (ho_fs h3) p" if "kind_at (ho_fs h3) p \<noteq> None" for p
    using keepsD [OF keeps_permissions [of "{p}"] s(4), of p] that by auto
  with k3 r3 some show "kind_at (ho_fs h') ?k = jailed (ho_fs h) kp ?k" "kind_at (ho_fs h') ?r = jailed (ho_fs h) rp ?r"
    "kind_at (ho_fs h') ?k \<noteq> None" "kind_at (ho_fs h') ?r \<noteq> None" by simp_all
qed

text \<open>\<open>ssh-keygen\<close> writes the key file and the file of the public key, and nothing else.\<close>

definition keygen_laws :: "launch_env \<Rightarrow> bool" where
  "keygen_laws E \<longleftrightarrow>
     (\<forall>key m p. p \<noteq> key \<and> p \<noteq> butlast key @ [last key @ ''.pub''] \<longrightarrow> snd (le_keygen E key m) p = m p)"

lemma keeps_ssh_key [keeps_rules]:
  assumes "keygen_laws E" "\<And>f. root @ [''ssh'', f] \<notin> P"
  shows "keeps P (ensure_ssh_key E root)"
proof -
  let ?key = "root @ [''ssh'', ''id_ed25519'']"
  have b: "butlast ?key @ [last ?key @ ''.pub''] = root @ [''ssh'', ''id_ed25519.pub'']" by (simp add: butlast_append)
  have "snd (le_keygen E ?key m) p = m p" if "p \<in> P" for m p
  proof -
    have "p \<noteq> ?key" "p \<noteq> butlast ?key @ [last ?key @ ''.pub'']" unfolding b using assms(2) that by auto
    then show ?thesis using assms(1) unfolding keygen_laws_def by blast
  qed
  then have "keeps P (make_ssh_key E ?key (root @ [''ssh'', ''id_ed25519.pub'']))"
    by (simp add: keeps_def kind_at_def make_ssh_key_def case_prod_beta)
  moreover have "keeps P (read_file E p)" for p by (rule keeps_same_fs) (simp add: read_file_def)
  ultimately show ?thesis unfolding ensure_ssh_key_def Let_def append_assoc append.simps by (intro keeps_rules)
qed

lemma start_worker_Inr:
  assumes "start_worker E name jail cfg detach kvm tap rd ip tapn h = (Inr out, h')"
  shows "validate cfg = Inr () \<and> lo_ip out = ip \<and> lo_name out = name \<and> lo_tap_name out = tapn \<and>
    (\<exists>json. le_json E cfg = Inr json \<and> kind_at (ho_fs h') (jail @ [''config.json'']) = Some (Regular json))"
  using assms unfolding start_worker_def
proof (elim act_bindE, goal_cases)
  case (1 u h1 json h2 w h3 v h4 c h5 pid h6)
  let ?cfg = "jail @ [''config.json'']"
  have "kind_at (ho_fs h3) ?cfg = Some (Regular json)"
    using 1(3) by (auto simp: write_file_def kind_at_def new_node_def split: if_splits option.splits)
  then have "kind_at (ho_fs h6) ?cfg = Some (Regular json)"
    using keepsD [OF keeps_bind_listener 1(4), of "{?cfg}"] keepsD [OF keeps_bind_listener 1(5), of "{?cfg}"]
      keepsD [OF keeps_spawn 1(6), of "{?cfg}"] by simp
  with 1 show ?case by (auto split: sum.splits)
qed

lemma net_keeps_fs: "net ctx op h = (r, h') \<Longrightarrow> ho_fs h' = ho_fs h"
  using net_fs [of ctx op h] by simp

lemma alloc_bridge_net_Inr:
  assumes "alloc_bridge_net E reserved name h = (Inr (ip, gw, tapn, tap), h')"
  shows "\<exists>n. ip = (10, 0, 0, of_nat n) \<and> 2 \<le> n \<and> n \<le> 254 \<and> of_nat n \<notin> host_octet ` set reserved"
    "gw = (10, 0, 0, 1)" "tapn = ''mm-'' @ name" "length name < 13" "ho_fs h' = ho_fs h"
proof -
  let ?p = "fold reserve reserved (ipam_new SUBNET_BASE 1)"
  have p: "?p = (ipam_new SUBNET_BASE 1)\<lparr> ia_allocated := host_octet ` set reserved \<rparr>"
    by (simp add: fold_reserve ipam_new_def)
  obtain r q where rq: "allocate ?p = (r, q)" by (cases "allocate ?p")
  obtain ip' where r: "r = Inr ip'" using assms rq by (cases r) (auto simp: alloc_bridge_net_def)
  have a: "act_bind (net ''ensuring bridge'' (ensure_bridge (le_tools E) BRIDGE (gateway q) 24)) (\<lambda>_.
      act_bind (net ''creating TAP'' (create_tap (le_tools E) (le_tun E) (le_setiff E) (le_persist E) (''mm-'' @ name) BRIDGE)) (\<lambda>tap.
      act_bind (net ''enabling NAT'' (enable_nat (le_tools E) SUBNET_CIDR (egress_or_eth0 E))) (\<lambda>_.
      act_return (ip', gateway q, ''mm-'' @ name, snd tap)))) h = (Inr (ip, gw, tapn, tap), h')"
    using assms unfolding alloc_bridge_net_def rq r prod.case sum.case Let_def .
  obtain h1 where s1: "net ''ensuring bridge'' (ensure_bridge (le_tools E) BRIDGE (gateway q) 24) h = (Inr (), h1)"
    and a1: "act_bind (net ''creating TAP'' (create_tap (le_tools E) (le_tun E) (le_setiff E) (le_persist E) (''mm-'' @ name) BRIDGE)) (\<lambda>tap.
      act_bind (net ''enabling NAT'' (enable_nat (le_tools E) SUBNET_CIDR (egress_or_eth0 E))) (\<lambda>_.
      act_return (ip', gateway q, ''mm-'' @ name, snd tap))) h1 = (Inr (ip, gw, tapn, tap), h')"
    by (rule act_bind_unitE [OF a])
  obtain t h2 where s2: "net ''creating TAP'' (create_tap (le_tools E) (le_tun E) (le_setiff E) (le_persist E) (''mm-'' @ name) BRIDGE) h1 = (Inr t, h2)"
    and a2: "act_bind (net ''enabling NAT'' (enable_nat (le_tools E) SUBNET_CIDR (egress_or_eth0 E))) (\<lambda>_.
      act_return (ip', gateway q, ''mm-'' @ name, snd t)) h2 = (Inr (ip, gw, tapn, tap), h')"
    by (rule act_bindE [OF a1])
  obtain s3: "net ''enabling NAT'' (enable_nat (le_tools E) SUBNET_CIDR (egress_or_eth0 E)) h2 = (Inr (), h')"
    and s: "gw = gateway q" "tapn = ''mm-'' @ name" "ip' = ip"
    by (rule act_bind_unitE [OF a2]) simp
  have q: "allocate ?p = (Inr ip, q)" using rq r s(3) by simp
  obtain n where n: "1 \<le> n" "n \<le> 254" "ip = ipam_addr ?p (of_nat n)" "of_nat n \<noteq> ia_gateway_host ?p"
    "of_nat n \<notin> ia_allocated ?p" "q = ?p\<lparr> ia_allocated := insert (of_nat n) (ia_allocated ?p) \<rparr>"
    by (rule allocate_Inr [OF q]) blast
  note n = n [unfolded p]
  have "n \<noteq> 1" using n(4) by (auto simp: ipam_new_def)
  with n show "\<exists>n. ip = (10, 0, 0, of_nat n) \<and> 2 \<le> n \<and> n \<le> 254 \<and> of_nat n \<notin> host_octet ` set reserved"
    by (intro exI [of _ n]) (auto simp: ipam_new_def ipam_addr_def)
  show "gw = (10, 0, 0, 1)" using n(6) s(1) by (simp add: gateway_def ipam_addr_def ipam_new_def)
  show "tapn = ''mm-'' @ name" by (fact s(2))
  show "ho_fs h' = ho_fs h" using net_keeps_fs [OF s1] net_keeps_fs [OF s2] net_keeps_fs [OF s3] by simp
  show "length name < 13"
    using net_Inr [OF s2] by (auto simp: create_tap_def open_tun_def split: sum.splits if_splits prod.splits)
qed


section \<open>A launch that succeeds\<close>

lemma act_bind4E:
  assumes "act_bind f (\<lambda>(a, b, c, d). g a b c d) h = (Inr y, h'')"
  obtains a b c d h' where "f h = (Inr (a, b, c, d), h')" "g a b c d h' = (Inr y, h'')"
  using assms by (auto elim!: act_bindE)

definition launch_config :: "launch_env \<Rightarrow> LaunchSpec \<Rightarrow> ipv4 \<Rightarrow> string option \<Rightarrow> string option \<Rightarrow> VmConfig" where
  "launch_config E spec ip argv key =
     build_vm_config (ls_cpus spec) (ls_memory_mib spec) ''/vmlinux'' ''/rootfs.ext4'' ip (10, 0, 0, 1) NETMASK (ls_name spec)
       (''mm-'' @ ls_name spec) (mac_from_ip ip) argv key (host_random_seed_hex E)"

lemma path_append: "(r @ [a, b]) @ [c, d] = r @ [a, b, c, d]" for r :: path
  by simp

lemma launch_steps:
  assumes "launch E spec h = (Inr out, h')"
  obtains rp h1 ip tap h2 kvm h4 h5 key h6 argv
    where "build_rootfs E spec h = (Inr rp, h1)"
      "alloc_bridge_net E (ls_reserved_ips spec) (ls_name spec) h1 = (Inr (ip, (10, 0, 0, 1), ''mm-'' @ ls_name spec, tap), h2)"
      "jail_files E (ls_state_root spec @ [''jails'', ls_name spec]) (ls_kernel_path spec) rp h2 = (Inr (), h4)"
      "worker_dir E (ls_state_root spec @ [''jails'', ls_name spec, ''root'', ''snapshots'']) h4 = (Inr (), h5)"
      "ensure_ssh_key E (ls_state_root spec) h5 = (Inr key, h6)"
      "argv = None \<and> ls_ssh spec \<or> (\<exists>av. argv = Some (encode_argv av) \<and> le_argv E (ls_image spec) = Inr av \<and> \<not> ls_ssh spec)"
      "start_worker E (ls_name spec) (ls_state_root spec @ [''jails'', ls_name spec]) (launch_config E spec ip argv key)
         (ls_detach spec) kvm tap None ip (''mm-'' @ ls_name spec) h6 = (Inr out, h')"
  using assms unfolding launch_def Let_def path_append
proof (elim act_bind4E act_bind_unitE act_bindE, goal_cases)
  case (1 rp h1 ip gw tapn tap h2 kvm h3 h4 h5 key h6 argv h7)
  have h3: "h3 = h2" using 1(4) by simp
  have h7: "h7 = h6" using 1(8) by (auto split: if_splits)
  have gw: "gw = (10, 0, 0, 1)" "tapn = ''mm-'' @ ls_name spec"
    using alloc_bridge_net_Inr(2,3) [OF 1(3)] by blast+
  have av: "argv = None \<and> ls_ssh spec \<or> (\<exists>av. argv = Some (encode_argv av) \<and> le_argv E (ls_image spec) = Inr av \<and> \<not> ls_ssh spec)"
    using 1(8) by (auto split: if_splits sum.splits)
  show ?case
    by (rule 1(1) [OF 1(2) 1(3) [unfolded gw] 1(5) [unfolded h3] 1(6) 1(7) av])
      (use 1(9) in \<open>simp only: launch_config_def gw h7\<close>)
qed

section \<open>A host with a stale jail\<close>

text \<open>Every path exists: the jail of a machine \<open>a7\<close> removed before, the kernel, the key.\<close>

definition stale_fs :: fs where
  "stale_fs p =
     Some (if p = [''srv'', ''jails'', ''a7'', ''root'', ''vmlinux''] \<or> p = [''srv'', ''jails'', ''a7'', ''root'', ''rootfs.ext4'']
             \<or> p = [''srv'', ''jails'', ''a7'', ''config.json''] \<or> p = [''srv'', ''jails'', ''a7'', ''console.log'']
             \<or> p = [''srv'', ''ssh'', ''id_ed25519.pub''] \<or> p = [''srv'', ''vmlinux''] \<or> p = [''srv'', ''images'', ''b'']
           then new_node (Regular [1]) 0x1a4
           else if p = [''srv'', ''jails'', ''a7'', ''vsock.sock''] \<or> p = [''srv'', ''jails'', ''a7'', ''control.sock'']
           then new_node Socket 0x1ed else new_node Directory 0x1ed)"

definition stale_env :: launch_env where
  "stale_env =
     \<lparr> le_tools = (\<lambda>_. Succeeded), le_tun = Inr 5, le_setiff = (\<lambda>_ _. Inr ()), le_persist = (\<lambda>_. Inr ()), le_setns = (\<lambda>_. Inr ()),
       le_egress = Some ''eth0'', le_route = None,
       le_rootfs = (\<lambda>_ _ _ m. (Inr [''srv'', ''images'', ''b''], m([''srv'', ''images'', ''b''] \<mapsto> new_node (Regular [2]) 0x1a4))),
       le_argv = (\<lambda>_. Inr [''/bin/sh'']), le_kvm = Inr 6, le_fault = (\<lambda>_ _. False), le_keygen = (\<lambda>_ m. (Failed [], m)),
       le_urandom = None, le_json = (\<lambda>_. Inr [7]), le_bind = (\<lambda>_. 8), le_exe = Inr ''mm'', le_no_userns = False,
       le_spawn = (\<lambda>_. Inr 99) \<rparr>"

definition stale_spec :: LaunchSpec where
  "stale_spec =
     \<lparr> ls_image = ''b'', ls_name = ''a7'', ls_cpus = 1, ls_memory_mib = 64, ls_ssh = False, ls_detach = True,
       ls_state_root = [''srv''], ls_kernel_path = [''srv'', ''vmlinux''], ls_mm_init_path = [''srv'', ''init''],
       ls_sshd_path = None, ls_reserved_ips = [] \<rparr>"

lemma stale_sel [simp]:
  "le_tools stale_env = (\<lambda>_. Succeeded)" "le_tun stale_env = Inr 5" "le_setiff stale_env = (\<lambda>_ _. Inr ())"
  "le_persist stale_env = (\<lambda>_. Inr ())" "le_fault stale_env = (\<lambda>_ _. False)" "le_kvm stale_env = Inr 6"
  "le_argv stale_env = (\<lambda>_. Inr [''/bin/sh''])" "le_json stale_env = (\<lambda>_. Inr [7])" "le_bind stale_env = (\<lambda>_. 8)"
  "le_exe stale_env = Inr ''mm''" "le_spawn stale_env = (\<lambda>_. Inr 99)" "le_egress stale_env = Some ''eth0''"
  by (simp_all add: stale_env_def)

text \<open>A host like it: the same kinds of nodes, with directories everyone may enter.\<close>

fun same_kind :: "kind \<Rightarrow> kind \<Rightarrow> bool" where
  "same_kind (Regular _) k \<longleftrightarrow> (case k of Regular _ \<Rightarrow> True | _ \<Rightarrow> False)"
| "same_kind k k' \<longleftrightarrow> k = k'"

definition like_stale :: "host \<Rightarrow> bool" where
  "like_stale h \<longleftrightarrow>
     (\<forall>q. \<exists>n. ho_fs h q = Some n \<and> same_kind (nd_kind n) (nd_kind (the (stale_fs q))) \<and> (nd_kind n = Directory \<longrightarrow> nd_mode n = 0x1ed))"

definition goes :: "'a host_act \<Rightarrow> bool" where
  "goes f \<longleftrightarrow> (\<forall>h. like_stale h \<longrightarrow> (\<exists>x h'. f h = (Inr x, h') \<and> like_stale h'))"

named_theorems goes_rules

lemma goes_bind [goes_rules]: "goes f \<Longrightarrow> (\<And>x. goes (g x)) \<Longrightarrow> goes (act_bind f g)"
  unfolding goes_def act_bind_def by fastforce

lemma goes_pure [goes_rules]: "goes (act_return x)" "goes (act_lift (Inr x))"
  by (simp_all add: goes_def)

lemma goes_case [goes_rules]: "(\<And>a b. goes (f a b)) \<Longrightarrow> goes (case x of (a, b) \<Rightarrow> f a b)"
  by (cases x) simp

lemma goes_each [goes_rules]: "(\<And>x. x \<in> set xs \<Longrightarrow> goes (f x)) \<Longrightarrow> goes (each f xs)"
  by (induction xs) (auto intro!: goes_rules)

lemma like_stale_node:
  assumes "like_stale h"
  obtains n where "ho_fs h q = Some n" "same_kind (nd_kind n) (nd_kind (the (stale_fs q)))" "nd_kind n = Directory \<longrightarrow> nd_mode n = 0x1ed"
  using assms unfolding like_stale_def by blast

lemma like_stale_update:
  "like_stale h \<Longrightarrow> same_kind (nd_kind n) (nd_kind (the (stale_fs q))) \<Longrightarrow> (nd_kind n = Directory \<Longrightarrow> nd_mode n = 0x1ed) \<Longrightarrow>
   like_stale (h\<lparr> ho_fs := (ho_fs h)(q \<mapsto> n) \<rparr>)"
  by (simp add: like_stale_def)

lemma goes_update [goes_rules]:
  assumes "\<And>n. nd_kind (f n) = nd_kind n" "\<And>n. nd_kind n = Directory \<Longrightarrow> nd_mode n = 0x1ed \<Longrightarrow> nd_mode (f n) = 0x1ed"
  shows "goes (update_node stale_env op ctx q f)"
proof -
  have "\<exists>h'. update_node stale_env op ctx q f h = (Inr (), h') \<and> like_stale h'" if h: "like_stale h" for h
  proof -
    obtain n where n: "ho_fs h q = Some n" "same_kind (nd_kind n) (nd_kind (the (stale_fs q)))"
      "nd_kind n = Directory \<longrightarrow> nd_mode n = 0x1ed" by (rule like_stale_node [OF h, of q])
    then have "like_stale (h\<lparr> ho_fs := (ho_fs h)(q \<mapsto> f n) \<rparr>)" using assms by (intro like_stale_update [OF h]) auto
    with n(1) show ?thesis by (simp add: update_node_def)
  qed
  then show ?thesis by (auto simp: goes_def)
qed

text \<open>The paths of the host.\<close>

definition dir_path :: "path \<Rightarrow> bool" where
  "dir_path q \<longleftrightarrow> nd_kind (the (stale_fs q)) = Directory"

definition file_path :: "path \<Rightarrow> bool" where
  "file_path q \<longleftrightarrow> nd_kind (the (stale_fs q)) = Regular [1]"

definition sock_path :: "path \<Rightarrow> bool" where
  "sock_path q \<longleftrightarrow> nd_kind (the (stale_fs q)) = Socket"

lemma same_kind_simps:
  "same_kind k Directory \<longleftrightarrow> k = Directory" "same_kind k Socket \<longleftrightarrow> k = Socket" "same_kind k (Regular b) \<longleftrightarrow> (\<exists>c. k = Regular c)"
  by (cases k; simp)+

lemma like_stale_is:
  assumes "like_stale h"
  shows "ho_fs h q \<noteq> None" "dir_path q \<Longrightarrow> is_dir (ho_fs h q)" "file_path q \<Longrightarrow> is_regular (ho_fs h q)"
    "sock_path q \<Longrightarrow> \<exists>n. ho_fs h q = Some n \<and> nd_kind n = Socket"
  using assms unfolding dir_path_def file_path_def sock_path_def
  by (auto elim!: like_stale_node [of _ q] simp: same_kind_simps is_dir_def is_regular_def)

lemma goes_mkdir [goes_rules]:
  assumes "\<And>n. dir_path (take n p)"
  shows "goes (create_dir_all stale_env p)"
proof -
  have "create_dir_all stale_env p h = (Inr (), h)" if h: "like_stale h" for h
  proof -
    have "(\<lambda>q. if ho_fs h q = None \<and> q = take (length q) p then Some (new_node Directory 0x1ed) else ho_fs h q) = ho_fs h"
      using like_stale_is(1) [OF h] by auto
    then show ?thesis unfolding create_dir_all_def using like_stale_is(2) [OF h assms] by auto
  qed
  then show ?thesis by (auto simp: goes_def)
qed

lemma goes_link [goes_rules]: "goes (link_or_copy stale_env src dst)"
  using like_stale_is(1) by (auto simp: goes_def link_or_copy_def fs_exists_def)

lemma goes_write [goes_rules]:
  assumes "file_path q"
  shows "goes (write_file stale_env q bs)"
proof -
  have "\<exists>h'. write_file stale_env q bs h = (Inr (), h') \<and> like_stale h'" if h: "like_stale h" for h
  proof -
    obtain n where n: "ho_fs h q = Some n" using like_stale_is(1) [OF h] by blast
    have "like_stale (h\<lparr> ho_fs := (ho_fs h)(q \<mapsto> n\<lparr> nd_kind := Regular bs \<rparr>) \<rparr>)"
      by (rule like_stale_update [OF h]) (use assms in \<open>simp_all add: file_path_def\<close>)
    with n like_stale_is(3) [OF h assms] show ?thesis by (simp add: write_file_def)
  qed
  then show ?thesis by (auto simp: goes_def)
qed

lemma goes_listen [goes_rules]:
  assumes "sock_path q" "dir_path (butlast q)" "butlast q \<noteq> q"
  shows "goes (bind_vsock_listener stale_env q)"
proof -
  have "\<exists>h'. bind_vsock_listener stale_env q h = (Inr 8, h') \<and> like_stale h'" if h: "like_stale h" for h
  proof -
    obtain n where n: "ho_fs h q = Some n" "nd_kind n = Socket" using like_stale_is(4) [OF h assms(1)] by blast
    have "like_stale (h\<lparr> ho_fs := (ho_fs h)(q \<mapsto> new_node Socket 0x1ed) \<rparr>)"
      by (rule like_stale_update [OF h]) (use assms in \<open>simp_all add: sock_path_def new_node_def\<close>)
    with n like_stale_is(2) [OF h assms(2)] assms(3) show ?thesis by (simp add: bind_vsock_listener_def Let_def)
  qed
  then show ?thesis unfolding goes_def by blast
qed

lemma goes_read [goes_rules]: "file_path q \<Longrightarrow> goes (read_file stale_env q)"
  unfolding goes_def read_file_def using like_stale_is(3) [of _ q]
  by (fastforce simp: is_regular_def split: option.splits kind.splits)

lemma goes_key [goes_rules]: "goes (make_ssh_key stale_env key pub)"
  using like_stale_is(1) by (auto simp: goes_def make_ssh_key_def fs_exists_def)

lemma verify_like_stale: "like_stale h \<Longrightarrow> verify_path_traversable stale_env (ho_fs h) p = Inr ()"
proof (induction p rule: rev_induct)
  case Nil
  obtain n where "ho_fs h [] = Some n" "nd_kind n = Directory \<longrightarrow> nd_mode n = 0x1ed" using Nil by (auto elim!: like_stale_node [of _ "[]"])
  then show ?case by (subst verify_path_traversable.simps) auto
next
  case (snoc x p)
  obtain n where "ho_fs h (p @ [x]) = Some n" "nd_kind n = Directory \<longrightarrow> nd_mode n = 0x1ed" using snoc.prems by (auto elim!: like_stale_node [of _ "p @ [x]"])
  then show ?case using snoc by (subst verify_path_traversable.simps) auto
qed

lemma goes_readable [goes_rules]:
  assumes "file_path f"
  shows "goes (readable_file stale_env f)"
proof -
  have "\<exists>h'. readable_file stale_env f h = (Inr (), h') \<and> like_stale h'" if h: "like_stale h" for h
  proof -
    obtain n where n: "ho_fs h f = Some n" using like_stale_is(1) [OF h] by blast
    then have "nd_kind n \<noteq> Directory" using like_stale_is(3) [OF h assms] by (auto simp: is_regular_def)
    moreover have "same_kind (nd_kind n) (nd_kind (the (stale_fs f)))" using h n by (auto elim!: like_stale_node [of _ f])
    ultimately have "like_stale (h\<lparr> ho_fs := (ho_fs h)(f \<mapsto> n\<lparr> nd_mode := 0x1a4 \<rparr>) \<rparr>)"
      by (intro like_stale_update [OF h]) simp_all
    with n show ?thesis by (simp add: readable_file_def act_bind_def update_node_def)
  qed
  then show ?thesis by (auto simp: goes_def)
qed

lemma goes_permissions [goes_rules]:
  assumes "\<And>f. f \<in> set files \<Longrightarrow> file_path f"
  shows "goes (prepare_jail_permissions stale_env jail jail_root files)"
proof -
  have "goes (\<lambda>h. (verify_path_traversable stale_env (ho_fs h) jail_root, h))"
    by (simp add: goes_def verify_like_stale)
  then show ?thesis unfolding prepare_jail_permissions_def using assms by (intro goes_rules) simp_all
qed

lemma goes_chown [goes_rules]: "CHR 0x00 \<notin> set (path_string p) \<Longrightarrow> goes (chown_to_worker stale_env p)"
  unfolding chown_to_worker_def by (simp, intro goes_rules) simp_all

lemma goes_spawn [goes_rules]:
  assumes "file_path log_path"
  shows "goes (spawn_worker stale_env a b c d e f g i j k log_path l)"
proof -
  have r: "ho_fs h log_path \<noteq> None" "is_regular (ho_fs h log_path)" if "like_stale h" for h
    using like_stale_is(1,3) [OF that, of log_path] assms by auto
  show ?thesis
    unfolding spawn_worker_def stale_sel
  proof (intro goes_rules, unfold goes_def, intro allI impI, goal_cases)
    case (1 h)
    then show ?case using r [OF 1] by (auto simp: Let_def)
  qed
qed

lemma goes_build [goes_rules]: "goes (build_rootfs stale_env stale_spec)"
  unfolding goes_def
proof (intro allI impI)
  fix h assume h: "like_stale h"
  have "like_stale (h\<lparr> ho_fs := (ho_fs h)([''srv'', ''images'', ''b''] \<mapsto> new_node (Regular [2]) 0x1a4) \<rparr>)"
    by (rule like_stale_update [OF h]) (simp_all add: new_node_def stale_fs_def)
  then show "\<exists>x h'. build_rootfs stale_env stale_spec h = (Inr x, h') \<and> like_stale h'"
    by (simp add: build_rootfs_def stale_env_def)
qed

lemma alloc_bridge_net_quiet: "\<exists>ip log. alloc_bridge_net stale_env [] ''a7'' h = (Inr (ip, (10, 0, 0, 1), ''mm-a7'', 5), h\<lparr> ho_log := log \<rparr>)"
proof -
  let ?p = "ipam_new SUBNET_BASE 1"
  have "\<not> (\<forall>n. 1 \<le> n \<and> n \<le> 254 \<longrightarrow> of_nat n = ia_gateway_host ?p \<or> of_nat n \<in> ia_allocated ?p)"
    by (simp add: ipam_new_def) (rule exI [of _ 2], simp)
  then obtain ip q where a: "allocate ?p = (Inr ip, q)"
    using allocate_Inl_iff [of ?p] by (metis old.sum.exhaust surj_pair)
  have "gateway q = (10, 0, 0, 1)"
    by (rule allocate_Inr [OF a]) (simp add: gateway_def ipam_addr_def ipam_new_def)
  then show ?thesis
    by (intro exI [of _ ip]) (auto simp: alloc_bridge_net_def a act_bind_def net_def ensure_bridge_def link_exists_def run_def
        create_tap_def open_tun_def enable_nat_def Let_def)
qed



lemma goes_alloc [goes_rules]: "goes (alloc_bridge_net stale_env [] ''a7'')"
  unfolding goes_def
proof (intro allI impI)
  fix h assume h: "like_stale h"
  obtain ip log where "alloc_bridge_net stale_env [] ''a7'' h = (Inr (ip, (10, 0, 0, 1), ''mm-a7'', 5), h\<lparr> ho_log := log \<rparr>)"
    using alloc_bridge_net_quiet by blast
  moreover have "like_stale (h\<lparr> ho_log := log \<rparr>)" using h by (simp add: like_stale_def)
  ultimately show "\<exists>x h'. alloc_bridge_net stale_env [] ''a7'' h = (Inr x, h') \<and> like_stale h'" by blast
qed

lemma stale_paths:
  "file_path [''srv'', ''jails'', ''a7'', ''root'', ''vmlinux'']" "file_path [''srv'', ''jails'', ''a7'', ''root'', ''rootfs.ext4'']"
  "file_path [''srv'', ''jails'', ''a7'', ''config.json'']" "file_path [''srv'', ''jails'', ''a7'', ''console.log'']"
  "file_path [''srv'', ''ssh'', ''id_ed25519.pub'']" "sock_path [''srv'', ''jails'', ''a7'', ''vsock.sock'']"
  "sock_path [''srv'', ''jails'', ''a7'', ''control.sock'']" "dir_path [''srv'', ''jails'', ''a7'']"
  "dir_path (take n [''srv'', ''jails'', ''a7'', ''root''])" "dir_path (take n [''srv'', ''jails'', ''a7'', ''root'', ''snapshots''])"
  "dir_path (take n [''srv'', ''ssh''])"
  by (auto simp: file_path_def sock_path_def dir_path_def stale_fs_def new_node_def take_Cons' split: if_splits)

lemma stale_launch: "goes (launch stale_env stale_spec)"
proof -
  have [simp]: "ls_state_root stale_spec = [''srv'']" "ls_name stale_spec = ''a7''" "ls_kernel_path stale_spec = [''srv'', ''vmlinux'']"
    "ls_reserved_ips stale_spec = []" "ls_ssh stale_spec = False" "ls_detach stale_spec = True" "ls_cpus stale_spec = 1" "ls_memory_mib stale_spec = 64"
    by (simp_all add: stale_spec_def)
  have v: "validate (build_vm_config 1 64 k r ip gw nm hn tn mc a b c) = Inr ()" for k r ip gw nm hn tn mc a b c
    by (simp add: validate_def build_vm_config_def Let_def)
  show ?thesis
    unfolding launch_def Let_def start_worker_def jail_files_def worker_dir_def ensure_ssh_key_def
    by (intro goes_rules) (auto simp: v stale_paths path_string_def goes_rules)
qed


lemma like_stale_start: "like_stale \<lparr> ho_fs = stale_fs, ho_log = [] \<rparr>"
proof -
  have "same_kind k k" for k by (cases k) simp_all
  then show ?thesis by (simp add: like_stale_def stale_fs_def new_node_def)
qed

text \<open>C13: A launch that succeeds has put the worker on the host as described.  The kernel and the rootfs in the jail are
  those of the specification when the jail has none, and otherwise the ones an earlier machine of the same name left
  there, whatever image was asked for now.  The configuration file next to the jail is the serialised configuration of
  this launch, which is valid, for a guest address that no reserved address shares its last octet with and that is
  neither the gateway nor a network or broadcast address; and the name has at most twelve characters.\<close>

theorem launch_prepares_jail:
  fixes E spec
  defines "jail \<equiv> ls_state_root spec @ [''jails'', ls_name spec]"
  assumes "launch E spec h = (Inr out, h')" "keygen_laws E"
    and "le_rootfs E (ls_image spec) (ls_mm_init_path spec) (ls_sshd_path spec) (ho_fs h) = (Inr rp, m)"
    and "rp \<noteq> jail @ [''root'', ''vmlinux'']"
  shows "kind_at (ho_fs h') (jail @ [''root'', ''vmlinux'']) =
           (case kind_at m (jail @ [''root'', ''vmlinux'']) of Some c \<Rightarrow> Some c | None \<Rightarrow> kind_at m (ls_kernel_path spec)) \<and>
         kind_at (ho_fs h') (jail @ [''root'', ''rootfs.ext4'']) =
           (case kind_at m (jail @ [''root'', ''rootfs.ext4'']) of Some c \<Rightarrow> Some c | None \<Rightarrow> kind_at m rp) \<and>
         (\<exists>n. lo_ip out = (10, 0, 0, of_nat n) \<and> 2 \<le> n \<and> n \<le> 254 \<and> of_nat n \<notin> host_octet ` set (ls_reserved_ips spec)) \<and>
         (\<exists>argv key json. validate (launch_config E spec (lo_ip out) argv key) = Inr () \<and>
            le_json E (launch_config E spec (lo_ip out) argv key) = Inr json \<and>
            kind_at (ho_fs h') (jail @ [''config.json'']) = Some (Regular json) \<and>
            (if ls_ssh spec then argv = None else \<exists>av. le_argv E (ls_image spec) = Inr av \<and> argv = Some (encode_argv av))) \<and>
         length (ls_name spec) \<le> 12"
proof (rule launch_steps [OF assms(2)], goal_cases)
  case (1 rp' h1 ip tap h2 kvm h4 h5 key h6 argv)
  note j = jail_def [symmetric]
  have m: "ho_fs h1 = m" "rp' = rp" using 1(1) assms(4) by (auto simp: build_rootfs_def)
  note net = alloc_bridge_net_Inr [OF 1(2)]
  have fs2: "ho_fs h2 = m" using net(5) m by simp
  note jf = jail_files_Inr [OF 1(3) [unfolded j m]] 
  note sw = start_worker_Inr [OF 1(7)]
  let ?k = "jail @ [''root'', ''vmlinux'']" and ?r = "jail @ [''root'', ''rootfs.ext4'']"
  have kept: "kind_at (ho_fs h') p = kind_at (ho_fs h4) p" if p: "p = ?k \<or> p = ?r" "kind_at (ho_fs h4) p \<noteq> None" for p
  proof -
    obtain k where k: "kind_at (ho_fs h4) p = Some k" using p(2) by blast
    have "keeps {p} (worker_dir E d)" for d unfolding worker_dir_def by (intro keeps_rules)
    from keepsD [OF this 1(4), of p k] k have k5: "kind_at (ho_fs h5) p = Some k" by simp
    have "keeps {p} (ensure_ssh_key E (ls_state_root spec))"
      by (rule keeps_ssh_key [OF assms(3)]) (use p(1) in \<open>auto simp: jail_def\<close>)
    from keepsD [OF this 1(5), of p k] k5 have k6: "kind_at (ho_fs h6) p = Some k" by simp
    have "keeps {p} (start_worker E n (ls_state_root spec @ [''jails'', ls_name spec]) cfg a b c d e f)" for n cfg a b c d e f
      by (rule keeps_start_worker) (use p(1) in \<open>auto simp: jail_def\<close>)
    from keepsD [OF this 1(7), of p k] k6 k show ?thesis by simp
  qed
  have ip: "lo_ip out = ip" and v: "validate (launch_config E spec ip argv key) = Inr ()" using sw by blast+
  obtain json where json: "le_json E (launch_config E spec ip argv key) = Inr json"
    "kind_at (ho_fs h') (jail @ [''config.json'']) = Some (Regular json)"
    using sw unfolding j by blast
  have av: "if ls_ssh spec then argv = None else \<exists>av. le_argv E (ls_image spec) = Inr av \<and> argv = Some (encode_argv av)"
    using 1(6) by auto
  have "kind_at (ho_fs h') ?k = jailed m (ls_kernel_path spec) ?k" "kind_at (ho_fs h') ?r = jailed m rp ?r"
    using kept [of ?k] kept [of ?r] jf [OF assms(5)] by (simp_all add: fs2)
  then show ?case
    unfolding jailed_def ip by (intro conjI net(1) exI [of _ argv] exI [of _ key] exI [of _ json] v json av) (use net(4) in simp_all)
qed

theorem launch_prepares_jail_witness:
  "\<exists>out h'. launch stale_env stale_spec \<lparr> ho_fs = stale_fs, ho_log = [] \<rparr> = (Inr out, h') \<and>
     kind_at (snd (le_rootfs stale_env ''b'' [] None stale_fs)) [''srv'', ''images'', ''b''] = Some (Regular [2]) \<and>
     kind_at (ho_fs h') [''srv'', ''jails'', ''a7'', ''root'', ''rootfs.ext4''] = Some (Regular [1])"
proof -
  let ?h = "\<lparr> ho_fs = stale_fs, ho_log = [] \<rparr>"
  obtain out h' where l: "launch stale_env stale_spec ?h = (Inr out, h')"
    using stale_launch like_stale_start unfolding goes_def by blast
  have k: "keygen_laws stale_env" by (simp add: keygen_laws_def stale_env_def)
  have r: "le_rootfs stale_env (ls_image stale_spec) (ls_mm_init_path stale_spec) (ls_sshd_path stale_spec) (ho_fs ?h) =
      (Inr [''srv'', ''images'', ''b''], stale_fs([''srv'', ''images'', ''b''] \<mapsto> new_node (Regular [2]) 0x1a4))"
    by (simp add: stale_env_def)
  have n: "[''srv'', ''images'', ''b''] \<noteq> (ls_state_root stale_spec @ [''jails'', ls_name stale_spec]) @ [''root'', ''vmlinux'']"
    by (simp add: stale_spec_def)
  have "kind_at (ho_fs h') [''srv'', ''jails'', ''a7'', ''root'', ''rootfs.ext4''] = Some (Regular [1])"
    using launch_prepares_jail [OF l k r n, THEN conjunct2, THEN conjunct1]
    by (simp add: stale_spec_def kind_at_def stale_fs_def new_node_def)
  with l show ?thesis by (auto simp: stale_env_def kind_at_def new_node_def)
qed


text \<open>A default name of an image whose name has six characters or more is too long for the name of a TAP device.\<close>

lemma default_name_never_launches:
  assumes "ls_name spec = default_name uuid (ls_image spec)" "6 \<le> length uuid"
    and "6 \<le> length (hd (split_on (CHR '':'') (last (split_on (CHR ''/'') (ls_image spec)))))"
  shows "launch E spec h \<noteq> (Inr out, h')"
proof
  assume l: "launch E spec h = (Inr out, h')"
  have "13 \<le> length (ls_name spec)" using assms by (simp add: default_name_def)
  moreover have "length (ls_name spec) < 13"
    by (rule launch_steps [OF l]) (rule alloc_bridge_net_Inr(4))
  ultimately show False by simp
qed


section \<open>A restore that fails\<close>

text \<open>Operations that run no network command.\<close>

definition quiet :: "'a host_act \<Rightarrow> bool" where
  "quiet f \<longleftrightarrow> (\<forall>h. ho_log (snd (f h)) = ho_log h)"

named_theorems quiet_rules

lemma quiet_bind [quiet_rules]: "quiet f \<Longrightarrow> (\<And>x. quiet (g x)) \<Longrightarrow> quiet (act_bind f g)"
  by (simp add: quiet_def act_bind_def split: prod.splits sum.splits) (metis snd_conv)

lemma quiet_basic [quiet_rules]:
  "quiet (act_lift r)" "quiet (act_return x)" "quiet (create_dir_all E p)" "quiet (link_or_copy E src dst)"
  "quiet (update_node E op ctx p f)" "quiet (write_file E p bs)" "quiet (bind_vsock_listener E p)"
  by (simp_all add: quiet_def create_dir_all_def link_or_copy_def update_node_def write_file_def bind_vsock_listener_def Let_def
      split: option.splits)

lemma quiet_chown [quiet_rules]: "quiet (chown_to_worker E p)"
  unfolding chown_to_worker_def by (auto intro: quiet_rules)

lemma quiet_each [quiet_rules]: "(\<And>x. quiet (f x)) \<Longrightarrow> quiet (each f xs)"
  by (induction xs) (auto intro: quiet_rules)

lemma quiet_same_log: "(\<And>h. ho_log (snd (f h)) = ho_log h) \<Longrightarrow> quiet f"
  by (simp add: quiet_def)

lemma quiet_permissions [quiet_rules]: "quiet (prepare_jail_permissions E jail jail_root files)"
  unfolding prepare_jail_permissions_def readable_file_def
  by (intro quiet_rules quiet_same_log) (auto split: option.splits)

lemma quiet_spawn [quiet_rules]: "quiet (spawn_worker E a b c d e f g i j k l m)"
  unfolding spawn_worker_def by (intro quiet_rules quiet_same_log) (auto simp: Let_def)

lemma quiet_jail [quiet_rules]:
  "quiet (jail_files E jail kp rp)" "quiet (worker_dir E d)" "quiet (link_snapshot_dir E src dst)"
  "quiet (start_worker E name jail cfg detach kvm tap rd ip tapn)"
  unfolding jail_files_def worker_dir_def link_snapshot_dir_def start_worker_def Let_def by (intro quiet_rules)+

definition netns_steps :: "CloneNetPlan \<Rightarrow> cmd list" where
  "netns_steps p = [ip_cmd (root_args NetnsAdd p), ip_in (cp_netns p) (netns_args NetnsLoUp p)]"

lemma run_all_log:
  "\<exists>n. snd (run_all T cs log) = log @ take n cs \<and> (is_ok (fst (run_all T cs log)) \<longrightarrow> snd (run_all T cs log) = log @ cs)"
proof -
  obtain n where n: "snd (run_all T cs log) = log @ take n cs" using run_all_prefix by blast
  moreover have "snd (run_all T cs log) = log @ cs" if ok: "is_ok (fst (run_all T cs log))"
  proof (cases "run_all T cs log")
    case (Pair r log')
    then have "r = Inr ()" using ok by (cases r) simp_all
    with Pair run_all_Inr show ?thesis by simp
  qed
  ultimately show ?thesis by blast
qed

lemma net_result:
  "ho_log (snd (net ctx op h)) = snd (op (ho_log h))" "is_ok (fst (net ctx op h)) = is_ok (fst (op (ho_log h)))"
  by (auto simp: net_def split: prod.splits sum.splits)


text \<open>What a clone's network setup leaves in the list of commands.\<close>

definition clone_log :: "launch_env \<Rightarrow> CloneNetPlan \<Rightarrow> cmd list \<Rightarrow> nat \<Rightarrow> cmd list" where
  "clone_log E plan log n =
     (if \<not> is_ok (fst (create_netns (le_tools E) plan log)) then take n (netns_steps plan)
      else if \<not> is_ok (open_tun_in_netns E (cp_netns plan) (cp_tap plan)) then netns_steps plan @ teardown_steps plan
      else if \<not> is_ok (fst (wire_clone_net (le_tools E) plan (log @ netns_steps plan)))
      then netns_steps plan @ take n (wire_steps plan) @ teardown_steps plan
      else netns_steps plan @ wire_steps plan)"

lemma net_cases:
  obtains e where "net ctx op h = (Inl e, h\<lparr> ho_log := snd (op (ho_log h)) \<rparr>)" "\<not> is_ok (fst (op (ho_log h)))"
  | x where "net ctx op h = (Inr x, h\<lparr> ho_log := snd (op (ho_log h)) \<rparr>)" "is_ok (fst (op (ho_log h)))"
  by (cases "op (ho_log h)"; cases "fst (op (ho_log h))") (auto simp: net_def)

lemma clone_network_log:
  fixes E name cn
  defines "up \<equiv> (case cn_upstream cn of Some u \<Rightarrow> u | None \<Rightarrow> egress_or_eth0 E)"
  assumes "plan_new (cn_index cn) name (cn_internal_ip cn) (cn_clone_ip cn) up (''mmtap'' @ dec_of (cn_index cn)) = Some plan"
  shows "\<exists>n. ho_log (snd (clone_network E name cn h)) = ho_log h @ clone_log E plan (ho_log h) n"
proof -
  let ?T = "le_tools E" and ?create = "create_netns (le_tools E) plan"
  have cr: "?create log = run_all ?T (netns_steps plan) log" for log by (simp add: create_netns_def netns_steps_def)
  obtain n where n: "snd (?create (ho_log h)) = ho_log h @ take n (netns_steps plan)"
    "is_ok (fst (?create (ho_log h))) \<Longrightarrow> snd (?create (ho_log h)) = ho_log h @ netns_steps plan"
    using run_all_log [of ?T "netns_steps plan" "ho_log h"] unfolding cr by blast
  let ?h1 = "h\<lparr> ho_log := ho_log h @ netns_steps plan \<rparr>"
  obtain k where k: "snd (wire_clone_net ?T plan (ho_log ?h1)) = ho_log ?h1 @ take k (wire_steps plan)"
    "is_ok (fst (wire_clone_net ?T plan (ho_log ?h1))) \<Longrightarrow> snd (wire_clone_net ?T plan (ho_log ?h1)) = ho_log ?h1 @ wire_steps plan"
    using run_all_log [of ?T "wire_steps plan" "ho_log ?h1"] unfolding wire_clone_net_def by blast
  have td: "ho_log (snd (net [] (teardown_clone_net ?T plan) x)) = ho_log x @ teardown_steps plan" for x
    by (simp add: net_result teardown_clone_net_def run_each_log)
  show ?thesis
  proof (cases rule: net_cases [of "''creating clone netns''" ?create h])
    case (1 e)
    then show ?thesis using n(1) assms(2)
      by (intro exI [of _ n]) (simp add: clone_network_def up_def act_bind_def clone_log_def)
  next
    case (2 u)
    have h1: "net ''creating clone netns'' ?create h = (Inr u, ?h1)" using 2 n(2) by simp
    show ?thesis
    proof (cases "open_tun_in_netns E (cp_netns plan) (cp_tap plan)")
      case (Inl e)
      with h1 2(2) assms(2) show ?thesis
        by (simp add: clone_network_def up_def act_bind_def clone_log_def td)
    next
      case (Inr fd)
      show ?thesis
      proof (cases rule: net_cases [of "''wiring clone networking''" "wire_clone_net ?T plan" ?h1])
        case (1 e)
        with h1 2(2) Inr assms(2) k(1) show ?thesis
          by (intro exI [of _ k]) (simp add: clone_network_def up_def act_bind_def clone_log_def td)
      next
        case (2 v)
        with h1 \<open>is_ok (fst (?create (ho_log h)))\<close> Inr assms(2) k(2) show ?thesis
          by (simp add: clone_network_def up_def act_bind_def clone_log_def)
      qed
    qed
  qed
qed

text \<open>C30: What a failed restore of a clone undoes.  For every environment, the network commands that
  a failing restore has run are determined by where it failed.  When the TAP device or the wiring fails, all of the
  teardown commands are run; when the creation of the namespace fails, and when any step after the networking fails (the
  KVM device, the jail, the configuration, the sockets, the worker), none is: the namespace, the link, the routes and the
  rules stay.\<close>

theorem restore_failure_undoes_network_errors_only:
  assumes "restore_launch E spec h = (Inl e, h')" "rs_clone_net spec = Some cn"
    and "plan_new (cn_index cn) (rs_name spec) (cn_internal_ip cn) (cn_clone_ip cn)
           (case cn_upstream cn of Some u \<Rightarrow> u | None \<Rightarrow> egress_or_eth0 E) (''mmtap'' @ dec_of (cn_index cn)) = Some plan"
  shows "\<exists>n. ho_log h' = ho_log h @
    (if \<not> is_ok (fst (create_netns (le_tools E) plan (ho_log h))) then take n (netns_steps plan)
     else if \<not> is_ok (open_tun_in_netns E (cp_netns plan) (cp_tap plan)) then netns_steps plan @ teardown_steps plan
     else if \<not> is_ok (fst (wire_clone_net (le_tools E) plan (ho_log h @ netns_steps plan)))
     then netns_steps plan @ take n (wire_steps plan) @ teardown_steps plan
     else netns_steps plan @ wire_steps plan)"
proof -
  obtain n where n: "ho_log (snd (clone_network E (rs_name spec) cn h)) = ho_log h @ clone_log E plan (ho_log h) n"
    using clone_network_log [OF assms(3)] by blast
  have q: "quiet (case x of (ip, config_ip, config_gateway, tapn, tap) \<Rightarrow> f ip config_ip config_gateway tapn tap)"
    if "\<And>a b c d e. quiet (f a b c d e)" for x and f :: "ipv4 \<Rightarrow> ipv4 \<Rightarrow> ipv4 \<Rightarrow> string \<Rightarrow> nat \<Rightarrow> LaunchOutcome host_act"
    using that by (simp split: prod.splits)
  have after: "ho_log (snd (act_bind f g h)) = ho_log (snd (f h))" if "\<And>x. quiet (g x)"
    for f :: "(ipv4 \<times> ipv4 \<times> ipv4 \<times> string \<times> nat) host_act" and g :: "_ \<Rightarrow> LaunchOutcome host_act"
    using that by (simp add: act_bind_def quiet_def split: prod.splits sum.splits)
  have "ho_log (snd (restore_launch E spec h)) = ho_log (snd (clone_network E (rs_name spec) cn h))"
    unfolding restore_launch_def Let_def assms(2) option.case by (rule after) (intro q quiet_rules)
  then have "ho_log h' = ho_log h @ clone_log E plan (ho_log h) n" using n assms(1) by simp
  then show ?thesis unfolding clone_log_def by blast
qed


definition no_kvm_env :: launch_env where
  "no_kvm_env = stale_env\<lparr> le_kvm := Inl ''opening /dev/kvm'' \<rparr>"

definition clone_spec :: RestoreSpec where
  "clone_spec =
     \<lparr> rs_name = ''c1'', rs_snapshot_dir = [''srv'', ''snap''], rs_rootfs_path = [''srv'', ''r''], rs_kernel_path = [''srv'', ''vmlinux''],
       rs_cpus = 1, rs_memory_mib = 64, rs_detach = True, rs_state_root = [''srv''], rs_reserved_ips = [],
       rs_clone_net = Some \<lparr> cn_index = 0, cn_internal_ip = (10, 0, 0, 2), cn_clone_ip = (10, 0, 0, 9), cn_upstream = Some ''eth0'' \<rparr> \<rparr>"

lemma act_bind_Inl:
  "\<exists>e h'. act_bind f (\<lambda>(a, b, c, d, e). act_bind (act_lift (Inl m)) (k a b c d e)) h = (Inl e, h')"
  by (auto simp: act_bind_def split: prod.splits sum.splits)

lemma run_all_succeeds: "is_ok (fst (run_all (\<lambda>_. Succeeded) cs log))"
  by (induction cs arbitrary: log) (simp_all add: run_def)

theorem restore_failure_undoes_network_errors_only_witness:
  "\<exists>plan e h'. plan_new 0 ''c1'' (10, 0, 0, 2) (10, 0, 0, 9) ''eth0'' (''mmtap'' @ dec_of (0 :: u32)) = Some plan \<and>
     restore_launch no_kvm_env clone_spec \<lparr> ho_fs = stale_fs, ho_log = [] \<rparr> = (Inl e, h') \<and>
     ho_log h' = netns_steps plan @ wire_steps plan"
proof -
  let ?h = "\<lparr> ho_fs = stale_fs, ho_log = [] \<rparr>"
  let ?cn = "the (rs_clone_net clone_spec)"
  obtain plan where plan: "plan_new 0 ''c1'' (10, 0, 0, 2) (10, 0, 0, 9) ''eth0'' (''mmtap'' @ dec_of (0 :: u32)) = Some plan"
    by (simp add: plan_new_def for_index_def checked_mul_def Let_def)
  have cn: "rs_clone_net clone_spec = Some ?cn" by (simp add: clone_spec_def)
  have p: "plan_new (cn_index ?cn) (rs_name clone_spec) (cn_internal_ip ?cn) (cn_clone_ip ?cn)
      (case cn_upstream ?cn of Some u \<Rightarrow> u | None \<Rightarrow> egress_or_eth0 no_kvm_env) (''mmtap'' @ dec_of (cn_index ?cn)) = Some plan"
    using plan by (simp add: clone_spec_def)
  obtain e h' where r: "restore_launch no_kvm_env clone_spec ?h = (Inl e, h')"
  proof -
    have k: "le_kvm no_kvm_env = Inl ''opening /dev/kvm''" by (simp add: no_kvm_env_def)
    have "\<exists>e h'. restore_launch no_kvm_env clone_spec ?h = (Inl e, h')"
      unfolding restore_launch_def Let_def k by (rule act_bind_Inl)
    with that show thesis by blast
  qed
  have tools: "le_tools no_kvm_env = (\<lambda>_. Succeeded)" by (simp add: no_kvm_env_def)
  have ok: "is_ok (fst (create_netns (le_tools no_kvm_env) plan log))" "is_ok (fst (wire_clone_net (le_tools no_kvm_env) plan log))" for log
    unfolding create_netns_def wire_clone_net_def tools by (rule run_all_succeeds)+
  have zero: "dec_of_nat 0 = ''0''" by (subst dec_of_nat.simps) (simp add: digit_char_def)
  have "cp_tap plan = ''mmtap0''" using plan zero by (auto simp: plan_new_def dec_of_def split: option.splits)
  then have t: "is_ok (open_tun_in_netns no_kvm_env (cp_netns plan) (cp_tap plan))"
    by (simp add: open_tun_in_netns_def open_tun_def no_kvm_env_def stale_env_def)
  from restore_failure_undoes_network_errors_only [OF r cn p] plan r show ?thesis
    by (simp add: ok t)
qed

end
