(* ===== verification/Controller_Store.thy ===== *)
theory Controller_Store
  imports MM_Prelude "HOL-Library.List_Lexorder" "HOL-Library.Char_ord"
begin

text \<open>
  The data of the control plane: the life-cycle states and their wire names (\<open>crates/mm-api-types/src/state.rs\<close>), the
  objects of the API (\<open>services/mm-controller/src/model.rs\<close>) and the store over PostgreSQL
  (\<open>services/mm-controller/src/store.rs\<close>) with the keys of its schema.  A column of text or JSON is kept as what is
  written there: the state of a machine is a string in its row, its retry counter a number, a role a string; reading a row
  decodes them and may fail.  Every statement may also fail in the database (\<open>faults\<close>).
\<close>

section \<open>States\<close>

datatype State =
  Created | Preparing | Starting | Running | Paused | Stopping | Stopped | Failed | Destroying | Destroyed

definition state_all :: "State list" where
  "state_all = [Created, Preparing, Starting, Running, Paused, Stopping, Stopped, Failed, Destroying, Destroyed]"

fun as_str :: "State \<Rightarrow> string" where
  "as_str Created = ''created''"
| "as_str Preparing = ''preparing''"
| "as_str Starting = ''starting''"
| "as_str Running = ''running''"
| "as_str Paused = ''paused''"
| "as_str Stopping = ''stopping''"
| "as_str Stopped = ''stopped''"
| "as_str Failed = ''failed''"
| "as_str Destroying = ''destroying''"
| "as_str Destroyed = ''destroyed''"

definition state_from_str :: "string \<Rightarrow> string + State" where
  "state_from_str s = ok_or s (find (\<lambda>st. as_str st = s) state_all)"

text \<open>The numbering of the wire protocol.\<close>

definition api_state_to_proto :: "State \<Rightarrow> int" where
  "api_state_to_proto st = int (length (takeWhile (\<lambda>s. s \<noteq> st) state_all))"

definition proto_state_name :: "int \<Rightarrow> string option" where
  "proto_state_name v = (if 0 \<le> v \<and> nat v < length state_all then Some (as_str (state_all ! nat v)) else None)"


section \<open>Objects\<close>

text \<open>A unique identifier, as its canonical text.\<close>

type_synonym uid = string

record Workload =
  wl_entrypoint :: string
  wl_args :: "string list"
  wl_env :: "(string \<times> string) list"

record MachineSpec =
  ms_image :: string
  ms_kernel :: "string option"
  ms_vcpus :: u32
  ms_memory_mib :: u64
  ms_ssh :: bool
  ms_workload :: "Workload option"
  ms_running :: bool

record MachineStatus =
  st_state :: State
  st_ip :: "string option"
  st_health :: string
  st_host_id :: "string option"
  st_retry_count :: u32

definition status_default :: MachineStatus where
  "status_default = \<lparr> st_state = Created, st_ip = None, st_health = [], st_host_id = None, st_retry_count = 0 \<rparr>"

record ApiMachine =
  mo_uid :: uid
  mo_namespace :: string
  mo_fleet :: string
  mo_name :: string
  mo_spec :: MachineSpec
  mo_status :: MachineStatus
  mo_host_id :: "string option"

text \<open>The status column, a JSON object.\<close>

record status_json =
  js_state :: string
  js_ip :: "string option"
  js_health :: string
  js_host_id :: "string option"
  js_retry_count :: int

record MachineRow =
  r_uid :: uid
  r_namespace :: string
  r_fleet :: string
  r_name :: string
  r_spec :: MachineSpec
  r_status :: status_json
  r_host_id :: "string option"

definition status_to_json :: "MachineStatus \<Rightarrow> status_json" where
  "status_to_json s =
     \<lparr> js_state = as_str (st_state s), js_ip = st_ip s, js_health = st_health s, js_host_id = st_host_id s,
       js_retry_count = uint (st_retry_count s) \<rparr>"

datatype sql_error = UniqueViolation | ForeignKeyViolation | OutOfRange | Decode | Unavailable

definition status_from_json :: "status_json \<Rightarrow> sql_error + MachineStatus" where
  "status_from_json j =
     (case state_from_str (js_state j) of
        Inl _ \<Rightarrow> Inl Decode
      | Inr st \<Rightarrow>
          if js_retry_count j < 0 \<or> 2 ^ 32 \<le> js_retry_count j then Inl Decode
          else Inr \<lparr> st_state = st, st_ip = js_ip j, st_health = js_health j, st_host_id = js_host_id j,
                     st_retry_count = word_of_int (js_retry_count j) \<rparr>)"

definition into_machine :: "MachineRow \<Rightarrow> sql_error + ApiMachine" where
  "into_machine r =
     res_bind (status_from_json (r_status r)) (\<lambda>st.
       Inr \<lparr> mo_uid = r_uid r, mo_namespace = r_namespace r, mo_fleet = r_fleet r, mo_name = r_name r, mo_spec = r_spec r,
             mo_status = st, mo_host_id = r_host_id r \<rparr>)"

text \<open>Snapshots; the size is a signed column.\<close>

record Snapshot =
  sn_uid :: uid
  sn_namespace :: string
  sn_machine :: string
  sn_name :: string
  sn_kind :: string
  sn_host_id :: string
  sn_memory_mib :: int
  sn_status :: string

definition into_snapshot :: "Snapshot \<Rightarrow> Snapshot" where
  "into_snapshot r = r\<lparr> sn_memory_mib := max (sn_memory_mib r) 0 \<rparr>"

record CapacityRow =
  cr_vcpus_total :: u32
  cr_vcpus_free :: u32
  cr_mem_mib_total :: u64
  cr_mem_mib_free :: u64

record host_row =
  hr_host_id :: string
  hr_capacity :: CapacityRow
  hr_last_heartbeat :: int
  hr_healthy :: bool

record audit_row =
  au_actor :: string
  au_namespace :: "string option"
  au_action :: string
  au_resource :: "string option"
  au_outcome :: string


section \<open>Roles\<close>

datatype Role = Viewer | Operator | Admin

fun role_rank :: "Role \<Rightarrow> nat" where
  "role_rank Viewer = 0"
| "role_rank Operator = 1"
| "role_rank Admin = 2"

instantiation Role :: linorder
begin

definition less_eq_Role :: "Role \<Rightarrow> Role \<Rightarrow> bool" where
  "less_eq_Role a b \<longleftrightarrow> role_rank a \<le> role_rank b"

definition less_Role :: "Role \<Rightarrow> Role \<Rightarrow> bool" where
  "less_Role a b \<longleftrightarrow> role_rank a < role_rank b"

instance
proof
  fix a b :: Role
  show "a \<le> b \<Longrightarrow> b \<le> a \<Longrightarrow> a = b" by (cases a; cases b) (simp_all add: less_eq_Role_def)
qed (auto simp: less_eq_Role_def less_Role_def)

end

fun role_as_str :: "Role \<Rightarrow> string" where
  "role_as_str Viewer = ''viewer''"
| "role_as_str Operator = ''operator''"
| "role_as_str Admin = ''admin''"

definition role_parse :: "string \<Rightarrow> string + Role" where
  "role_parse s =
     (if s = ''viewer'' then Inr Viewer else if s = ''operator'' then Inr Operator else if s = ''admin'' then Inr Admin
      else Inl (''role:'' @ s))"


section \<open>The store\<close>

record db =
  db_namespaces :: "string list"
  db_machines :: "MachineRow list"
  db_snapshots :: "Snapshot list"
  db_hosts :: "host_row list"
  db_rbac :: "string \<times> string \<Rightarrow> string option"
  db_audit :: "audit_row list"

type_synonym faults = "string \<Rightarrow> bool"

type_synonym 'a sql = "db \<Rightarrow> (sql_error + 'a) \<times> db"

definition statement :: "faults \<Rightarrow> string \<Rightarrow> 'a sql \<Rightarrow> 'a sql" where
  "statement F q f d = (if F q then (Inl Unavailable, d) else f d)"

definition create_namespace :: "faults \<Rightarrow> string \<Rightarrow> unit sql" where
  "create_namespace F name = statement F ''create_namespace'' (\<lambda>d.
     (Inr (), d\<lparr> db_namespaces := (if name \<in> set (db_namespaces d) then db_namespaces d else db_namespaces d @ [name]) \<rparr>))"

definition namespace_exists :: "faults \<Rightarrow> string \<Rightarrow> bool sql" where
  "namespace_exists F name = statement F ''namespace_exists'' (\<lambda>d. (Inr (name \<in> set (db_namespaces d)), d))"

definition list_namespaces :: "faults \<Rightarrow> string list sql" where
  "list_namespaces F = statement F ''list_namespaces'' (\<lambda>d. (Inr (sort (db_namespaces d)), d))"

definition row_key :: "MachineRow \<Rightarrow> string \<times> string \<times> string" where
  "row_key r = (r_namespace r, r_fleet r, r_name r)"

definition create_machine :: "faults \<Rightarrow> uid \<Rightarrow> string \<Rightarrow> string \<Rightarrow> string \<Rightarrow> MachineSpec \<Rightarrow> ApiMachine sql" where
  "create_machine F uid ns fleet name spec = statement F ''create_machine'' (\<lambda>d.
     let row = \<lparr> r_uid = uid, r_namespace = ns, r_fleet = fleet, r_name = name, r_spec = spec,
                 r_status = status_to_json status_default, r_host_id = None \<rparr> in
     if uid \<in> r_uid ` set (db_machines d) \<or> row_key row \<in> row_key ` set (db_machines d) then (Inl UniqueViolation, d)
     else if ns \<notin> set (db_namespaces d) then (Inl ForeignKeyViolation, d)
     else (into_machine row, d\<lparr> db_machines := db_machines d @ [row] \<rparr>))"

definition fetch_optional :: "(MachineRow \<Rightarrow> bool) \<Rightarrow> db \<Rightarrow> sql_error + ApiMachine option" where
  "fetch_optional sel d =
     (case find sel (db_machines d) of
        None \<Rightarrow> Inr None
      | Some r \<Rightarrow> res_bind (into_machine r) (\<lambda>m. Inr (Some m)))"

definition get_machine :: "faults \<Rightarrow> string \<Rightarrow> string \<Rightarrow> ApiMachine option sql" where
  "get_machine F ns name = statement F ''get_machine'' (\<lambda>d. (fetch_optional (\<lambda>r. r_namespace r = ns \<and> r_name r = name) d, d))"

definition get_machine_by_uid :: "faults \<Rightarrow> uid \<Rightarrow> ApiMachine option sql" where
  "get_machine_by_uid F uid = statement F ''get_machine_by_uid'' (\<lambda>d. (fetch_optional (\<lambda>r. r_uid r = uid) d, d))"

fun collect_rows :: "MachineRow list \<Rightarrow> sql_error + ApiMachine list" where
  "collect_rows [] = Inr []"
| "collect_rows (r # rs) = res_bind (into_machine r) (\<lambda>m. res_bind (collect_rows rs) (\<lambda>ms. Inr (m # ms)))"

definition list_machines :: "faults \<Rightarrow> string \<Rightarrow> ApiMachine list sql" where
  "list_machines F ns = statement F ''list_machines'' (\<lambda>d.
     (collect_rows (sort_key r_name (filter (\<lambda>r. r_namespace r = ns) (db_machines d))), d))"

definition list_all_machines :: "faults \<Rightarrow> ApiMachine list sql" where
  "list_all_machines F = statement F ''list_all_machines'' (\<lambda>d. (collect_rows (db_machines d), d))"

text \<open>The updates of one row, and the statement that applies one to every row a key selects.\<close>

datatype update_op =
    SetObservedState string
  | IncrementRetryCount
  | SetObserved string string
  | SetRunning bool
  | UpdateStatus MachineStatus
  | AssignHost string

fun update_row :: "update_op \<Rightarrow> MachineRow \<Rightarrow> sql_error + MachineRow" where
  "update_row (SetObservedState s) r = Inr (r\<lparr> r_status := (r_status r)\<lparr> js_state := s \<rparr> \<rparr>)"
| "update_row IncrementRetryCount r =
     (let n = js_retry_count (r_status r) + 1 in
      if n \<le> - (2 ^ 31) \<or> 2 ^ 31 \<le> n then Inl OutOfRange
      else Inr (r\<lparr> r_status := (r_status r)\<lparr> js_retry_count := n \<rparr> \<rparr>))"
| "update_row (SetObserved s ip) r = Inr (r\<lparr> r_status := (r_status r)\<lparr> js_state := s, js_ip := Some ip \<rparr> \<rparr>)"
| "update_row (SetRunning b) r = Inr (r\<lparr> r_spec := (r_spec r)\<lparr> ms_running := b \<rparr> \<rparr>)"
| "update_row (UpdateStatus st) r = Inr (r\<lparr> r_status := status_to_json st \<rparr>)"
| "update_row (AssignHost h) r = Inr (r\<lparr> r_host_id := Some h \<rparr>)"

datatype row_sel = ByUid uid | ByName string string

fun selected :: "row_sel \<Rightarrow> MachineRow \<Rightarrow> bool" where
  "selected (ByUid u) r \<longleftrightarrow> r_uid r = u"
| "selected (ByName ns name) r \<longleftrightarrow> r_namespace r = ns \<and> r_name r = name"

fun update_rows :: "update_op \<Rightarrow> row_sel \<Rightarrow> MachineRow list \<Rightarrow> sql_error + MachineRow list" where
  "update_rows op k [] = Inr []"
| "update_rows op k (r # rs) =
     res_bind (if selected k r then update_row op r else Inr r) (\<lambda>r'. res_bind (update_rows op k rs) (\<lambda>rs'. Inr (r' # rs')))"

definition store_update :: "faults \<Rightarrow> string \<Rightarrow> update_op \<Rightarrow> row_sel \<Rightarrow> nat sql" where
  "store_update F q op k = statement F q (\<lambda>d.
     case update_rows op k (db_machines d) of
       Inl e \<Rightarrow> (Inl e, d)
     | Inr rs \<Rightarrow> (Inr (length (filter (selected k) (db_machines d))), d\<lparr> db_machines := rs \<rparr>))"

definition delete_machine :: "faults \<Rightarrow> string \<Rightarrow> string \<Rightarrow> nat sql" where
  "delete_machine F ns name = statement F ''delete_machine'' (\<lambda>d.
     (Inr (length (filter (selected (ByName ns name)) (db_machines d))),
      d\<lparr> db_machines := filter (\<lambda>r. \<not> selected (ByName ns name) r) (db_machines d) \<rparr>))"

definition snapshot_key :: "Snapshot \<Rightarrow> string \<times> string \<times> string" where
  "snapshot_key s = (sn_namespace s, sn_machine s, sn_name s)"

definition create_snapshot ::
  "faults \<Rightarrow> uid \<Rightarrow> string \<Rightarrow> string \<Rightarrow> string \<Rightarrow> string \<Rightarrow> string \<Rightarrow> u64 \<Rightarrow> string \<Rightarrow> Snapshot sql" where
  "create_snapshot F uid ns machine name knd host mem status = statement F ''create_snapshot'' (\<lambda>d.
     let row = \<lparr> sn_uid = uid, sn_namespace = ns, sn_machine = machine, sn_name = name, sn_kind = knd, sn_host_id = host,
                 sn_memory_mib = sint mem, sn_status = status \<rparr> in
     if uid \<in> sn_uid ` set (db_snapshots d) \<or> snapshot_key row \<in> snapshot_key ` set (db_snapshots d)
     then (Inl UniqueViolation, d)
     else if ns \<notin> set (db_namespaces d) then (Inl ForeignKeyViolation, d)
     else (Inr (into_snapshot row), d\<lparr> db_snapshots := db_snapshots d @ [row] \<rparr>))"

definition list_snapshots :: "faults \<Rightarrow> string \<Rightarrow> string \<Rightarrow> Snapshot list sql" where
  "list_snapshots F ns machine = statement F ''list_snapshots'' (\<lambda>d.
     (Inr (map into_snapshot (rev (sort_key sn_name (filter (\<lambda>s. sn_namespace s = ns \<and> sn_machine s = machine) (db_snapshots d))))), d))"

definition get_snapshot :: "faults \<Rightarrow> string \<Rightarrow> string \<Rightarrow> Snapshot option sql" where
  "get_snapshot F ns i = statement F ''get_snapshot'' (\<lambda>d.
     (Inr (map_option into_snapshot (find (\<lambda>s. sn_namespace s = ns \<and> sn_name s = i) (db_snapshots d))), d))"

definition delete_snapshot :: "faults \<Rightarrow> string \<Rightarrow> string \<Rightarrow> nat sql" where
  "delete_snapshot F ns i = statement F ''delete_snapshot'' (\<lambda>d.
     let sel = (\<lambda>s. sn_namespace s = ns \<and> sn_name s = i) in
     (Inr (length (filter sel (db_snapshots d))), d\<lparr> db_snapshots := filter (\<lambda>s. \<not> sel s) (db_snapshots d) \<rparr>))"

definition upsert_host :: "faults \<Rightarrow> int \<Rightarrow> string \<Rightarrow> CapacityRow \<Rightarrow> unit sql" where
  "upsert_host F now hid cap = statement F ''upsert_host'' (\<lambda>d.
     let row = \<lparr> hr_host_id = hid, hr_capacity = cap, hr_last_heartbeat = now, hr_healthy = True \<rparr> in
     (Inr (), d\<lparr> db_hosts := (if hid \<in> hr_host_id ` set (db_hosts d)
                               then map (\<lambda>r. if hr_host_id r = hid then row else r) (db_hosts d)
                               else db_hosts d @ [row]) \<rparr>))"

definition touch_heartbeat :: "faults \<Rightarrow> int \<Rightarrow> string \<Rightarrow> nat sql" where
  "touch_heartbeat F now hid = statement F ''touch_heartbeat'' (\<lambda>d.
     (Inr (length (filter (\<lambda>r. hr_host_id r = hid) (db_hosts d))),
      d\<lparr> db_hosts := map (\<lambda>r. if hr_host_id r = hid then r\<lparr> hr_last_heartbeat := now, hr_healthy := True \<rparr> else r)
            (db_hosts d) \<rparr>))"

definition live_host_capacities :: "faults \<Rightarrow> int \<Rightarrow> int \<Rightarrow> (string \<times> CapacityRow) list sql" where
  "live_host_capacities F now stale_after = statement F ''live_host_capacities'' (\<lambda>d.
     (Inr (map (\<lambda>r. (hr_host_id r, hr_capacity r))
             (filter (\<lambda>r. hr_healthy r \<and> now - stale_after < hr_last_heartbeat r) (db_hosts d))), d))"

definition role_binding :: "faults \<Rightarrow> string \<Rightarrow> string \<Rightarrow> Role option sql" where
  "role_binding F subject ns = statement F ''role_binding'' (\<lambda>d.
     ((case db_rbac d (subject, ns) of
         None \<Rightarrow> Inr None
       | Some s \<Rightarrow> (case role_parse s of Inl _ \<Rightarrow> Inl Decode | Inr r \<Rightarrow> Inr (Some r))), d))"

definition put_binding :: "faults \<Rightarrow> string \<Rightarrow> string \<Rightarrow> Role \<Rightarrow> unit sql" where
  "put_binding F subject ns role = statement F ''put_binding'' (\<lambda>d.
     if ns \<notin> set (db_namespaces d) then (Inl ForeignKeyViolation, d)
     else (Inr (), d\<lparr> db_rbac := (db_rbac d)((subject, ns) \<mapsto> role_as_str role) \<rparr>))"

definition audit :: "faults \<Rightarrow> string \<Rightarrow> string option \<Rightarrow> string \<Rightarrow> string option \<Rightarrow> string \<Rightarrow> unit sql" where
  "audit F actor ns action resource outcome = statement F ''audit'' (\<lambda>d.
     (Inr (), d\<lparr> db_audit := db_audit d @ [\<lparr> au_actor = actor, au_namespace = ns, au_action = action, au_resource = resource,
                                              au_outcome = outcome \<rparr>] \<rparr>))"


section \<open>Round trips\<close>

lemma state_from_str_as_str [simp]: "state_from_str (as_str st) = Inr st"
  by (cases st) (simp_all add: state_from_str_def state_all_def)

lemma proto_state_name_of_state [simp]: "proto_state_name (api_state_to_proto st) = Some (as_str st)"
  by (cases st) (simp_all add: proto_state_name_def api_state_to_proto_def state_all_def)

lemma proto_state_name_typed: "proto_state_name v = Some s \<Longrightarrow> \<exists>st. s = as_str st"
  by (auto simp: proto_state_name_def split: if_splits)

lemma role_parse_as_str [simp]: "role_parse (role_as_str r) = Inr r"
  by (cases r) (simp_all add: role_parse_def)

lemma status_round_trip [simp]: "status_from_json (status_to_json st) = Inr st"
proof -
  have "0 \<le> uint (st_retry_count st)" "uint (st_retry_count st) < 2 ^ 32"
    using uint_bounded [of "st_retry_count st"] by simp_all
  then show ?thesis by (simp add: status_from_json_def status_to_json_def)
qed


section \<open>Well-typed databases\<close>

text \<open>Every row decodes, and the keys are unique.\<close>

definition row_typed :: "MachineRow \<Rightarrow> bool" where
  "row_typed r \<longleftrightarrow>
     (\<exists>st. js_state (r_status r) = as_str st) \<and> 0 \<le> js_retry_count (r_status r) \<and> js_retry_count (r_status r) < 2 ^ 32"

definition db_typed :: "db \<Rightarrow> bool" where
  "db_typed d \<longleftrightarrow>
     (\<forall>r \<in> set (db_machines d). row_typed r \<and> r_namespace r \<in> set (db_namespaces d)) \<and>
     distinct (map r_uid (db_machines d)) \<and> distinct (map row_key (db_machines d)) \<and>
     distinct (map snapshot_key (db_snapshots d)) \<and> distinct (map hr_host_id (db_hosts d)) \<and> distinct (db_namespaces d) \<and>
     (\<forall>k s. db_rbac d k = Some s \<longrightarrow> (\<exists>role. s = role_as_str role))"

end
