(* ===== verification/Controller.thy ===== *)
theory Controller
  imports Controller_Store
begin

text \<open>
  The control plane's decisions and its entry points: authorisation (\<open>services/mm-controller/src/authz.rs\<close>,
  \<open>api/mod.rs\<close>), the REST handlers (\<open>api/namespaces.rs\<close>, \<open>api/machines.rs\<close>, \<open>api/snapshots.rs\<close>), the
  scheduler, the reconcile decision and the reconcile loop (\<open>scheduler.rs\<close>, \<open>reconcile.rs\<close>, \<open>loop.rs\<close>), and the calls of the
  agents with the channels back to them (\<open>grpc.rs\<close>, \<open>convert.rs\<close>).  The state is the database, the channels and the
  requests waiting for an agent.  A verified token's claims, the fresh identifiers of \<open>Uuid::new_v4\<close>, the parser of
  identifiers and the clock are arguments.  A channel that is full delays its sender and is not a branch of its own.
\<close>

section \<open>Authorisation\<close>

datatype Verb = Get | List | Create | Update | Delete | Exec

fun required :: "Verb \<Rightarrow> Role" where
  "required Get = Viewer"
| "required List = Viewer"
| "required Create = Operator"
| "required Update = Operator"
| "required Exec = Operator"
| "required Delete = Admin"

definition authorize :: "(string \<times> Role) option \<Rightarrow> string \<Rightarrow> Verb \<Rightarrow> bool" where
  "authorize binding ns verb \<longleftrightarrow>
     (case binding of Some (bns, role) \<Rightarrow> if bns = ns then required verb \<le> role else False | None \<Rightarrow> False)"

record Claims =
  cl_sub :: string
  cl_iss :: string
  cl_aud :: string
  cl_exp :: int

text \<open>The answers of the REST interface and of the agents' interface.\<close>

datatype message = Text string | Sql sql_error

datatype ApiError =
    Unauthorized string
  | Forbidden
  | NotFound
  | Conflict string
  | BadRequest string
  | ServiceUnavailable string
  | Internal message

fun api_error_of :: "sql_error \<Rightarrow> ApiError" where
  "api_error_of e = (if e = UniqueViolation then Conflict ''resource already exists'' else Internal (Sql e))"

datatype Status = invalid_argument string | not_found string | internal sql_error


section \<open>The controller's state\<close>

text \<open>A message to an agent, with the fields of the wire type.\<close>

record ProtoMachine =
  pm_uid :: uid
  pm_namespace :: string
  pm_image :: string
  pm_kernel :: string
  pm_vcpus :: u32
  pm_memory_mib :: u64
  pm_ssh :: bool
  pm_workload :: "Workload option"
  pm_net_mode :: string
  pm_running :: bool
  pm_state :: int
  pm_ip :: string
  pm_health :: string
  pm_host_id :: string
  pm_retry_count :: u32

datatype task =
    Assignment ProtoMachine
  | ExecTask string uid string "string list" u64
  | SnapshotTask string uid string bool

record ExecChunk =
  ec_stream :: string
  ec_data :: bytes
  ec_exit_code :: int
  ec_done :: bool
  ec_request :: string
  ec_error :: string

record SnapshotResult =
  sr_request :: string
  sr_id :: string
  sr_ok :: bool
  sr_error :: string

text \<open>The channels to the agents: none when no agent has registered for the host; a closed channel refuses messages.
  A pending command has the chunks its client has not read yet; a pending snapshot is waited for until its result is
  delivered.\<close>

record channel =
  ch_open :: bool
  ch_queue :: "task list"

type_synonym registry = "string \<Rightarrow> channel option"

record ctl =
  c_db :: db
  c_assign :: registry
  c_exec :: registry
  c_snap :: registry
  c_pending_exec :: "string \<Rightarrow> ExecChunk list option"
  c_pending_snap :: "string set"
  c_snap_result :: "string \<Rightarrow> SnapshotResult option"
  c_tick :: "ApiMachine list"
  c_tick_hosts :: "(string \<times> CapacityRow) list"

type_synonym ('e, 'a) ctl_op = "ctl \<Rightarrow> ('e + 'a) \<times> ctl"

definition ctl_bind :: "('e, 'a) ctl_op \<Rightarrow> ('a \<Rightarrow> ('e, 'b) ctl_op) \<Rightarrow> ('e, 'b) ctl_op" where
  "ctl_bind f g c = (case f c of (Inl e, c') \<Rightarrow> (Inl e, c') | (Inr x, c') \<Rightarrow> g x c')"

definition ctl_fail :: "'e \<Rightarrow> ('e, 'a) ctl_op" where
  "ctl_fail e c = (Inl e, c)"

definition ctl_return :: "'a \<Rightarrow> ('e, 'a) ctl_op" where
  "ctl_return x c = (Inr x, c)"

text \<open>A statement whose error ends the operation, and one whose result is ignored.\<close>

definition on_db :: "(sql_error \<Rightarrow> 'e) \<Rightarrow> 'a sql \<Rightarrow> ('e, 'a) ctl_op" where
  "on_db conv f c =
     (case f (c_db c) of (Inl e, d) \<Rightarrow> (Inl (conv e), c\<lparr> c_db := d \<rparr>) | (Inr x, d) \<Rightarrow> (Inr x, c\<lparr> c_db := d \<rparr>))"

definition ignore_db :: "'a sql \<Rightarrow> ('e, unit) ctl_op" where
  "ignore_db f c = (Inr (), c\<lparr> c_db := snd (f (c_db c)) \<rparr>)"

definition connect :: "string \<Rightarrow> registry \<Rightarrow> registry" where
  "connect h reg = reg(h \<mapsto> \<lparr> ch_open = True, ch_queue = [] \<rparr>)"

definition send :: "string \<Rightarrow> task \<Rightarrow> registry \<Rightarrow> bool \<times> registry" where
  "send h t reg =
     (case reg h of
        Some ch \<Rightarrow> if ch_open ch then (True, reg(h \<mapsto> ch\<lparr> ch_queue := ch_queue ch @ [t] \<rparr>)) else (False, reg)
      | None \<Rightarrow> (False, reg))"

definition ensure_allowed :: "faults \<Rightarrow> Claims \<Rightarrow> string \<Rightarrow> Verb \<Rightarrow> string \<Rightarrow> (ApiError, unit) ctl_op" where
  "ensure_allowed F cl ns verb action =
     ctl_bind (on_db api_error_of (role_binding F (cl_sub cl) ns)) (\<lambda>binding.
       if authorize (map_option (\<lambda>role. (ns, role)) binding) ns verb then ctl_return ()
       else ctl_bind (ignore_db (audit F (cl_sub cl) (Some ns) action None ''denied'')) (\<lambda>_. ctl_fail Forbidden))"

definition audited :: "faults \<Rightarrow> Claims \<Rightarrow> string \<Rightarrow> string \<Rightarrow> string \<Rightarrow> (ApiError, unit) ctl_op" where
  "audited F cl ns action resource = ignore_db (audit F (cl_sub cl) (Some ns) action (Some resource) ''allowed'')"


section \<open>The REST handlers\<close>

definition namespaces_create :: "faults \<Rightarrow> Claims \<Rightarrow> string \<Rightarrow> (ApiError, string) ctl_op" where
  "namespaces_create F cl name =
     (if name = [] then ctl_fail (BadRequest ''namespace name is required'')
      else ctl_bind (on_db api_error_of (create_namespace F name)) (\<lambda>_.
           ctl_bind (on_db api_error_of (put_binding F (cl_sub cl) name Admin)) (\<lambda>_.
           ctl_bind (audited F cl name ''create_namespace'' name) (\<lambda>_.
           ctl_return name))))"

definition namespaces_list :: "faults \<Rightarrow> Claims \<Rightarrow> (ApiError, string list) ctl_op" where
  "namespaces_list F cl = on_db api_error_of (list_namespaces F)"

datatype reply = OneMachine ApiMachine | Machines "ApiMachine list" | NoContent | RunningSet string bool

datatype machines_request =
    CreateMachine uid string string MachineSpec
  | GetMachine string
  | ListMachines
  | DeleteMachine string
  | StartMachine string
  | StopMachine string

definition set_running_handler :: "faults \<Rightarrow> Claims \<Rightarrow> string \<Rightarrow> string \<Rightarrow> bool \<Rightarrow> string \<Rightarrow> (ApiError, reply) ctl_op" where
  "set_running_handler F cl ns name running action =
     ctl_bind (ensure_allowed F cl ns Update action) (\<lambda>_.
     ctl_bind (on_db api_error_of (store_update F ''set_running'' (SetRunning running) (ByName ns name))) (\<lambda>affected.
       if affected = 0 then ctl_fail NotFound
       else ctl_bind (audited F cl ns action name) (\<lambda>_. ctl_return (RunningSet name running))))"

fun machines_api :: "faults \<Rightarrow> Claims \<Rightarrow> string \<Rightarrow> machines_request \<Rightarrow> (ApiError, reply) ctl_op" where
  "machines_api F cl ns (CreateMachine u fleet name spec) =
     ctl_bind (ensure_allowed F cl ns Create ''create_machine'') (\<lambda>_.
     ctl_bind (on_db api_error_of (namespace_exists F ns)) (\<lambda>ex.
       if \<not> ex then ctl_fail NotFound
       else if name = [] then ctl_fail (BadRequest ''machine name is required'')
       else ctl_bind (on_db api_error_of (create_machine F u ns fleet name spec)) (\<lambda>m.
            ctl_bind (audited F cl ns ''create_machine'' name) (\<lambda>_. ctl_return (OneMachine m)))))"
| "machines_api F cl ns (GetMachine name) =
     ctl_bind (ensure_allowed F cl ns Get ''get_machine'') (\<lambda>_.
     ctl_bind (on_db api_error_of (get_machine F ns name)) (\<lambda>m.
       case m of None \<Rightarrow> ctl_fail NotFound | Some m \<Rightarrow> ctl_return (OneMachine m)))"
| "machines_api F cl ns ListMachines =
     ctl_bind (ensure_allowed F cl ns List ''list_machines'') (\<lambda>_.
     ctl_bind (on_db api_error_of (list_machines F ns)) (\<lambda>ms. ctl_return (Machines ms)))"
| "machines_api F cl ns (DeleteMachine name) =
     ctl_bind (ensure_allowed F cl ns Delete ''delete_machine'') (\<lambda>_.
     ctl_bind (on_db api_error_of (delete_machine F ns name)) (\<lambda>affected.
       if affected = 0 then ctl_fail NotFound
       else ctl_bind (audited F cl ns ''delete_machine'' name) (\<lambda>_. ctl_return NoContent)))"
| "machines_api F cl ns (StartMachine name) = set_running_handler F cl ns name True ''start_machine''"
| "machines_api F cl ns (StopMachine name) = set_running_handler F cl ns name False ''stop_machine''"

text \<open>The machine a command or a snapshot is for, and the host it runs on.\<close>

definition running_machine :: "faults \<Rightarrow> string \<Rightarrow> string \<Rightarrow> (ApiError, ApiMachine \<times> string) ctl_op" where
  "running_machine F ns name =
     ctl_bind (on_db api_error_of (get_machine F ns name)) (\<lambda>m.
       case m of
         None \<Rightarrow> ctl_fail NotFound
       | Some m \<Rightarrow>
           if st_state (mo_status m) \<noteq> Running then ctl_fail (BadRequest (''machine '' @ name @ '' is not running''))
           else (case mo_host_id m of
                   None \<Rightarrow> ctl_fail (ServiceUnavailable ''machine is not placed on a host'')
                 | Some h \<Rightarrow> ctl_return (m, h)))"

text \<open>A command: authorised, routed to the host's agent, and its request registered.  The client then waits
  \<open>timeout_ms\<close> plus a grace period for each chunk.\<close>

definition exec_begin ::
  "faults \<Rightarrow> Claims \<Rightarrow> string \<Rightarrow> string \<Rightarrow> string \<Rightarrow> string list \<Rightarrow> u64 option \<Rightarrow> (ApiError, u64) ctl_op" where
  "exec_begin F cl request ns name command timeout =
     ctl_bind (ensure_allowed F cl ns Exec ''exec_machine'') (\<lambda>_.
       if command = [] then ctl_fail (BadRequest ''command is required'')
       else ctl_bind (running_machine F ns name) (\<lambda>(m, h) c.
         let timeout_ms = (case timeout of Some t \<Rightarrow> t | None \<Rightarrow> 60000);
             begun = c\<lparr> c_pending_exec := (c_pending_exec c)(request \<mapsto> []) \<rparr> in
         case send h (ExecTask request (mo_uid m) ns command timeout_ms) (c_exec begun) of
           (False, reg) \<Rightarrow>
             (Inl (ServiceUnavailable (''no agent connected for host '' @ h)),
              begun\<lparr> c_exec := reg, c_pending_exec := (c_pending_exec begun)(request := None) \<rparr>)
         | (True, reg) \<Rightarrow>
             ctl_bind (audited F cl ns ''exec_machine'' name) (\<lambda>_. ctl_return (saturating_add timeout_ms 30000))
               (begun\<lparr> c_exec := reg \<rparr>)))"

datatype line = ErrorLine string | DoneLine int | DataLine string bytes

definition chunk_to_ndjson :: "ExecChunk \<Rightarrow> line" where
  "chunk_to_ndjson c =
     (if ec_error c \<noteq> [] then ErrorLine (ec_error c)
      else if ec_done c then DoneLine (ec_exit_code c)
      else DataLine (ec_stream c) (ec_data c))"

text \<open>One round of the task that forwards a command's chunks.  The receiver sees the end of the stream only when the request
  has no sender any more; with a sender and no chunk it waits, and gives up when the wait has passed.  \<open>gone\<close> says that the
  client has hung up.  The result is the line sent and whether the task goes on.\<close>

definition exec_poll :: "string \<Rightarrow> bool \<Rightarrow> bool \<Rightarrow> ctl \<Rightarrow> (line list \<times> bool) \<times> ctl" where
  "exec_poll request timed_out gone c =
     (let finish = c\<lparr> c_pending_exec := (c_pending_exec c)(request := None) \<rparr>;
          sent = (\<lambda>l. if gone then [] else [l]) in
      case c_pending_exec c request of
        Some (chunk # rest) \<Rightarrow>
          let terminal = ec_done chunk \<or> ec_error chunk \<noteq> [] in
          if gone \<or> terminal then ((sent (chunk_to_ndjson chunk), False), finish)
          else ((sent (chunk_to_ndjson chunk), True), c\<lparr> c_pending_exec := (c_pending_exec c)(request \<mapsto> rest) \<rparr>)
      | Some [] \<Rightarrow>
          if timed_out then ((sent (ErrorLine ''exec timed out waiting for the guest''), False), finish) else (([], True), c)
      | None \<Rightarrow> ((sent (ErrorLine ''agent disconnected before exec completed''), False), finish))"

text \<open>A snapshot: dispatched, then awaited.  The receiver fails only when the request has no sender and no result.\<close>

definition snapshots_begin :: "faults \<Rightarrow> Claims \<Rightarrow> string \<Rightarrow> string \<Rightarrow> string \<Rightarrow> bool \<Rightarrow> (ApiError, ApiMachine \<times> string) ctl_op" where
  "snapshots_begin F cl request ns name is_branch =
     ctl_bind (ensure_allowed F cl ns Create ''create_snapshot'') (\<lambda>_.
     ctl_bind (running_machine F ns name) (\<lambda>(m, h) c.
       let begun = c\<lparr> c_pending_snap := insert request (c_pending_snap c) \<rparr> in
       case send h (SnapshotTask request (mo_uid m) ns is_branch) (c_snap begun) of
         (False, reg) \<Rightarrow>
           (Inl (ServiceUnavailable (''no agent connected for host '' @ h)),
            begun\<lparr> c_snap := reg, c_pending_snap := c_pending_snap begun - {request} \<rparr>)
       | (True, reg) \<Rightarrow> (Inr (m, h), begun\<lparr> c_snap := reg \<rparr>)))"

definition snapshots_await ::
  "faults \<Rightarrow> Claims \<Rightarrow> string \<Rightarrow> uid \<Rightarrow> string \<Rightarrow> string \<Rightarrow> bool \<Rightarrow> ApiMachine \<Rightarrow> string \<Rightarrow> (ApiError, Snapshot) ctl_op" where
  "snapshots_await F cl request u ns name is_branch m h c =
     (case c_snap_result c request of
        None \<Rightarrow>
          if request \<in> c_pending_snap c
          then (Inl (ServiceUnavailable ''snapshot timed out''), c\<lparr> c_pending_snap := c_pending_snap c - {request} \<rparr>)
          else (Inl (ServiceUnavailable ''agent disconnected before the snapshot completed''), c)
      | Some r \<Rightarrow>
          if \<not> sr_ok r then (Inl (Internal (Text (''snapshot failed on the agent: '' @ sr_error r))), c)
          else ctl_bind (on_db api_error_of (create_snapshot F u ns name (sr_id r) (if is_branch then ''branch'' else ''full'') h
                                               (ms_memory_mib (mo_spec m)) ''ready'')) (\<lambda>snap.
               ctl_bind (audited F cl ns ''create_snapshot'' name) (\<lambda>_. ctl_return snap)) c)"

definition snapshots_list :: "faults \<Rightarrow> Claims \<Rightarrow> string \<Rightarrow> string \<Rightarrow> (ApiError, Snapshot list) ctl_op" where
  "snapshots_list F cl ns name =
     ctl_bind (ensure_allowed F cl ns List ''list_snapshots'') (\<lambda>_. on_db api_error_of (list_snapshots F ns name))"

definition snapshots_delete :: "faults \<Rightarrow> Claims \<Rightarrow> string \<Rightarrow> string \<Rightarrow> (ApiError, unit) ctl_op" where
  "snapshots_delete F cl ns i =
     ctl_bind (ensure_allowed F cl ns Delete ''delete_snapshot'') (\<lambda>_.
     ctl_bind (on_db api_error_of (delete_snapshot F ns i)) (\<lambda>affected.
       if affected = 0 then ctl_fail NotFound else audited F cl ns ''delete_snapshot'' i))"


section \<open>Scheduling and reconciliation\<close>

record HostCapacity =
  hc_host_id :: string
  hc_vcpus_free :: u32
  hc_mem_mib_free :: u64
  hc_healthy :: bool

record Demand =
  dm_vcpus :: u32
  dm_mem_mib :: u64

text \<open>\<open>max_by_key\<close>: the last of the maximal elements.\<close>

fun max_by_key :: "('a \<Rightarrow> 'b::linorder) \<Rightarrow> 'a list \<Rightarrow> 'a option" where
  "max_by_key f [] = None"
| "max_by_key f (x # xs) =
     (case max_by_key f xs of None \<Rightarrow> Some x | Some y \<Rightarrow> if f x \<le> f y then Some y else Some x)"

definition scheduler_place :: "HostCapacity list \<Rightarrow> Demand \<Rightarrow> HostCapacity option" where
  "scheduler_place hosts d =
     max_by_key hc_mem_mib_free
       (filter (\<lambda>h. hc_healthy h \<and> dm_vcpus d \<le> hc_vcpus_free h \<and> dm_mem_mib d \<le> hc_mem_mib_free h) hosts)"

datatype Action = NoAction | AssignAndStart | StopAction | Destroy | Retry

record Observed =
  ob_state :: State
  ob_host_assigned :: bool
  ob_retry_count :: u32

definition decide :: "bool \<Rightarrow> bool \<Rightarrow> Observed \<Rightarrow> u32 \<Rightarrow> Action" where
  "decide desired_running spec_deleted obs max_retries =
     (if spec_deleted then (if ob_state obs = Destroyed then NoAction else Destroy)
      else if desired_running then
        (if ob_state obs = Running then NoAction
         else if ob_state obs = Failed then (if ob_retry_count obs < max_retries then Retry else NoAction)
         else if \<not> ob_host_assigned obs \<or> ob_state obs = Stopped \<or> ob_state obs = Created then AssignAndStart
         else NoAction)
      else if ob_state obs = Running then StopAction else NoAction)"

abbreviation MAX_RETRIES :: u32 where "MAX_RETRIES \<equiv> 3"
abbreviation HOST_STALE_SECS :: int where "HOST_STALE_SECS \<equiv> 30"

definition machine_to_proto :: "ApiMachine \<Rightarrow> ProtoMachine" where
  "machine_to_proto m =
     \<lparr> pm_uid = mo_uid m, pm_namespace = mo_namespace m, pm_image = ms_image (mo_spec m),
       pm_kernel = (case ms_kernel (mo_spec m) of Some k \<Rightarrow> k | None \<Rightarrow> []), pm_vcpus = ms_vcpus (mo_spec m),
       pm_memory_mib = ms_memory_mib (mo_spec m), pm_ssh = ms_ssh (mo_spec m), pm_workload = ms_workload (mo_spec m),
       pm_net_mode = ''auto'', pm_running = ms_running (mo_spec m), pm_state = api_state_to_proto (st_state (mo_status m)),
       pm_ip = (case st_ip (mo_status m) of Some i \<Rightarrow> i | None \<Rightarrow> []), pm_health = st_health (mo_status m),
       pm_host_id = (case mo_host_id m of Some h \<Rightarrow> h | None \<Rightarrow> []), pm_retry_count = st_retry_count (mo_status m) \<rparr>"

definition host_capacity :: "string \<times> CapacityRow \<Rightarrow> HostCapacity" where
  "host_capacity = (\<lambda>(h, cap). \<lparr> hc_host_id = h, hc_vcpus_free = cr_vcpus_free cap, hc_mem_mib_free = cr_mem_mib_free cap,
                                   hc_healthy = True \<rparr>)"

text \<open>A tick of the loop: load every machine and the live hosts, then take the machines one at a time.  Other operations may
  come between two machines, so the machines still to be taken are a part of the state; an error ends the tick.\<close>

definition tick_begin :: "faults \<Rightarrow> int \<Rightarrow> (sql_error, unit) ctl_op" where
  "tick_begin F now =
     ctl_bind (on_db id (list_all_machines F)) (\<lambda>machines.
     ctl_bind (on_db id (live_host_capacities F now HOST_STALE_SECS)) (\<lambda>hosts c.
       (Inr (), c\<lparr> c_tick := machines, c_tick_hosts := hosts \<rparr>)))"

definition push :: "string \<Rightarrow> ApiMachine \<Rightarrow> (sql_error, unit) ctl_op" where
  "push h m c = (Inr (), c\<lparr> c_assign := snd (send h (Assignment (machine_to_proto m)) (c_assign c)) \<rparr>)"

definition assign_and_push :: "faults \<Rightarrow> HostCapacity list \<Rightarrow> ApiMachine \<Rightarrow> (sql_error, unit) ctl_op" where
  "assign_and_push F hosts m =
     (let host = (case mo_host_id m of
                    Some h \<Rightarrow> Some h
                  | None \<Rightarrow> map_option hc_host_id
                      (scheduler_place hosts \<lparr> dm_vcpus = ms_vcpus (mo_spec m), dm_mem_mib = ms_memory_mib (mo_spec m) \<rparr>)) in
      case host of
        None \<Rightarrow> ctl_return ()
      | Some h \<Rightarrow>
          ctl_bind (if mo_host_id m \<noteq> Some h then on_db id (store_update F ''assign_host'' (AssignHost h) (ByUid (mo_uid m)))
                    else ctl_return 0) (\<lambda>_.
          push h (m\<lparr> mo_spec := (mo_spec m)\<lparr> ms_running := True \<rparr>, mo_host_id := Some h \<rparr>)))"

definition reconcile_machine :: "faults \<Rightarrow> HostCapacity list \<Rightarrow> ApiMachine \<Rightarrow> (sql_error, unit) ctl_op" where
  "reconcile_machine F hosts m =
     (let obs = \<lparr> ob_state = st_state (mo_status m), ob_host_assigned = (mo_host_id m \<noteq> None),
                  ob_retry_count = st_retry_count (mo_status m) \<rparr>;
          action = decide (ms_running (mo_spec m)) False obs MAX_RETRIES in
      ctl_bind (if action = Retry
                then on_db id (store_update F ''increment_retry_count'' IncrementRetryCount (ByUid (mo_uid m)))
                else ctl_return 0) (\<lambda>_.
      case action of
        AssignAndStart \<Rightarrow> assign_and_push F hosts m
      | Retry \<Rightarrow> assign_and_push F hosts m
      | StopAction \<Rightarrow>
          (case mo_host_id m of
             Some h \<Rightarrow> push h (m\<lparr> mo_spec := (mo_spec m)\<lparr> ms_running := False \<rparr> \<rparr>)
           | None \<Rightarrow> ctl_return ())
      | _ \<Rightarrow> ctl_return ()))"

definition tick_next :: "faults \<Rightarrow> ctl \<Rightarrow> ctl" where
  "tick_next F c =
     (case c_tick c of
        [] \<Rightarrow> c
      | m # ms \<Rightarrow>
          (case reconcile_machine F (map host_capacity (c_tick_hosts c)) m (c\<lparr> c_tick := ms \<rparr>) of
             (Inl _, c') \<Rightarrow> c'\<lparr> c_tick := [] \<rparr>
           | (Inr _, c') \<Rightarrow> c'))"

fun tick_rest :: "faults \<Rightarrow> nat \<Rightarrow> ctl \<Rightarrow> ctl" where
  "tick_rest F 0 c = c"
| "tick_rest F (Suc n) c = tick_rest F n (tick_next F c)"

text \<open>A tick that nothing interrupts.\<close>

definition reconcile_once :: "faults \<Rightarrow> int \<Rightarrow> ctl \<Rightarrow> ctl" where
  "reconcile_once F now c =
     (case tick_begin F now c of
        (Inl _, c') \<Rightarrow> c'
      | (Inr _, c') \<Rightarrow> tick_rest F (length (c_tick c')) c')"


section \<open>The agents' calls\<close>

text \<open>Identifiers arrive as text; \<open>parse\<close> is the parser of the identifier library.\<close>

type_synonym uid_parser = "string \<Rightarrow> uid option"

definition parse_uid :: "uid_parser \<Rightarrow> string \<Rightarrow> (Status, uid) ctl_op" where
  "parse_uid parse s =
     (case parse s of Some u \<Rightarrow> ctl_return u | None \<Rightarrow> ctl_fail (invalid_argument ''uid is not a valid UUID''))"

definition report_event :: "uid_parser \<Rightarrow> faults \<Rightarrow> string \<Rightarrow> int \<Rightarrow> string \<Rightarrow> (Status, unit) ctl_op" where
  "report_event parse F ev_uid ev_state ip =
     ctl_bind (parse_uid parse ev_uid) (\<lambda>u.
       case proto_state_name ev_state of
         None \<Rightarrow> ctl_fail (invalid_argument ''unknown machine state'')
       | Some state \<Rightarrow>
           ctl_bind (if ip = [] then on_db internal (store_update F ''set_observed_state'' (SetObservedState state) (ByUid u))
                     else on_db internal (store_update F ''set_observed'' (SetObserved state ip) (ByUid u))) (\<lambda>_. ctl_return ()))"

definition report_capacity :: "faults \<Rightarrow> int \<Rightarrow> string \<Rightarrow> CapacityRow \<Rightarrow> (Status, unit) ctl_op" where
  "report_capacity F now h cap = on_db internal (upsert_host F now h cap)"

definition heartbeat :: "faults \<Rightarrow> int \<Rightarrow> string \<Rightarrow> (Status, unit) ctl_op" where
  "heartbeat F now h = ctl_bind (on_db internal (touch_heartbeat F now h)) (\<lambda>_. ctl_return ())"

definition machine_svc_get :: "uid_parser \<Rightarrow> faults \<Rightarrow> string \<Rightarrow> (Status, ProtoMachine) ctl_op" where
  "machine_svc_get parse F ref =
     ctl_bind (parse_uid parse ref) (\<lambda>u.
     ctl_bind (on_db internal (get_machine_by_uid F u)) (\<lambda>found.
       case found of Some m \<Rightarrow> ctl_return (machine_to_proto m) | None \<Rightarrow> ctl_fail (not_found ''no such machine'')))"

definition machine_svc_delete :: "uid_parser \<Rightarrow> faults \<Rightarrow> string \<Rightarrow> (Status, string) ctl_op" where
  "machine_svc_delete parse F ref =
     ctl_bind (parse_uid parse ref) (\<lambda>u.
     ctl_bind (on_db internal (get_machine_by_uid F u)) (\<lambda>found.
       case found of
         Some m \<Rightarrow> ctl_bind (on_db internal (delete_machine F (mo_namespace m) (mo_name m))) (\<lambda>_. ctl_return [])
       | None \<Rightarrow> ctl_return ''already gone''))"

text \<open>A chunk goes to the client that waits for its request, a result to the caller that waits for its.\<close>

definition route :: "ExecChunk \<Rightarrow> ctl \<Rightarrow> bool \<times> ctl" where
  "route chunk c =
     (case c_pending_exec c (ec_request chunk) of
        Some q \<Rightarrow> (True, c\<lparr> c_pending_exec := (c_pending_exec c)(ec_request chunk \<mapsto> q @ [chunk]) \<rparr>)
      | None \<Rightarrow> (False, c))"

fun report_exec_result :: "ExecChunk list \<Rightarrow> ctl \<Rightarrow> ctl" where
  "report_exec_result [] c = c"
| "report_exec_result (chunk # rest) c =
     (case route chunk c of (True, c') \<Rightarrow> report_exec_result rest c' | (False, c') \<Rightarrow> c')"

definition complete :: "SnapshotResult \<Rightarrow> ctl \<Rightarrow> bool \<times> ctl" where
  "complete r c =
     (if sr_request r \<in> c_pending_snap c
      then (True, c\<lparr> c_pending_snap := c_pending_snap c - {sr_request r}, c_snap_result := (c_snap_result c)(sr_request r \<mapsto> r) \<rparr>)
      else (False, c))"

section \<open>Runs of the control plane\<close>

text \<open>Every operation that changes the state, in any order: calls of clients, calls of agents, the connections of agents,
  and the reconcile loop between them.\<close>

datatype ctl_step =
    NamespaceCreate faults Claims string
  | MachinesCall faults Claims string machines_request
  | ExecCall faults Claims string string string "string list" "u64 option"
  | ExecPoll string bool bool
  | SnapshotCall faults Claims string string string bool
  | SnapshotAwait faults Claims string uid string string bool ApiMachine string
  | SnapshotDelete faults Claims string string
  | TickBegin faults int
  | TickNext faults
  | ReportEvent faults string int string
  | ReportCapacity faults int string CapacityRow
  | Heartbeat faults int string
  | MachineSvcDelete faults string
  | ReportExecResult "ExecChunk list"
  | ReportSnapshotResult SnapshotResult
  | WatchAssignments string
  | WatchExec string
  | WatchSnapshots string

fun ctl_do :: "uid_parser \<Rightarrow> ctl_step \<Rightarrow> ctl \<Rightarrow> ctl" where
  "ctl_do parse (NamespaceCreate F cl name) c = snd (namespaces_create F cl name c)"
| "ctl_do parse (MachinesCall F cl ns r) c = snd (machines_api F cl ns r c)"
| "ctl_do parse (ExecCall F cl q ns name cmd t) c = snd (exec_begin F cl q ns name cmd t c)"
| "ctl_do parse (ExecPoll q timed_out gone) c = snd (exec_poll q timed_out gone c)"
| "ctl_do parse (SnapshotCall F cl q ns name b) c = snd (snapshots_begin F cl q ns name b c)"
| "ctl_do parse (SnapshotAwait F cl q u ns name b m h) c = snd (snapshots_await F cl q u ns name b m h c)"
| "ctl_do parse (SnapshotDelete F cl ns i) c = snd (snapshots_delete F cl ns i c)"
| "ctl_do parse (TickBegin F now) c = snd (tick_begin F now c)"
| "ctl_do parse (TickNext F) c = tick_next F c"
| "ctl_do parse (ReportEvent F u st ip) c = snd (report_event parse F u st ip c)"
| "ctl_do parse (ReportCapacity F now h cap) c = snd (report_capacity F now h cap c)"
| "ctl_do parse (Heartbeat F now h) c = snd (heartbeat F now h c)"
| "ctl_do parse (MachineSvcDelete F ref) c = snd (machine_svc_delete parse F ref c)"
| "ctl_do parse (ReportExecResult cs) c = report_exec_result cs c"
| "ctl_do parse (ReportSnapshotResult r) c = snd (complete r c)"
| "ctl_do parse (WatchAssignments h) c = c\<lparr> c_assign := connect h (c_assign c) \<rparr>"
| "ctl_do parse (WatchExec h) c = c\<lparr> c_exec := connect h (c_exec c) \<rparr>"
| "ctl_do parse (WatchSnapshots h) c = c\<lparr> c_snap := connect h (c_snap c) \<rparr>"

definition ctl_run :: "uid_parser \<Rightarrow> ctl_step list \<Rightarrow> ctl \<Rightarrow> ctl" where
  "ctl_run parse steps c = fold (ctl_do parse) steps c"


section \<open>Frames\<close>

text \<open>What an operation does to the state, as a relation between the states before and after it.\<close>

definition moves :: "(ctl \<Rightarrow> ctl \<Rightarrow> bool) \<Rightarrow> ('e, 'a) ctl_op \<Rightarrow> bool" where
  "moves R f \<longleftrightarrow> (\<forall>c. R c (snd (f c)))"

locale frame =
  fixes R :: "ctl \<Rightarrow> ctl \<Rightarrow> bool"
  assumes frame_refl: "R c c"
    and frame_trans: "R c c' \<Longrightarrow> R c' c'' \<Longrightarrow> R c c''"
begin

lemma moves_return: "moves R (ctl_return x)"
  by (simp add: moves_def ctl_return_def frame_refl)

lemma moves_fail: "moves R (ctl_fail e)"
  by (simp add: moves_def ctl_fail_def frame_refl)

lemma moves_bind: "moves R f \<Longrightarrow> (\<And>x. moves R (g x)) \<Longrightarrow> moves R (ctl_bind f g)"
  unfolding moves_def ctl_bind_def
  by (auto split: prod.splits sum.splits) (metis frame_trans snd_conv)+

lemma moves_if: "moves R f \<Longrightarrow> moves R g \<Longrightarrow> moves R (if b then f else g)"
  by simp

lemma moves_option: "moves R f \<Longrightarrow> (\<And>x. moves R (g x)) \<Longrightarrow> moves R (case opt of None \<Rightarrow> f | Some x \<Rightarrow> g x)"
  by (simp split: option.split)

lemma moves_pair: "(\<And>x y. moves R (g x y)) \<Longrightarrow> moves R (case p of (x, y) \<Rightarrow> g x y)"
  by (simp split: prod.split)

lemma moves_on_db: "(\<And>c. R c (c\<lparr> c_db := snd (f (c_db c)) \<rparr>)) \<Longrightarrow> moves R (on_db conv f)"
  by (simp add: moves_def on_db_def split: prod.split sum.split) (metis snd_conv)

lemma moves_ignore_db: "(\<And>c. R c (c\<lparr> c_db := snd (f (c_db c)) \<rparr>)) \<Longrightarrow> moves R (ignore_db f)"
  by (simp add: moves_def ignore_db_def)

lemma moves_query: "(\<And>d. snd (f d) = d) \<Longrightarrow> moves R (on_db conv f)"
  by (rule moves_on_db) (simp add: frame_refl)

lemma moves_parse: "moves R (parse_uid parse s)"
  unfolding parse_uid_def by (intro moves_option moves_return moves_fail)

lemmas moves_rules = moves_return moves_fail moves_bind moves_if moves_option moves_pair moves_parse

lemma moves_run: "(\<And>s c. s \<in> set steps \<Longrightarrow> R c (ctl_do parse s c)) \<Longrightarrow> R c (ctl_run parse steps c)"
proof (induction steps arbitrary: c)
  case Nil
  then show ?case by (simp add: ctl_run_def frame_refl)
next
  case (Cons s steps)
  have "R c (ctl_do parse s c)" "R (ctl_do parse s c) (ctl_run parse steps (ctl_do parse s c))"
    using Cons by simp_all
  then show ?case using frame_trans [of c "ctl_do parse s c"] by (simp add: ctl_run_def)
qed

end

section \<open>What the statements keep\<close>

lemma statement_cases: "(F q \<Longrightarrow> P d) \<Longrightarrow> (\<not> F q \<Longrightarrow> P (snd (f d))) \<Longrightarrow> P (snd (statement F q f d))"
  by (simp add: statement_def)

lemma queries [simp]:
  "snd (namespace_exists F ns d) = d" "snd (list_namespaces F d) = d" "snd (get_machine F ns name d) = d"
  "snd (get_machine_by_uid F u d) = d" "snd (list_machines F ns d) = d" "snd (list_all_machines F d) = d"
  "snd (list_snapshots F ns name d) = d" "snd (live_host_capacities F now stale d) = d" "snd (role_binding F sub ns d) = d"
  by (simp_all add: statement_def namespace_exists_def list_namespaces_def get_machine_def get_machine_by_uid_def
    list_machines_def list_all_machines_def list_snapshots_def live_host_capacities_def role_binding_def)

lemma snd_audit: "\<exists>log. snd (audit F a ns act res out d) = d\<lparr> db_audit := log \<rparr>"
  by (auto simp: audit_def statement_def intro: exI [of _ "db_audit d"])

lemma update_row_keeps:
  assumes "update_row op r = Inr r'"
  shows "r_uid r' = r_uid r" "row_key r' = row_key r" "r_namespace r' = r_namespace r"
  using assms by (cases op; auto simp: row_key_def Let_def split: if_splits)+

lemma update_rows_ConsE:
  assumes "update_rows op k (r # rs) = Inr rs'"
  obtains r' rs'' where "rs' = r' # rs''" "update_rows op k rs = Inr rs''"
    "(if selected k r then update_row op r else Inr r) = Inr r'"
  using assms by (auto simp: res_bind_Inr_iff)

lemma update_rows_map:
  assumes "update_rows op k rs = Inr rs'" and "\<And>r r'. update_row op r = Inr r' \<Longrightarrow> f r' = f r"
  shows "map f rs' = map f rs"
  using assms
proof (induction rs arbitrary: rs')
  case (Cons r rs)
  from Cons.prems(1) show ?case
    by (rule update_rows_ConsE) (use Cons.IH Cons.prems(2) in \<open>auto split: if_splits\<close>)
qed simp

lemma update_rows_ball:
  assumes "update_rows op k rs = Inr rs'" and "\<And>r. r \<in> set rs \<Longrightarrow> P r"
    and "\<And>r r'. r \<in> set rs \<Longrightarrow> selected k r \<Longrightarrow> P r \<Longrightarrow> update_row op r = Inr r' \<Longrightarrow> P r'"
  shows "\<forall>r \<in> set rs'. P r"
  using assms
proof (induction rs arbitrary: rs')
  case (Cons r rs)
  obtain r' rs'' where s: "rs' = r' # rs''" "update_rows op k rs = Inr rs''"
    "(if selected k r then update_row op r else Inr r) = Inr r'"
    using Cons.prems(1) by (rule update_rows_ConsE)
  have "\<forall>r \<in> set rs''. P r"
    by (rule Cons.IH [OF s(2)]) (use Cons.prems(2,3) in \<open>auto intro: list.set_intros\<close>)
  moreover have "P r'" using s(3) Cons.prems(2,3) [of r] by (simp split: if_splits)
  ultimately show ?case using s(1) by simp
qed simp

lemma update_rows_filter:
  assumes "update_rows op k rs = Inr rs'" and "\<And>r. P r \<Longrightarrow> \<not> selected k r"
    and "\<And>r r'. update_row op r = Inr r' \<Longrightarrow> P r' = P r"
  shows "filter P rs' = filter P rs"
  using assms
proof (induction rs arbitrary: rs')
  case (Cons r rs)
  obtain r' rs'' where s: "rs' = r' # rs''" "update_rows op k rs = Inr rs''"
    "(if selected k r then update_row op r else Inr r) = Inr r'"
    using Cons.prems(1) by (rule update_rows_ConsE)
  have "filter P rs'' = filter P rs" using Cons.IH [OF s(2)] Cons.prems(2,3) by simp
  moreover have "if P r then r' = r else \<not> P r'"
    using s(3) Cons.prems(2) [of r] Cons.prems(3) [of r r'] by (auto split: if_splits)
  ultimately show ?case using s(1) by auto
qed simp


section \<open>Well-typed databases\<close>

definition keeps_typed :: "ctl \<Rightarrow> ctl \<Rightarrow> bool" where
  "keeps_typed c c' \<longleftrightarrow> (db_typed (c_db c) \<longrightarrow> db_typed (c_db c'))"

interpretation typed: frame keeps_typed
  by unfold_locales (auto simp: keeps_typed_def)

lemma row_typed_default: "row_typed \<lparr> r_uid = u, r_namespace = ns, r_fleet = fl, r_name = n, r_spec = sp,
    r_status = status_to_json status_default, r_host_id = h \<rparr>"
  unfolding row_typed_def status_to_json_def status_default_def by (intro conjI exI [of _ Created]) simp_all

fun op_typed :: "update_op \<Rightarrow> bool" where
  "op_typed (SetObservedState s) \<longleftrightarrow> (\<exists>st. s = as_str st)"
| "op_typed (SetObserved s ip) \<longleftrightarrow> (\<exists>st. s = as_str st)"
| "op_typed _ \<longleftrightarrow> True"

lemma row_typed_update: "update_row op r = Inr r' \<Longrightarrow> op_typed op \<Longrightarrow> row_typed r \<Longrightarrow> row_typed r'"
proof (cases op)
  case (UpdateStatus st)
  assume "update_row op r = Inr r'"
  then show ?thesis using UpdateStatus uint_bounded [of "st_retry_count st"] by (auto simp: row_typed_def status_to_json_def)
qed (auto simp: row_typed_def Let_def split: if_splits)

lemma typed_machine_ops:
  assumes "db_typed d"
  shows "db_typed (snd (create_machine F u ns fl n sp d))" "db_typed (snd (delete_machine F ns n d))"
proof -
  show "db_typed (snd (create_machine F u ns fl n sp d))"
    using assms row_typed_default by (simp add: create_machine_def statement_def db_typed_def Let_def)
  show "db_typed (snd (delete_machine F ns n d))"
    using assms by (simp add: delete_machine_def statement_def db_typed_def distinct_map_filter)
qed

lemma typed_store_update:
  assumes "db_typed d" "op_typed op"
  shows "db_typed (snd (store_update F q op k d))"
proof (cases "update_rows op k (db_machines d)")
  case (Inr rs)
  have m: "map r_uid rs = map r_uid (db_machines d)" "map row_key rs = map row_key (db_machines d)"
    by (rule update_rows_map [OF Inr], erule update_row_keeps)+
  let ?P = "\<lambda>r. row_typed r \<and> r_namespace r \<in> set (db_namespaces d)"
  have "\<forall>r \<in> set rs. row_typed r \<and> r_namespace r \<in> set (db_namespaces d)"
  proof (rule update_rows_ball [OF Inr, of ?P])
    fix r r'
    assume "r \<in> set (db_machines d)" "row_typed r \<and> r_namespace r \<in> set (db_namespaces d)" "update_row op r = Inr r'"
    then show "row_typed r' \<and> r_namespace r' \<in> set (db_namespaces d)"
      using row_typed_update [of op r r'] update_row_keeps(3) [of op r r'] assms(2) by simp
  qed (use assms(1) in \<open>simp add: db_typed_def\<close>)
  then show ?thesis using assms m Inr by (simp add: store_update_def statement_def db_typed_def)
qed (use assms in \<open>simp add: store_update_def statement_def\<close>)

lemma typed_other_ops:
  assumes "db_typed d"
  shows "db_typed (snd (create_namespace F ns d))" "db_typed (snd (put_binding F sub ns role d))"
    "db_typed (snd (audit F a nso act res out d))"
    "db_typed (snd (create_snapshot F u ns n i kd h mem st d))" "db_typed (snd (delete_snapshot F ns i d))"
  using assms
  by (simp_all add: create_namespace_def put_binding_def audit_def create_snapshot_def delete_snapshot_def statement_def
      db_typed_def Let_def distinct_map_filter) blast

lemma typed_host_ops:
  assumes "db_typed d"
  shows "db_typed (snd (upsert_host F now h cap d))" "db_typed (snd (touch_heartbeat F now h d))"
proof -
  have "map hr_host_id (map (\<lambda>r. if hr_host_id r = h then f r else r) hs) = map hr_host_id hs"
    if "\<And>r. hr_host_id (f r) = h" for f :: "host_row \<Rightarrow> host_row" and hs
    using that by (induction hs) auto
  from this [of "\<lambda>_. \<lparr> hr_host_id = h, hr_capacity = cap, hr_last_heartbeat = now, hr_healthy = True \<rparr>" "db_hosts d"]
  show "db_typed (snd (upsert_host F now h cap d))"
    using assms by (auto simp: upsert_host_def statement_def db_typed_def Let_def simp del: map_map)
  have "map hr_host_id (map (\<lambda>r. if hr_host_id r = h then r\<lparr> hr_last_heartbeat := now, hr_healthy := True \<rparr> else r) hs)
      = map hr_host_id hs" for hs :: "host_row list"
    by (induction hs) auto
  then show "db_typed (snd (touch_heartbeat F now h d))"
    using assms by (simp add: touch_heartbeat_def statement_def db_typed_def del: map_map)
qed

lemmas typed_ops = typed_machine_ops typed_store_update typed_other_ops typed_host_ops

lemma typed_on_db: "(\<And>d. db_typed d \<Longrightarrow> db_typed (snd (f d))) \<Longrightarrow> moves keeps_typed (on_db conv f)"
  by (rule typed.moves_on_db) (simp add: keeps_typed_def)

lemma typed_audited: "moves keeps_typed (audited F cl ns act res)"
  unfolding audited_def by (rule typed.moves_ignore_db) (simp add: keeps_typed_def typed_ops)

end
