(* ===== verification/Control_Plane.thy ===== *)
theory Control_Plane
  imports Controller
begin

text \<open>
  What holds of the control plane over every run: the database stays well-typed, so that no row makes the reconcile loop stop;
  a client changes only what its role allows, in the namespace of its request; a failing machine is retried at most three
  times, whatever comes between the steps of a tick.
\<close>

section \<open>The handlers' frame\<close>

text \<open>Every change a client's request makes is one of a few statements on its own namespace, an audit row, or a message to an
  agent; a relation that allows these holds across every handler.\<close>

locale rest_frame = frame R for R :: "ctl \<Rightarrow> ctl \<Rightarrow> bool" +
  fixes ns :: string
  assumes audits: "R c (c\<lparr> c_db := (c_db c)\<lparr> db_audit := log \<rparr> \<rparr>)"
    and creates: "R c (c\<lparr> c_db := snd (create_machine F u ns fleet name spec (c_db c)) \<rparr>)"
    and deletes: "R c (c\<lparr> c_db := snd (delete_machine F ns name (c_db c)) \<rparr>)"
    and sets: "R c (c\<lparr> c_db := snd (store_update F q (SetRunning b) (ByName ns name) (c_db c)) \<rparr>)"
    and snaps: "R c (c\<lparr> c_db := snd (create_snapshot F u ns name i knd h mem st (c_db c)) \<rparr>)"
    and unsnaps: "R c (c\<lparr> c_db := snd (delete_snapshot F ns i (c_db c)) \<rparr>)"
    and execs: "R c (c\<lparr> c_exec := reg, c_pending_exec := pending \<rparr>)"
    and snapshot_tasks: "R c (c\<lparr> c_snap := reg, c_pending_snap := waiting \<rparr>)"
begin

lemma audit_moves: "R c (c\<lparr> c_db := snd (audit F a n act res out (c_db c)) \<rparr>)"
  using snd_audit [of F a n act res out "c_db c"] audits by auto

lemma audited_moves: "moves R (audited F cl ns act res)"
  unfolding audited_def by (rule moves_ignore_db) (rule audit_moves)

lemma ensure_moves: "moves R (ensure_allowed F cl ns v act)"
  unfolding ensure_allowed_def by (intro moves_rules moves_query queries moves_ignore_db audit_moves)

lemma running_moves: "moves R (running_machine F ns name)"
  unfolding running_machine_def by (intro moves_rules moves_query queries)

lemmas handler_rules = moves_rules moves_query queries audited_moves ensure_moves running_moves

lemma set_running_moves: "moves R (set_running_handler F cl ns name b act)"
  unfolding set_running_handler_def by (intro handler_rules moves_on_db sets)

lemma machines_moves: "moves R (machines_api F cl ns r)"
proof (cases r)
  case (CreateMachine u fleet name spec)
  then show ?thesis
    unfolding CreateMachine machines_api.simps
    by (intro moves_bind moves_if moves_return moves_fail ensure_moves audited_moves moves_query queries moves_on_db creates)
next
  case (GetMachine name)
  then show ?thesis unfolding GetMachine machines_api.simps by (intro handler_rules)
next
  case ListMachines
  then show ?thesis unfolding ListMachines machines_api.simps by (intro handler_rules)
next
  case (DeleteMachine name)
  then show ?thesis
    unfolding DeleteMachine machines_api.simps by (intro handler_rules moves_on_db deletes)
qed (simp_all add: set_running_moves)

lemma tasks_swapped:
  "R c (c\<lparr> c_pending_exec := pending, c_exec := reg \<rparr>)" "R c (c\<lparr> c_pending_snap := waiting, c_snap := sreg \<rparr>)"
proof -
  have e: "c\<lparr> c_pending_exec := pending, c_exec := reg \<rparr> = c\<lparr> c_exec := reg, c_pending_exec := pending \<rparr>"
    "c\<lparr> c_pending_snap := waiting, c_snap := sreg \<rparr> = c\<lparr> c_snap := sreg, c_pending_snap := waiting \<rparr>"
    by simp_all
  show "R c (c\<lparr> c_pending_exec := pending, c_exec := reg \<rparr>)" "R c (c\<lparr> c_pending_snap := waiting, c_snap := sreg \<rparr>)"
    unfolding e by (rule execs snapshot_tasks)+
qed

lemma exec_moves: "moves R (exec_begin F cl q ns name cmd t)"
  unfolding exec_begin_def
proof (intro handler_rules, goal_cases)
  case (1 u p m h)
  have *: "moves R (ctl_bind (audited F cl ns act name) (\<lambda>_. ctl_return x))" for act and x :: u64
    by (intro handler_rules)
  have "R c (snd (ctl_bind (audited F cl ns act name) (\<lambda>_. ctl_return x) (c\<lparr> c_pending_exec := pending, c_exec := reg \<rparr>)))"
    for c act reg pending and x :: u64
    using frame_trans [OF tasks_swapped(1)] * [unfolded moves_def] by blast
  with execs show ?case by (simp add: moves_def Let_def split: prod.split bool.split)
qed

lemma snapshots_begin_moves: "moves R (snapshots_begin F cl q ns name b)"
  unfolding snapshots_begin_def
proof (intro handler_rules, goal_cases)
  case (1 u p m h)
  then show ?case using snapshot_tasks tasks_swapped(2) by (simp add: moves_def Let_def split: prod.split bool.split)
qed

lemma snapshots_await_moves: "R c (snd (snapshots_await F cl q u ns name b m h c))"
proof -
  have *: "moves R (ctl_bind (on_db api_error_of (create_snapshot F u ns name i knd h mem st)) (\<lambda>snap.
      ctl_bind (audited F cl ns act name) (\<lambda>_. ctl_return snap)))" for i knd mem st act
    by (intro handler_rules moves_on_db snaps)
  have "R c (c\<lparr> c_pending_snap := waiting \<rparr>)" for waiting
    using snapshot_tasks [of c waiting "c_snap c"] by simp
  with * [unfolded moves_def] frame_refl show ?thesis
    by (simp add: snapshots_await_def split: option.split)
qed

lemma snapshots_delete_moves: "moves R (snapshots_delete F cl ns i)"
  unfolding snapshots_delete_def by (intro handler_rules moves_on_db unsnaps)

end

text \<open>The reconcile loop places machines, counts retries and sends messages.\<close>

locale tick_frame = frame R for R :: "ctl \<Rightarrow> ctl \<Rightarrow> bool" +
  assumes assigns: "R c (c\<lparr> c_db := snd (store_update F q (AssignHost h) k (c_db c)) \<rparr>)"
    and pushes: "R c (c\<lparr> c_assign := reg \<rparr>)"
begin

lemma push_moves: "moves R (push h m)"
  by (simp add: moves_def push_def pushes)

lemma assign_and_push_moves: "moves R (assign_and_push F hosts m)"
  unfolding assign_and_push_def Let_def by (intro moves_rules moves_on_db assigns push_moves)

lemma actuate_moves:
  "moves R (case a of AssignAndStart \<Rightarrow> assign_and_push F hosts m | Retry \<Rightarrow> assign_and_push F hosts m
      | StopAction \<Rightarrow> (case h of Some h \<Rightarrow> push h m' | None \<Rightarrow> ctl_return ()) | _ \<Rightarrow> ctl_return ())"
  by (cases a) (simp_all add: assign_and_push_moves moves_return, intro moves_rules push_moves)

end

locale retry_frame = tick_frame R for R :: "ctl \<Rightarrow> ctl \<Rightarrow> bool" +
  assumes increments: "R c (c\<lparr> c_db := snd (store_update F q IncrementRetryCount k (c_db c)) \<rparr>)"
    and ticks: "R c (c\<lparr> c_tick := ms, c_tick_hosts := hosts \<rparr>)"
begin

lemma ticks_only: "R c (c\<lparr> c_tick := ms \<rparr>)"
  using ticks [of c "c_tick_hosts c" ms] by simp

lemma reconcile_moves: "moves R (reconcile_machine F hosts m)"
  unfolding reconcile_machine_def Let_def
  by (intro moves_bind moves_if moves_return moves_on_db increments actuate_moves)

lemma tick_next_moves: "R c (tick_next F c)"
proof (cases "c_tick c")
  case (Cons m ms)
  obtain res c' where r: "reconcile_machine F (map host_capacity (c_tick_hosts c)) m (c\<lparr> c_tick := ms \<rparr>) = (res, c')"
    by fastforce
  have "R (c\<lparr> c_tick := ms \<rparr>) c'"
    using reconcile_moves [of F "map host_capacity (c_tick_hosts c)" m] r by (metis moves_def snd_conv)
  then have "R c c'" using frame_trans ticks_only by blast
  then show ?thesis using Cons r frame_trans [OF _ ticks_only] by (simp add: tick_next_def split: sum.split)
qed (simp add: tick_next_def frame_refl)

lemma tick_begin_moves: "moves R (tick_begin F now)"
  unfolding tick_begin_def by (intro moves_bind moves_query queries) (simp add: moves_def ticks)

end

interpretation typed_rest: rest_frame keeps_typed ns for ns :: string
  by unfold_locales (simp_all add: keeps_typed_def typed_ops, simp add: db_typed_def)


section \<open>The database stays well-typed\<close>

interpretation typed_tick: retry_frame keeps_typed
  by unfold_locales (simp_all add: keeps_typed_def typed_ops)

lemma typed_report_event: "moves keeps_typed (report_event parse F u st ip)"
  unfolding report_event_def
proof (rule typed.moves_bind [OF typed.moves_parse], cases "proto_state_name st")
  case (Some name)
  then obtain s where s: "name = as_str s" using proto_state_name_typed by blast
  show "moves keeps_typed (case proto_state_name st of None \<Rightarrow> ctl_fail (invalid_argument ''unknown machine state'')
      | Some state \<Rightarrow> ctl_bind (if ip = [] then on_db internal (store_update F ''set_observed_state'' (SetObservedState state) (ByUid x))
          else on_db internal (store_update F ''set_observed'' (SetObserved state ip) (ByUid x))) (\<lambda>_. ctl_return ()))" for x
    unfolding Some option.case by (intro typed.moves_rules typed_on_db typed_ops) (use s in auto)
qed (simp add: typed.moves_fail)

lemma typed_svc_delete: "moves keeps_typed (machine_svc_delete parse F ref)"
  unfolding machine_svc_delete_def
  by (intro typed.moves_rules typed.moves_query queries typed_on_db typed_ops)

lemma report_exec_result_db: "c_db (report_exec_result cs c) = c_db c"
  by (induction cs arbitrary: c) (auto simp: route_def split: option.split)

lemma typed_step: "keeps_typed c (ctl_do parse s c)"
proof (cases s)
  case (NamespaceCreate F cl name)
  have "moves keeps_typed (namespaces_create F cl name)"
    unfolding namespaces_create_def by (intro typed.moves_rules typed_rest.audited_moves typed_on_db typed_ops)
  then show ?thesis by (simp add: NamespaceCreate moves_def)
next
  case (Heartbeat F now h)
  have "moves keeps_typed (heartbeat F now h)"
    unfolding heartbeat_def by (intro typed.moves_rules typed_on_db typed_ops)
  then show ?thesis by (simp add: Heartbeat moves_def)
next
  case (ReportCapacity F now h cap)
  have "moves keeps_typed (report_capacity F now h cap)"
    unfolding report_capacity_def by (intro typed_on_db typed_ops)
  then show ?thesis by (simp add: ReportCapacity moves_def)
next
  case (ExecPoll q t g)
  then show ?thesis by (auto simp: keeps_typed_def exec_poll_def Let_def split: option.split list.split)
qed (use typed_rest.machines_moves typed_rest.exec_moves typed_rest.snapshots_begin_moves typed_rest.snapshots_await_moves
    typed_rest.snapshots_delete_moves typed_report_event typed_svc_delete typed_tick.tick_next_moves typed_tick.tick_begin_moves report_exec_result_db
    in \<open>simp_all add: moves_def\<close>, simp_all add: keeps_typed_def complete_def)

lemma into_machine_typed: "row_typed r \<Longrightarrow> \<exists>m. into_machine r = Inr m"
  by (auto simp: row_typed_def into_machine_def status_from_json_def res_bind_Inr_iff)

lemma collect_rows_typed: "\<forall>r \<in> set rs. row_typed r \<Longrightarrow> \<exists>ms. collect_rows rs = Inr ms"
proof (induction rs)
  case (Cons r rs)
  then obtain m ms where "into_machine r = Inr m" "collect_rows rs = Inr ms" using into_machine_typed [of r] by auto
  then show ?case by (simp add: res_bind_Inr_iff)
qed simp

lemma list_all_typed: "db_typed d \<Longrightarrow> F ''list_all_machines'' \<or> (\<exists>ms. fst (list_all_machines F d) = Inr ms)"
  using collect_rows_typed [of "db_machines d"] by (simp add: list_all_machines_def statement_def db_typed_def)

lemma role_binding_typed:
  assumes "db_typed d"
  shows "fst (role_binding F sub ns d) \<noteq> Inl Decode"
proof (cases "db_rbac d (sub, ns)")
  case (Some s)
  then obtain role where "s = role_as_str role" using assms unfolding db_typed_def by blast
  then show ?thesis using Some by (simp add: role_binding_def statement_def)
qed (simp add: role_binding_def statement_def)

text \<open>C8: Starting from a well-typed database, every run of the control plane keeps it well-typed: whatever clients and agents
  send, in whatever order, and whichever statements fail, every machine row still holds the name of a life-cycle state and a
  counter that fits its type, rows keep their keys unique and their namespaces existing, and every role binding holds the name
  of a role.  So reading all machines, which the reconcile loop does first, never fails on a row, and no look-up of a role fails to
  decode.\<close>
theorem control_plane_keeps_types:
  assumes "db_typed (c_db c)"
  shows "db_typed (c_db (ctl_run parse steps c)) \<and>
    (F ''list_all_machines'' \<or> (\<exists>ms. fst (list_all_machines F (c_db (ctl_run parse steps c))) = Inr ms)) \<and>
    fst (role_binding F sub ns (c_db (ctl_run parse steps c))) \<noteq> Inl Decode"
proof -
  have "db_typed (c_db (ctl_run parse steps c))"
    using typed.moves_run [of steps parse c] typed_step assms by (simp add: keeps_typed_def)
  then show ?thesis using list_all_typed role_binding_typed by blast
qed

definition db_empty :: db where
  "db_empty = \<lparr> db_namespaces = [], db_machines = [], db_snapshots = [], db_hosts = [], db_rbac = (\<lambda>_. None), db_audit = [] \<rparr>"

definition ctl_start :: ctl where
  "ctl_start = \<lparr> c_db = db_empty, c_assign = (\<lambda>_. None), c_exec = (\<lambda>_. None), c_snap = (\<lambda>_. None),
     c_pending_exec = (\<lambda>_. None), c_pending_snap = {}, c_snap_result = (\<lambda>_. None), c_tick = [], c_tick_hosts = [] \<rparr>"

lemma db_typed_start: "db_typed (c_db ctl_start)"
  by (simp add: ctl_start_def db_empty_def db_typed_def)

theorem control_plane_keeps_types_witness:
  "db_typed (c_db (ctl_run (\<lambda>_. None) [NamespaceCreate (\<lambda>_. False) (\<lparr> cl_sub = ''alice'', cl_iss = [], cl_aud = [], cl_exp = 0 \<rparr>) ''prod'',
     TickBegin (\<lambda>_. False) 0] ctl_start))"
  using control_plane_keeps_types [OF db_typed_start] by blast


section \<open>Role-based access\<close>

text \<open>The request a step carries: who makes it, on which namespace, and the verb it needs.\<close>

fun machines_verb :: "machines_request \<Rightarrow> Verb" where
  "machines_verb (CreateMachine u fleet name spec) = Create"
| "machines_verb (GetMachine name) = Get"
| "machines_verb ListMachines = List"
| "machines_verb (DeleteMachine name) = Delete"
| "machines_verb (StartMachine name) = Update"
| "machines_verb (StopMachine name) = Update"

fun rest_call :: "ctl_step \<Rightarrow> (string \<times> string \<times> Verb) option" where
  "rest_call (MachinesCall F cl ns r) = Some (cl_sub cl, ns, machines_verb r)"
| "rest_call (ExecCall F cl q ns name cmd t) = Some (cl_sub cl, ns, Exec)"
| "rest_call (SnapshotCall F cl q ns name b) = Some (cl_sub cl, ns, Create)"
| "rest_call (SnapshotDelete F cl ns i) = Some (cl_sub cl, ns, Delete)"
| "rest_call _ = None"

definition holds_role :: "ctl \<Rightarrow> string \<Rightarrow> string \<Rightarrow> Role \<Rightarrow> bool" where
  "holds_role c sub ns least \<longleftrightarrow> (\<exists>role. db_rbac (c_db c) (sub, ns) = Some (role_as_str role) \<and> least \<le> role)"

definition same_outside :: "string \<Rightarrow> ctl \<Rightarrow> ctl \<Rightarrow> bool" where
  "same_outside ns c c' \<longleftrightarrow>
     filter (\<lambda>r. r_namespace r \<noteq> ns) (db_machines (c_db c')) = filter (\<lambda>r. r_namespace r \<noteq> ns) (db_machines (c_db c)) \<and>
     filter (\<lambda>s. sn_namespace s \<noteq> ns) (db_snapshots (c_db c')) = filter (\<lambda>s. sn_namespace s \<noteq> ns) (db_snapshots (c_db c)) \<and>
     db_namespaces (c_db c') = db_namespaces (c_db c) \<and> db_rbac (c_db c') = db_rbac (c_db c) \<and>
     db_hosts (c_db c') = db_hosts (c_db c) \<and> c_assign c' = c_assign c \<and> c_tick c' = c_tick c"

lemma set_running_outside:
  "filter (\<lambda>r. r_namespace r \<noteq> ns) (db_machines (snd (store_update F q (SetRunning b) (ByName ns name) d)))
     = filter (\<lambda>r. r_namespace r \<noteq> ns) (db_machines d)"
proof (cases "update_rows (SetRunning b) (ByName ns name) (db_machines d)")
  case (Inr rs)
  have "filter (\<lambda>r. r_namespace r \<noteq> ns) rs = filter (\<lambda>r. r_namespace r \<noteq> ns) (db_machines d)"
    by (rule update_rows_filter [OF Inr]) auto
  then show ?thesis using Inr by (simp add: store_update_def statement_def)
qed (simp add: store_update_def statement_def)

lemma store_update_other:
  "db_namespaces (snd (store_update F q op k d)) = db_namespaces d" "db_rbac (snd (store_update F q op k d)) = db_rbac d"
  "db_hosts (snd (store_update F q op k d)) = db_hosts d" "db_snapshots (snd (store_update F q op k d)) = db_snapshots d"
  by (simp_all add: store_update_def statement_def split: sum.split)

interpretation outside: rest_frame "same_outside ns" ns for ns :: string
proof (unfold_locales, goal_cases)
  case (6 c F q b name)
  then show ?case by (simp add: same_outside_def set_running_outside store_update_other)
next
  case (5 c F name)
  then show ?case by (auto simp: same_outside_def delete_machine_def statement_def intro!: filter_cong)
next
  case (8 c F i)
  then show ?case by (auto simp: same_outside_def delete_snapshot_def statement_def Let_def intro!: filter_cong)
qed (auto simp: same_outside_def create_machine_def create_snapshot_def statement_def Let_def)

lemma role_parse_Inr: "role_parse s = Inr role \<Longrightarrow> s = role_as_str role"
  by (auto simp: role_parse_def split: if_splits)

lemma denied:
  assumes "\<not> holds_role c (cl_sub cl) ns (required v)"
  shows "\<exists>e log. ensure_allowed F cl ns v act c = (Inl e, c\<lparr> c_db := (c_db c)\<lparr> db_audit := log \<rparr> \<rparr>)"
proof -
  have keep: "c = c\<lparr> c_db := (c_db c)\<lparr> db_audit := db_audit (c_db c) \<rparr> \<rparr>" by simp
  obtain log where log: "snd (audit F (cl_sub cl) (Some ns) act None ''denied'' (c_db c)) = (c_db c)\<lparr> db_audit := log \<rparr>"
    using snd_audit by blast
  have deny: "ctl_bind (ignore_db (audit F (cl_sub cl) (Some ns) act None ''denied'')) (\<lambda>_. ctl_fail Forbidden) c
      = (Inl Forbidden, c\<lparr> c_db := (c_db c)\<lparr> db_audit := log \<rparr> \<rparr>)"
    by (simp add: ctl_bind_def ignore_db_def ctl_fail_def log)
  have same: "snd (role_binding F (cl_sub cl) ns (c_db c)) = c_db c" by simp
  show ?thesis
  proof (cases "fst (role_binding F (cl_sub cl) ns (c_db c))")
    case (Inl e)
    then have "ensure_allowed F cl ns v act c = (Inl (api_error_of e), c)"
      using same by (cases "role_binding F (cl_sub cl) ns (c_db c)") (simp add: ensure_allowed_def ctl_bind_def on_db_def)
    then show ?thesis using keep by metis
  next
    case (Inr binding)
    have "\<not> authorize (map_option (\<lambda>role. (ns, role)) binding) ns v"
      using Inr assms role_parse_Inr
      by (auto simp: role_binding_def statement_def authorize_def holds_role_def split: if_splits option.splits sum.splits)
    then have "ensure_allowed F cl ns v act c = (Inl Forbidden, c\<lparr> c_db := (c_db c)\<lparr> db_audit := log \<rparr> \<rparr>)"
      using same Inr deny
      by (cases "role_binding F (cl_sub cl) ns (c_db c)") (simp add: ensure_allowed_def ctl_bind_def on_db_def)
    then show ?thesis by blast
  qed
qed

lemma denied_bind:
  assumes "\<not> holds_role c (cl_sub cl) ns (required v)"
  shows "\<exists>log. snd (ctl_bind (ensure_allowed F cl ns v act) k c) = c\<lparr> c_db := (c_db c)\<lparr> db_audit := log \<rparr> \<rparr>"
proof -
  obtain e log where "ensure_allowed F cl ns v act c = (Inl e, c\<lparr> c_db := (c_db c)\<lparr> db_audit := log \<rparr> \<rparr>)"
    using denied [OF assms] by blast
  then show ?thesis by (auto simp: ctl_bind_def)
qed

lemma denied_step:
  assumes "rest_call s = Some (sub, ns, v)" "\<not> holds_role c sub ns (required v)"
  shows "\<exists>log. ctl_do parse s c = c\<lparr> c_db := (c_db c)\<lparr> db_audit := log \<rparr> \<rparr>"
proof (cases s)
  case (MachinesCall F cl n r)
  then show ?thesis
    using assms by (cases r) (auto simp: set_running_handler_def simp del: required.simps intro!: denied_bind)
qed (use assms in \<open>auto simp: exec_begin_def snapshots_begin_def snapshots_delete_def simp del: required.simps intro!: denied_bind\<close>)

lemma rest_call_outside:
  assumes "rest_call s = Some (sub, ns, v)"
  shows "same_outside ns c (ctl_do parse s c)"
  using assms outside.machines_moves outside.exec_moves outside.snapshots_begin_moves outside.snapshots_delete_moves
  by (cases s) (auto simp: moves_def)

lemma namespaces_create_rbac:
  "db_rbac (c_db (snd (namespaces_create F cl name c))) \<in>
     {db_rbac (c_db c), (db_rbac (c_db c))((cl_sub cl, name) \<mapsto> ''admin'')}"
  by (auto simp: namespaces_create_def ctl_bind_def ctl_fail_def ctl_return_def on_db_def create_namespace_def put_binding_def statement_def
      audited_def ignore_db_def audit_def split: if_splits)

definition same_rbac :: "ctl \<Rightarrow> ctl \<Rightarrow> bool" where
  "same_rbac c c' \<longleftrightarrow> db_rbac (c_db c') = db_rbac (c_db c)"

interpretation rbac: rest_frame same_rbac ns for ns :: string
  by unfold_locales (auto simp: same_rbac_def store_update_other create_machine_def delete_machine_def create_snapshot_def
    delete_snapshot_def statement_def Let_def)

lemma rbac_update: "moves same_rbac (on_db conv (store_update F q op k))"
  by (rule rbac.moves_on_db) (simp add: same_rbac_def store_update_other)

interpretation rbac_tick: retry_frame same_rbac
  by unfold_locales (simp_all add: same_rbac_def store_update_other)

lemma rbac_step:
  assumes "\<And>F cl name. s \<noteq> NamespaceCreate F cl name"
  shows "same_rbac c (ctl_do parse s c)"
proof (cases s)
  case (ReportEvent F u st ip)
  have "moves same_rbac (report_event parse F u st ip)"
    unfolding report_event_def by (intro rbac.moves_rules rbac_update)
  then show ?thesis by (simp add: ReportEvent moves_def)
next
  case (MachineSvcDelete F ref)
  have "moves same_rbac (machine_svc_delete parse F ref)"
    unfolding machine_svc_delete_def by (intro rbac.moves_rules rbac.moves_query queries rbac.moves_on_db rbac.deletes)
  then show ?thesis by (simp add: MachineSvcDelete moves_def)
next
  case (Heartbeat F now h)
  then show ?thesis
    by (simp add: same_rbac_def heartbeat_def ctl_bind_def ctl_return_def on_db_def touch_heartbeat_def statement_def)
next
  case (ReportCapacity F now h cap)
  then show ?thesis by (simp add: same_rbac_def report_capacity_def on_db_def upsert_host_def statement_def Let_def)
next
  case (ExecPoll q t g)
  then show ?thesis by (auto simp: same_rbac_def exec_poll_def Let_def split: option.split list.split)
qed (use assms rbac.machines_moves rbac.exec_moves rbac.snapshots_begin_moves rbac.snapshots_await_moves rbac.snapshots_delete_moves
    rbac_tick.tick_next_moves rbac_tick.tick_begin_moves report_exec_result_db
    in \<open>simp_all add: moves_def\<close>, simp_all add: same_rbac_def complete_def)

lemma rbac_run:
  assumes "\<And>F cl. NamespaceCreate F cl ns \<in> set steps \<Longrightarrow> cl_sub cl \<noteq> sub"
  shows "db_rbac (c_db (ctl_run parse steps c)) (sub, ns) = db_rbac (c_db c) (sub, ns)"
  using assms
proof (induction steps arbitrary: c)
  case (Cons s steps)
  have "db_rbac (c_db (ctl_do parse s c)) (sub, ns) = db_rbac (c_db c) (sub, ns)"
  proof (cases "\<exists>F cl name. s = NamespaceCreate F cl name")
    case True
    then obtain F cl name where s: "s = NamespaceCreate F cl name" by blast
    then have "(cl_sub cl, name) \<noteq> (sub, ns)" using Cons.prems by auto
    then show ?thesis using namespaces_create_rbac [of F cl name c] by (auto simp: s)
  qed (use rbac_step [of s c parse] in \<open>simp add: same_rbac_def\<close>)
  moreover have "db_rbac (c_db (ctl_run parse steps (ctl_do parse s c))) (sub, ns) = db_rbac (c_db (ctl_do parse s c)) (sub, ns)"
    by (rule Cons.IH, rule Cons.prems, erule list.set_intros(2))
  ultimately show ?case by (simp add: ctl_run_def)
qed (simp add: ctl_run_def)




section \<open>The retry budget\<close>

text \<open>The counter of each machine in the database.\<close>

definition counters :: "db \<Rightarrow> (uid \<times> int) set" where
  "counters d = (\<lambda>r. (r_uid r, js_retry_count (r_status r))) ` set (db_machines d)"

text \<open>Outside the loop no counter grows: a machine keeps the counter it has, or it is new and starts at zero.\<close>

definition keeps_counters :: "ctl \<Rightarrow> ctl \<Rightarrow> bool" where
  "keeps_counters c c' \<longleftrightarrow>
     c_tick c' = c_tick c \<and> (\<forall>u n. (u, n) \<in> counters (c_db c') \<longrightarrow> n = 0 \<or> (u, n) \<in> counters (c_db c))"

fun counts :: "update_op \<Rightarrow> bool" where
  "counts IncrementRetryCount \<longleftrightarrow> True"
| "counts (UpdateStatus st) \<longleftrightarrow> True"
| "counts _ \<longleftrightarrow> False"

lemma counters_update: "\<not> counts op \<Longrightarrow> counters (snd (store_update F q op k d)) = counters d"
proof (cases "update_rows op k (db_machines d)")
  case (Inr rs)
  assume "\<not> counts op"
  then have "map (\<lambda>r. (r_uid r, js_retry_count (r_status r))) rs = map (\<lambda>r. (r_uid r, js_retry_count (r_status r))) (db_machines d)"
    by (intro update_rows_map [OF Inr]) (cases op; auto)
  then have "(\<lambda>r. (r_uid r, js_retry_count (r_status r))) ` set rs = counters d"
    by (metis counters_def list.set_map)
  then show ?thesis using Inr by (simp add: counters_def store_update_def statement_def)
qed (simp add: store_update_def statement_def)

lemma counters_increment:
  assumes "(v, n) \<in> counters (snd (store_update F q IncrementRetryCount (ByUid u) d))"
  shows "(v, n) \<in> counters d \<or> v = u \<and> (v, n - 1) \<in> counters d"
proof (cases "update_rows IncrementRetryCount (ByUid u) (db_machines d)")
  case (Inr rs)
  let ?P = "\<lambda>r. (r_uid r, js_retry_count (r_status r)) \<in> counters d
    \<or> r_uid r = u \<and> (r_uid r, js_retry_count (r_status r) - 1) \<in> counters d"
  have own: "(r_uid r, js_retry_count (r_status r)) \<in> counters d" if "r \<in> set (db_machines d)" for r
    using that by (auto simp: counters_def)
  have "\<forall>r \<in> set rs. ?P r"
    by (rule update_rows_ball [OF Inr, of ?P]) (auto simp: own Let_def split: if_splits)
  then show ?thesis using Inr assms by (auto simp: counters_def store_update_def statement_def split: if_splits)
qed (use assms in \<open>simp add: store_update_def statement_def split: if_splits\<close>)

lemma counters_rows:
  "counters (snd (create_machine F u ns fl n sp d)) \<subseteq> insert (u, 0) (counters d)"
  "counters (snd (delete_machine F ns n d)) \<subseteq> counters d"
  by (auto simp: counters_def create_machine_def delete_machine_def statement_def Let_def status_to_json_def status_default_def)

lemma counters_same:
  "counters (d\<lparr> db_audit := log \<rparr>) = counters d" "counters (snd (create_snapshot F u ns n i kd h mem st d)) = counters d"
  "counters (snd (delete_snapshot F ns i d)) = counters d" "counters (snd (create_namespace F ns d)) = counters d"
  "counters (snd (put_binding F sub ns role d)) = counters d" "counters (snd (upsert_host F now h cap d)) = counters d"
  "counters (snd (touch_heartbeat F now h d)) = counters d"
  by (simp_all add: counters_def create_snapshot_def delete_snapshot_def create_namespace_def put_binding_def upsert_host_def
      touch_heartbeat_def statement_def Let_def)

lemma keeps_counters_db: "(\<And>u n. (u, n) \<in> counters d \<Longrightarrow> n = 0 \<or> (u, n) \<in> counters (c_db c)) \<Longrightarrow> keeps_counters c (c\<lparr> c_db := d \<rparr>)"
  by (simp add: keeps_counters_def)

interpretation counting: rest_frame keeps_counters ns for ns :: string
proof (unfold_locales, goal_cases)
  case (4 c F u fl n sp)
  then show ?case using counters_rows(1) by (fastforce intro: keeps_counters_db)
next
  case (5 c F n)
  then show ?case using counters_rows(2) by (fastforce intro: keeps_counters_db)
qed (auto simp: keeps_counters_def counters_same counters_update)

interpretation counting_tick: tick_frame keeps_counters
  by unfold_locales (simp_all add: keeps_counters_def counters_update)

text \<open>A machine the loop has still to take is known with a counter at least as large as the one in the database.\<close>

definition budget :: "ctl \<Rightarrow> bool" where
  "budget c \<longleftrightarrow> (\<forall>u n. (u, n) \<in> counters (c_db c) \<longrightarrow> n \<le> 3) \<and> distinct (map mo_uid (c_tick c)) \<and>
     (\<forall>m \<in> set (c_tick c). \<forall>n. (mo_uid m, n) \<in> counters (c_db c) \<longrightarrow> n \<le> uint (st_retry_count (mo_status m)))"

lemma budget_kept: "keeps_counters c c' \<Longrightarrow> budget c \<Longrightarrow> budget c'"
proof -
  assume k: "keeps_counters c c'" and b: "budget c"
  have t: "c_tick c' = c_tick c" and n: "n = 0 \<or> (u, n) \<in> counters (c_db c)" if "(u, n) \<in> counters (c_db c')" for u n
    using k that unfolding keeps_counters_def by blast+
  have "n \<le> 3" if "(u, n) \<in> counters (c_db c')" for u n using n [OF that] b by (auto simp: budget_def)
  moreover have "n \<le> uint (st_retry_count (mo_status m))" if "m \<in> set (c_tick c)" "(mo_uid m, n) \<in> counters (c_db c')" for m n
    using n [OF that(2)] that(1) b by (auto simp: budget_def)
  ultimately show ?thesis using b k unfolding budget_def keeps_counters_def by simp
qed

lemma decide_retry: "decide run del obs limit = Retry \<Longrightarrow> ob_retry_count obs < limit"
  by (auto simp: decide_def split: if_splits)

lemma budget_counted:
  assumes "budget c" "c_tick c = m # ms" "c_tick c' = ms"
    and up: "\<And>v n. (v, n) \<in> counters (c_db c') \<Longrightarrow>
      (v, n) \<in> counters (c_db c) \<or> v = mo_uid m \<and> (v, n - 1) \<in> counters (c_db c) \<and> st_retry_count (mo_status m) < 3"
  shows "budget c'"
proof -
  have less: "n - 1 < 3" if "(mo_uid m, n - 1) \<in> counters (c_db c)" "st_retry_count (mo_status m) < 3" for n
    using that assms(1,2) by (fastforce simp: budget_def word_less_def)
  have "n \<le> 3" if "(v, n) \<in> counters (c_db c')" for v n
    using up [OF that] less [of n] assms(1) by (auto simp: budget_def)
  moreover have "n \<le> uint (st_retry_count (mo_status m'))" if "m' \<in> set ms" "(mo_uid m', n) \<in> counters (c_db c')" for m' n
  proof -
    have "mo_uid m \<notin> mo_uid ` set ms" using assms(1,2) by (simp add: budget_def)
    then have "mo_uid m' \<noteq> mo_uid m" using that(1) by (metis image_eqI)
    then show ?thesis using up [OF that(2)] that(1) assms(1,2) by (auto simp: budget_def)
  qed
  ultimately show ?thesis using assms(1-3) by (simp add: budget_def)
qed

lemma counting_bind:
  assumes "\<And>x. moves keeps_counters (g x)"
  shows "keeps_counters (snd (f c)) (snd (ctl_bind f g c))"
  using assms counting.frame_refl by (auto simp: ctl_bind_def moves_def split: prod.split sum.split)

lemma snd_on_db: "snd (on_db conv f c) = c\<lparr> c_db := snd (f (c_db c)) \<rparr>"
  by (simp add: on_db_def split: prod.split sum.split)

lemma budget_reconcile:
  assumes "budget c" "c_tick c = m # ms"
  shows "budget (snd (reconcile_machine F hosts m (c\<lparr> c_tick := ms \<rparr>)))"
proof -
  define action where "action = decide (ms_running (mo_spec m)) False \<lparr> ob_state = st_state (mo_status m),
    ob_host_assigned = (mo_host_id m \<noteq> None), ob_retry_count = st_retry_count (mo_status m) \<rparr> MAX_RETRIES"
  define f where "f = (if action = Retry then on_db id (store_update F ''increment_retry_count'' IncrementRetryCount (ByUid (mo_uid m)))
    else ctl_return 0)"
  have "budget (snd (f (c\<lparr> c_tick := ms \<rparr>)))"
  proof (rule budget_counted [OF assms])
    show "c_tick (snd (f (c\<lparr> c_tick := ms \<rparr>))) = ms" by (simp add: f_def snd_on_db ctl_return_def)
  next
    fix v n
    assume "(v, n) \<in> counters (c_db (snd (f (c\<lparr> c_tick := ms \<rparr>))))"
    moreover have "st_retry_count (mo_status m) < 3" if "action = Retry"
      using decide_retry [OF that [unfolded action_def]] by simp
    ultimately show "(v, n) \<in> counters (c_db c) \<or> v = mo_uid m \<and> (v, n - 1) \<in> counters (c_db c) \<and> st_retry_count (mo_status m) < 3"
      using counters_increment [of v n F _ "mo_uid m" "c_db c"]
      by (auto simp: f_def snd_on_db ctl_return_def split: if_splits)
  qed
  moreover have "keeps_counters (snd (f (c\<lparr> c_tick := ms \<rparr>))) (snd (reconcile_machine F hosts m (c\<lparr> c_tick := ms \<rparr>)))"
    unfolding reconcile_machine_def Let_def action_def [symmetric] f_def [symmetric]
    by (rule counting_bind) (rule counting_tick.actuate_moves)
  ultimately show ?thesis by (rule budget_kept [rotated])
qed

lemma budget_tick_next: "budget c \<Longrightarrow> budget (tick_next F c)"
proof (cases "c_tick c")
  case (Cons m ms)
  assume "budget c"
  then have "budget (snd (reconcile_machine F hosts m (c\<lparr> c_tick := ms \<rparr>)))" for hosts
    using Cons by (rule budget_reconcile)
  then show ?thesis
    by (auto simp: tick_next_def Cons budget_def split: prod.split sum.split) (metis snd_conv)+
qed (simp add: tick_next_def)

lemma into_machine_counter:
  "into_machine r = Inr m \<Longrightarrow> mo_uid m = r_uid r \<and> uint (st_retry_count (mo_status m)) = js_retry_count (r_status r)"
  by (auto simp: into_machine_def status_from_json_def res_bind_Inr_iff uint_word_of_int split: sum.splits if_splits)

lemma collect_rows_counters:
  "collect_rows rs = Inr ms \<Longrightarrow>
   map (\<lambda>m. (mo_uid m, uint (st_retry_count (mo_status m)))) ms = map (\<lambda>r. (r_uid r, js_retry_count (r_status r))) rs"
  by (induction rs arbitrary: ms) (auto simp: res_bind_Inr_iff dest: into_machine_counter)

lemma budget_loaded:
  assumes "db_typed (c_db c)" "collect_rows (db_machines (c_db c)) = Inr ms" "budget c"
  shows "budget (c\<lparr> c_tick := ms, c_tick_hosts := hosts \<rparr>)"
proof -
  let ?row = "\<lambda>r. (r_uid r, js_retry_count (r_status r))"
  let ?mac = "\<lambda>m. (mo_uid m, uint (st_retry_count (mo_status m)))"
  have eq: "map ?mac ms = map ?row (db_machines (c_db c))" by (rule collect_rows_counters [OF assms(2)])
  then have "map fst (map ?mac ms) = map fst (map ?row (db_machines (c_db c)))" by simp
  then have uids: "map mo_uid ms = map r_uid (db_machines (c_db c))" by (simp add: comp_def)
  then have d: "distinct (map mo_uid ms)" using assms(1) by (simp add: db_typed_def)
  have "counters (c_db c) = set (map ?mac ms)" unfolding eq by (simp add: counters_def)
  then have c: "counters (c_db c) = ?mac ` set ms" by simp
  have "n = uint (st_retry_count (mo_status m))" if "m \<in> set ms" "(mo_uid m, n) \<in> counters (c_db c)" for m n
    using that d unfolding c by (auto simp: distinct_map dest: inj_onD)
  then show ?thesis using assms(3) d by (auto simp: budget_def)
qed

lemma budget_tick_begin:
  assumes "db_typed (c_db c)" "budget c"
  shows "budget (snd (tick_begin F now c))"
proof -
  have same: "c\<lparr> c_db := c_db c \<rparr> = c" by simp
  show ?thesis
    using assms(2) budget_loaded [OF assms(1) _ assms(2)]
    by (auto simp: tick_begin_def ctl_bind_def on_db_def list_all_machines_def live_host_capacities_def statement_def same
        split: sum.split)
qed

lemma counting_step:
  assumes "\<And>F now. s \<noteq> TickBegin F now" "\<And>F. s \<noteq> TickNext F"
  shows "keeps_counters c (ctl_do parse s c)"
proof (cases s)
  case (NamespaceCreate F cl name)
  have "moves keeps_counters (namespaces_create F cl name)"
    unfolding namespaces_create_def
    by (intro counting.moves_rules counting.audited_moves counting.moves_on_db keeps_counters_db) (simp_all add: counters_same)
  then show ?thesis by (simp add: NamespaceCreate moves_def)
next
  case (ReportEvent F u st ip)
  have "moves keeps_counters (report_event parse F u st ip)"
    unfolding report_event_def
    by (intro counting.moves_rules counting.moves_on_db keeps_counters_db) (simp_all add: counters_update)
  then show ?thesis by (simp add: ReportEvent moves_def)
next
  case (MachineSvcDelete F ref)
  have "moves keeps_counters (machine_svc_delete parse F ref)"
    unfolding machine_svc_delete_def
    by (intro counting.moves_rules counting.moves_query queries counting.moves_on_db counting.deletes)
  then show ?thesis by (simp add: MachineSvcDelete moves_def)
next
  case (Heartbeat F now h)
  then show ?thesis
    by (simp add: keeps_counters_def counters_def heartbeat_def ctl_bind_def ctl_return_def on_db_def touch_heartbeat_def statement_def)
next
  case (ReportCapacity F now h cap)
  then show ?thesis
    by (simp add: keeps_counters_def counters_def report_capacity_def on_db_def upsert_host_def statement_def Let_def)
next
  case (ExecPoll q t g)
  then show ?thesis by (auto simp: keeps_counters_def exec_poll_def Let_def split: option.split list.split)
next
  case (ReportExecResult cs)
  have "c_tick (report_exec_result cs c) = c_tick c"
    by (induction cs arbitrary: c) (auto simp: route_def split: option.split)
  then show ?thesis using report_exec_result_db by (simp add: ReportExecResult keeps_counters_def)
qed (use assms counting.machines_moves counting.exec_moves counting.snapshots_begin_moves counting.snapshots_await_moves
    counting.snapshots_delete_moves in \<open>simp_all add: moves_def\<close>, simp_all add: keeps_counters_def complete_def)

lemma budget_step:
  assumes "db_typed (c_db c)" "budget c"
  shows "budget (ctl_do parse s c)"
proof (cases "\<exists>F now. s = TickBegin F now \<or> s = TickNext F")
  case True
  then show ?thesis using budget_tick_begin [OF assms] budget_tick_next [OF assms(2)] by auto
next
  case False
  then show ?thesis using counting_step [of s c parse] budget_kept assms(2) by blast
qed

lemma budget_run: "db_typed (c_db c) \<Longrightarrow> budget c \<Longrightarrow> budget (ctl_run parse steps c)"
  using typed_step
  by (induction steps arbitrary: c) (auto simp: ctl_run_def keeps_typed_def budget_step)

text \<open>C9: A machine that keeps failing is retried at most three times.  From a well-typed database without retries and an idle loop,
  whatever clients and agents do and however their calls fall between the steps of a tick, no machine's counter ever exceeds
  three; and when the loop takes a failed machine whose counter has reached three, it changes nothing of the database and
  sends no assignment.\<close>
theorem retry_budget:
  assumes "db_typed (c_db c)" "\<forall>r \<in> set (db_machines (c_db c)). js_retry_count (r_status r) = 0" "c_tick c = []"
    and "c' = ctl_run parse steps c"
  shows "(\<forall>r \<in> set (db_machines (c_db c')). js_retry_count (r_status r) \<le> int (unat MAX_RETRIES)) \<and>
    (case c_tick c' of
       [] \<Rightarrow> True
     | m # ms \<Rightarrow> st_state (mo_status m) = State.Failed \<and> st_retry_count (mo_status m) = MAX_RETRIES \<longrightarrow>
         tick_next F c' = c'\<lparr> c_tick := ms \<rparr>)"
proof -
  have "budget c" using assms(2,3) by (auto simp: budget_def counters_def)
  then have "budget c'" using budget_run assms(1,4) by simp
  then have "\<forall>r \<in> set (db_machines (c_db c')). js_retry_count (r_status r) \<le> 3"
    by (auto simp: budget_def counters_def)
  then show ?thesis
    by (auto simp: tick_next_def reconcile_machine_def decide_def ctl_bind_def ctl_return_def Let_def split: list.split)
qed

text \<open>A database with one failed machine, placed on a host, that is meant to run.\<close>

definition failing :: ctl where
  "failing = ctl_start\<lparr> c_db := db_empty\<lparr> db_namespaces := [''prod''], db_machines := [
     \<lparr> r_uid = ''7'', r_namespace = ''prod'', r_fleet = [], r_name = ''web'',
       r_spec = \<lparr> ms_image = ''alpine'', ms_kernel = None, ms_vcpus = 1, ms_memory_mib = 128, ms_ssh = False, ms_workload = None,
                  ms_running = True \<rparr>,
       r_status = \<lparr> js_state = ''failed'', js_ip = None, js_health = [], js_host_id = None, js_retry_count = 0 \<rparr>,
       r_host_id = Some ''h1'' \<rparr>] \<rparr> \<rparr>"

lemma failing_typed: "db_typed (c_db failing)"
proof -
  have "\<exists>st. ''failed'' = as_str st" by (intro exI [of _ State.Failed]) simp
  then show ?thesis by (simp add: failing_def ctl_start_def db_empty_def db_typed_def row_typed_def)
qed

theorem retry_budget_witness:
  "list_all (\<lambda>r. js_retry_count (r_status r) \<le> 3)
     (db_machines (c_db (ctl_run (\<lambda>_. None) (concat (replicate 9 [TickBegin (\<lambda>_. False) 0, TickNext (\<lambda>_. False)])) failing)))"
proof -
  have "\<forall>r \<in> set (db_machines (c_db failing)). js_retry_count (r_status r) = 0" "c_tick failing = []"
    by (simp_all add: failing_def ctl_start_def)
  from retry_budget [OF failing_typed this refl, of "\<lambda>_. None" "concat (replicate 9 [TickBegin (\<lambda>_. False) 0, TickNext (\<lambda>_. False)])"]
  show ?thesis by (simp add: list_all_iff del: replicate.simps)
qed

end
