(* ===== verification/Agent.thy ===== *)
theory Agent
  imports Launch Control_Plane
begin

text \<open>
  The host agent (\<open>services/mm-agent/src\<close>): the registry of the machines it owns (\<open>local_store.rs\<close>), the capacity it
  advertises (\<open>capacity.rs\<close>), booting and stopping a machine (\<open>actuator.rs\<close>, over \<open>Launch.launch\<close>), and the handling of one
  assignment (\<open>main.rs\<close>).  The controller's tick, the agent's handling and the report back compose to the convergence
  of a machine.
\<close>

section \<open>The registry\<close>

record LocalMachine =
  lm_uid :: string
  lm_namespace :: string
  lm_name :: string
  lm_image :: string
  lm_vcpus :: u32
  lm_memory_mib :: u64
  lm_ip :: "string option"
  lm_pid :: "u32 option"
  lm_state :: string

text \<open>A table of records, iterated in the order of its keys; every transaction may fail.\<close>

type_synonym local_store = "(string \<times> LocalMachine) list"

definition local_put :: "faults \<Rightarrow> LocalMachine \<Rightarrow> local_store \<Rightarrow> string + local_store" where
  "local_put F m s =
     (if F ''put'' then Inl ''put'' else Inr (insort_key fst (lm_uid m, m) (filter (\<lambda>(k, _). k \<noteq> lm_uid m) s)))"

definition local_get :: "faults \<Rightarrow> string \<Rightarrow> local_store \<Rightarrow> string + LocalMachine option" where
  "local_get F uid s = (if F ''get'' then Inl ''get'' else Inr (map_of s uid))"

definition local_list :: "faults \<Rightarrow> local_store \<Rightarrow> string + LocalMachine list" where
  "local_list F s = (if F ''list'' then Inl ''list'' else Inr (map snd s))"

definition local_delete :: "faults \<Rightarrow> string \<Rightarrow> local_store \<Rightarrow> string + local_store" where
  "local_delete F uid s = (if F ''delete'' then Inl ''delete'' else Inr (filter (\<lambda>(k, _). k \<noteq> uid) s))"


section \<open>Capacity\<close>

record HostResources =
  hs_vcpus_total :: u32
  hs_mem_mib_total :: u64

definition compute :: "HostResources \<Rightarrow> (u32 \<times> u64) list \<Rightarrow> CapacityRow" where
  "compute hs running =
     (let used_vcpus = sum_list (map fst running); used_mem = sum_list (map snd running) in
      \<lparr> cr_vcpus_total = hs_vcpus_total hs, cr_vcpus_free = saturating_sub (hs_vcpus_total hs) used_vcpus,
        cr_mem_mib_total = hs_mem_mib_total hs, cr_mem_mib_free = saturating_sub (hs_mem_mib_total hs) used_mem \<rparr>)"

definition current_capacity :: "faults \<Rightarrow> HostResources \<Rightarrow> local_store \<Rightarrow> string + CapacityRow" where
  "current_capacity F hs s =
     res_bind (local_list F s) (\<lambda>ms.
       Inr (compute hs (map (\<lambda>m. (lm_vcpus m, lm_memory_mib m)) (filter (\<lambda>m. lm_state m = ''running'') ms))))"

text \<open>The parser of addresses of the standard library: four decimal numbers of one to three digits without leading zeros.\<close>

definition ip_part :: "string \<Rightarrow> u8 option" where
  "ip_part s =
     (if s = [] \<or> 3 < length s \<or> (1 < length s \<and> hd s = CHR ''0'') then None
      else (case digits_val 0 s of Some n \<Rightarrow> if n < 256 then Some (of_nat n) else None | None \<Rightarrow> None))"

definition ip_parse :: "string \<Rightarrow> ipv4 option" where
  "ip_parse s =
     (case map ip_part (split_on (CHR ''.'') s) of
        [Some a, Some b, Some c, Some d] \<Rightarrow> Some (a, b, c, d)
      | _ \<Rightarrow> None)"

definition reserved_ips :: "faults \<Rightarrow> local_store \<Rightarrow> string + ipv4 list" where
  "reserved_ips F s =
     res_bind (local_list F s) (\<lambda>ms. Inr (List.map_filter (\<lambda>m. Option.bind (lm_ip m) ip_parse) ms))"


section \<open>Assignments\<close>

record HostConfig =
  hf_state_root :: path
  hf_kernel_path :: path
  hf_mm_init_path :: path
  hf_sshd_path :: "path option"

record BootRequest =
  br_uid :: string
  br_namespace :: string
  br_name :: string
  br_image :: string
  br_cpus :: u8
  br_memory_mib :: u64
  br_ssh :: bool

definition boot :: "launch_env \<Rightarrow> HostConfig \<Rightarrow> BootRequest \<Rightarrow> ipv4 list \<Rightarrow> LocalMachine host_act" where
  "boot E hf req reserved =
     act_bind (launch E
       \<lparr> ls_image = br_image req, ls_name = br_name req, ls_cpus = br_cpus req, ls_memory_mib = br_memory_mib req,
         ls_ssh = br_ssh req, ls_detach = True, ls_state_root = hf_state_root hf, ls_kernel_path = hf_kernel_path hf,
         ls_mm_init_path = hf_mm_init_path hf, ls_sshd_path = hf_sshd_path hf, ls_reserved_ips = reserved \<rparr>) (\<lambda>outcome.
     act_return
       \<lparr> lm_uid = br_uid req, lm_namespace = br_namespace req, lm_name = br_name req, lm_image = br_image req,
         lm_vcpus = ucast (br_cpus req), lm_memory_mib = br_memory_mib req, lm_ip = Some (ip_string (lo_ip outcome)),
         lm_pid = Some (lo_pid outcome), lm_state = ''running'' \<rparr>)"

definition is_ascii_alphanumeric :: "char \<Rightarrow> bool" where
  "is_ascii_alphanumeric c \<longleftrightarrow>
     (let k = of_char c :: nat in 48 \<le> k \<and> k \<le> 57 \<or> 65 \<le> k \<and> k \<le> 90 \<or> 97 \<le> k \<and> k \<le> 122)"

definition host_name :: "string \<Rightarrow> string" where
  "host_name uid = CHR ''a'' # take 10 (filter is_ascii_alphanumeric uid)"

record event =
  ev_uid :: string
  ev_state :: int
  ev_message :: string
  ev_ip :: string

record agent =
  ag_store :: local_store
  ag_host :: host
  ag_killed :: "u32 list"
  ag_events :: "event list"

text \<open>A report is sent to the controller; a failure to deliver it is only logged.\<close>

definition report :: "string \<Rightarrow> State \<Rightarrow> string \<Rightarrow> string \<Rightarrow> agent \<Rightarrow> agent" where
  "report uid st message ip a =
     a\<lparr> ag_events := ag_events a @ [\<lparr> ev_uid = uid, ev_state = api_state_to_proto st, ev_message = message, ev_ip = ip \<rparr>] \<rparr>"

definition stop :: "LocalMachine \<Rightarrow> agent \<Rightarrow> agent" where
  "stop m a = (case lm_pid m of Some pid \<Rightarrow> a\<lparr> ag_killed := ag_killed a @ [pid] \<rparr> | None \<Rightarrow> a)"

definition boot_request :: "ProtoMachine \<Rightarrow> BootRequest" where
  "boot_request pm =
     \<lparr> br_uid = pm_uid pm, br_namespace = pm_namespace pm, br_name = host_name (pm_uid pm), br_image = pm_image pm,
       br_cpus = ucast (max 1 (min 255 (pm_vcpus pm))), br_memory_mib = pm_memory_mib pm, br_ssh = pm_ssh pm \<rparr>"

definition handle_assignment :: "launch_env \<Rightarrow> HostConfig \<Rightarrow> faults \<Rightarrow> ProtoMachine \<Rightarrow> agent \<Rightarrow> (string + unit) \<times> agent" where
  "handle_assignment E hf F pm a =
     (case local_get F (pm_uid pm) (ag_store a) of
        Inl e \<Rightarrow> (Inl e, a)
      | Inr existing \<Rightarrow>
          if pm_running pm then
            if (case existing of Some m \<Rightarrow> lm_state m = ''running'' | None \<Rightarrow> False) then (Inr (), a)
            else (case reserved_ips F (ag_store a) of
                    Inl e \<Rightarrow> (Inl e, a)
                  | Inr reserved \<Rightarrow>
                      (case boot E hf (boot_request pm) reserved (ag_host a) of
                         (Inr m, h) \<Rightarrow>
                           (case local_put F m (ag_store a) of
                              Inl e \<Rightarrow> (Inl e, a\<lparr> ag_host := h \<rparr>)
                            | Inr s \<Rightarrow>
                                (Inr (), report (pm_uid pm) State.Running ''booted'' (case lm_ip m of Some ip \<Rightarrow> ip | None \<Rightarrow> [])
                                           (a\<lparr> ag_host := h, ag_store := s \<rparr>)))
                       | (Inl e, h) \<Rightarrow> (Inr (), report (pm_uid pm) State.Failed e [] (a\<lparr> ag_host := h \<rparr>))))
          else
            (case existing of
               None \<Rightarrow> (Inr (), a)
             | Some m \<Rightarrow>
                 (let stopped = stop m a in
                  case local_put F (m\<lparr> lm_state := ''stopped'', lm_pid := None \<rparr>) (ag_store stopped) of
                    Inl e \<Rightarrow> (Inl e, stopped)
                  | Inr s \<Rightarrow> (Inr (), report (pm_uid pm) State.Stopped ''stopped'' [] (stopped\<lparr> ag_store := s \<rparr>)))))"


section \<open>Addresses\<close>

lemma hd_dec_of_nat: "0 < n \<Longrightarrow> hd (dec_of_nat n) \<noteq> CHR ''0''"
proof (induction n rule: less_induct)
  case (less n)
  show ?case
  proof (cases "n < 10")
    case True
    then have "n = 1 \<or> n = 2 \<or> n = 3 \<or> n = 4 \<or> n = 5 \<or> n = 6 \<or> n = 7 \<or> n = 8 \<or> n = 9" using less.prems by auto
    then show ?thesis by (subst dec_of_nat.simps) (auto simp: digit_char_def)
  next
    case False
    then show ?thesis using less.IH [of "n div 10"] by (subst dec_of_nat.simps) simp
  qed
qed

lemma ip_part_dec: "n < 256 \<Longrightarrow> ip_part (dec_of_nat n) = Some (of_nat n)"
proof -
  assume n: "n < 256"
  have "hd (dec_of_nat n) \<noteq> CHR ''0''" if "1 < length (dec_of_nat n)"
  proof (cases "n = 0")
    case True
    then show ?thesis using that by (subst (asm) dec_of_nat.simps) simp
  qed (use hd_dec_of_nat in simp)
  moreover have "length (dec_of_nat n) \<le> 3" using length_dec_of_nat [of n 3] n by simp
  ultimately show ?thesis using n digits_val_dec_of_nat [of n] by (auto simp: ip_part_def)
qed

lemma ip_part_octet: "ip_part (dec_of w) = Some w" for w :: u8
  using ip_part_dec [of "unat w"] unsigned_less [of w] by (simp add: dec_of_def)

lemma ip_parse_string [simp]: "ip_parse (ip_string a) = Some a"
proof -
  obtain w x y z where a: "a = (w, x, y, z)" by (cases a) auto
  have "CHR ''.'' \<notin> set (dec_of v)" for v :: u8
    using dec_of_nat_digits [of "unat v"] by (auto simp: dec_of_def)
  then have "split_on (CHR ''.'') (ip_string a) = [dec_of w, dec_of x, dec_of y, dec_of z]"
    unfolding a ip_string_def prod.case by (intro split_on_join) auto
  then show ?thesis by (simp add: ip_parse_def ip_part_octet a)
qed

section \<open>One assignment\<close>

lemma launch_ip:
  assumes "launch E spec h = (Inr out, h')"
  shows "\<exists>n. lo_ip out = (10, 0, 0, of_nat n) \<and> 2 \<le> n \<and> n \<le> 254 \<and> of_nat n \<notin> host_octet ` set (ls_reserved_ips spec)"
proof (rule launch_steps [OF assms], goal_cases)
  case (1 rp h1 ip tap h2 kvm h4 h5 key h6 argv)
  have "lo_ip out = ip" using start_worker_Inr [OF 1(7)] by blast
  then show ?case using alloc_bridge_net_Inr(1) [OF 1(2)] by simp
qed

lemma map_of_insort: "k \<notin> fst ` set s \<Longrightarrow> map_of (insort_key fst (k, v) s) = (map_of s)(k \<mapsto> v)"
  by (induction s) (auto simp: fun_eq_iff)

lemma local_put_get:
  assumes "local_put F m s = Inr s'"
  shows "map_of s' = (map_of s)(lm_uid m \<mapsto> m)"
proof -
  have "map_of (filter (\<lambda>(k, _). k \<noteq> lm_uid m) s) = (map_of s)(lm_uid m := None)"
    by (induction s) (auto simp: fun_eq_iff)
  moreover have "lm_uid m \<notin> fst ` set (filter (\<lambda>(k, _). k \<noteq> lm_uid m) s)" by auto
  note map_of_insort [OF this, of m]
  ultimately show ?thesis using assms by (simp add: local_put_def split: if_splits)
qed

text \<open>An assignment to run, for a machine the agent does not have running, whose launch succeeds.\<close>

definition assigned_spec :: "HostConfig \<Rightarrow> ProtoMachine \<Rightarrow> ipv4 list \<Rightarrow> LaunchSpec" where
  "assigned_spec hf pm reserved =
     \<lparr> ls_image = pm_image pm, ls_name = host_name (pm_uid pm), ls_cpus = ucast (max 1 (min 255 (pm_vcpus pm))),
       ls_memory_mib = pm_memory_mib pm, ls_ssh = pm_ssh pm, ls_detach = True, ls_state_root = hf_state_root hf,
       ls_kernel_path = hf_kernel_path hf, ls_mm_init_path = hf_mm_init_path hf, ls_sshd_path = hf_sshd_path hf,
       ls_reserved_ips = reserved \<rparr>"

lemma handle_boots:
  assumes "\<And>q. \<not> F q" "pm_running pm" "\<And>m. map_of (ag_store a) (pm_uid pm) = Some m \<Longrightarrow> lm_state m \<noteq> ''running''"
    and "reserved_ips F (ag_store a) = Inr reserved"
    and "launch E (assigned_spec hf pm reserved) (ag_host a) = (Inr out, h)"
  obtains a' where "handle_assignment E hf F pm a = (Inr (), a')"
    "ag_events a' = ag_events a @ [\<lparr> ev_uid = pm_uid pm, ev_state = api_state_to_proto State.Running, ev_message = ''booted'',
       ev_ip = ip_string (lo_ip out) \<rparr>]"
    "\<exists>m. map_of (ag_store a') = (map_of (ag_store a))(pm_uid pm \<mapsto> m) \<and> lm_state m = ''running'' \<and> lm_ip m = Some (ip_string (lo_ip out))"
proof -
  define m where "m = \<lparr> lm_uid = pm_uid pm, lm_namespace = pm_namespace pm, lm_name = host_name (pm_uid pm), lm_image = pm_image pm,
    lm_vcpus = ucast (br_cpus (boot_request pm)), lm_memory_mib = pm_memory_mib pm, lm_ip = Some (ip_string (lo_ip out)),
    lm_pid = Some (lo_pid out), lm_state = ''running'' \<rparr>"
  have b: "boot E hf (boot_request pm) reserved (ag_host a) = (Inr m, h)"
    using assms(5) by (simp add: boot_def boot_request_def assigned_spec_def act_bind_def act_return_def m_def)
  obtain s where s: "local_put F m (ag_store a) = Inr s" using assms(1) by (simp add: local_put_def)
  have g: "local_get F (pm_uid pm) (ag_store a) = Inr (map_of (ag_store a) (pm_uid pm))" using assms(1) by (simp add: local_get_def)
  have n: "\<not> (case map_of (ag_store a) (pm_uid pm) of Some m \<Rightarrow> lm_state m = ''running'' | None \<Rightarrow> False)"
    using assms(3) by (simp split: option.split)
  show thesis
  proof (rule that)
    show "handle_assignment E hf F pm a = (Inr (), report (pm_uid pm) State.Running ''booted'' (ip_string (lo_ip out))
        (a\<lparr> ag_host := h, ag_store := s \<rparr>))"
      using g n b s assms(2,4) by (simp add: handle_assignment_def m_def)
  qed (use local_put_get [OF s] in \<open>auto simp: report_def m_def\<close>)
qed

lemma reserved_ips_owned:
  assumes "reserved_ips F s = Inr reserved" "(k, m) \<in> set s" "lm_ip m = Some t" "ip_parse t = Some ip"
  shows "ip \<in> set reserved"
proof -
  have "reserved = List.map_filter (\<lambda>m. Option.bind (lm_ip m) ip_parse) (map snd s)"
    using assms(1) by (auto simp: reserved_ips_def local_list_def split: if_splits)
  moreover have "m \<in> set (map snd s)" using assms(2) by force
  ultimately show ?thesis using assms(3,4) by (cases ip) (auto simp: List.map_filter_def intro!: rev_image_eqI [of m])
qed


section \<open>Convergence\<close>

text \<open>The rows of a table whose identifiers are distinct, after an update of one of them.\<close>

lemma store_update_row:
  assumes "distinct (map r_uid (db_machines d))" "r \<in> set (db_machines d)" "update_row op r = Inr r'" "\<not> F q"
  shows "\<exists>n d'. store_update F q op (ByUid (r_uid r)) d = (Inr n, d') \<and> r' \<in> set (db_machines d') \<and>
    map r_uid (db_machines d') = map r_uid (db_machines d)"
proof -
  have "\<exists>rs'. update_rows op (ByUid (r_uid r)) rs = Inr rs' \<and> (r \<in> set rs \<longrightarrow> r' \<in> set rs') \<and> map r_uid rs' = map r_uid rs"
    if "distinct (map r_uid rs)" "\<forall>x \<in> set rs. r_uid x = r_uid r \<longrightarrow> x = r" for rs
    using that assms(3) update_row_keeps(1) [OF assms(3)] by (induction rs) (auto simp: res_bind_Inr_iff)
  moreover have "\<forall>x \<in> set (db_machines d). r_uid x = r_uid r \<longrightarrow> x = r"
    using assms(1,2) by (auto simp: distinct_map dest: inj_onD)
  ultimately obtain rs' where "update_rows op (ByUid (r_uid r)) (db_machines d) = Inr rs'" "r' \<in> set rs'"
    "map r_uid rs' = map r_uid (db_machines d)"
    using assms(1,2) by blast
  then show ?thesis using assms(4) by (simp add: store_update_def statement_def)
qed

lemma into_machine_fields:
  assumes "into_machine r = Inr m"
  shows "mo_uid m = r_uid r" "mo_spec m = r_spec r" "mo_host_id m = r_host_id r" "state_from_str (js_state (r_status r)) = Inr (st_state (mo_status m))"
  using assms by (auto simp: into_machine_def status_from_json_def res_bind_Inr_iff split: sum.splits if_splits)

lemma tick_places:
  assumes "db_typed (c_db c)" "r \<in> set (db_machines (c_db c))" "into_machine r = Inr m" "c_tick c = m # ms"
    and "ms_running (mo_spec m)" "st_state (mo_status m) = Created" "mo_host_id m = None"
    and "scheduler_place (map host_capacity (c_tick_hosts c)) \<lparr> dm_vcpus = ms_vcpus (mo_spec m), dm_mem_mib = ms_memory_mib (mo_spec m) \<rparr> = Some hc"
    and "c_assign c (hc_host_id hc) = Some ch" "ch_open ch" "\<And>q. \<not> F q"
  obtains d' where "tick_next F c = c\<lparr> c_tick := ms, c_db := d', c_assign := (c_assign c)(hc_host_id hc \<mapsto>
      ch\<lparr> ch_queue := ch_queue ch @ [Assignment (machine_to_proto (m\<lparr> mo_spec := (mo_spec m)\<lparr> ms_running := True \<rparr>,
        mo_host_id := Some (hc_host_id hc) \<rparr>))] \<rparr>) \<rparr>"
    "r\<lparr> r_host_id := Some (hc_host_id hc) \<rparr> \<in> set (db_machines d')" "map r_uid (db_machines d') = map r_uid (db_machines (c_db c))"
proof -
  have "distinct (map r_uid (db_machines (c_db c)))" using assms(1) by (simp add: db_typed_def)
  from store_update_row [OF this assms(2), of "AssignHost (hc_host_id hc)" _ F "''assign_host''"]
  obtain n d' where d: "store_update F ''assign_host'' (AssignHost (hc_host_id hc)) (ByUid (r_uid r)) (c_db c) = (Inr n, d')"
    "r\<lparr> r_host_id := Some (hc_host_id hc) \<rparr> \<in> set (db_machines d')" "map r_uid (db_machines d') = map r_uid (db_machines (c_db c))"
    using assms(11) by auto
  show thesis
  proof (rule that [OF _ d(2,3)], goal_cases)
    case 1
    show ?case
      using d(1) assms(4-10) into_machine_fields(1) [OF assms(3)]
      by (simp add: tick_next_def reconcile_machine_def decide_def assign_and_push_def push_def send_def Let_def ctl_bind_def
          ctl_return_def on_db_def)
  qed
qed

lemma report_running:
  assumes "distinct (map r_uid (db_machines (c_db c)))" "r \<in> set (db_machines (c_db c))" "parse (r_uid r) = Some (r_uid r)" "\<And>q. \<not> F q" "ip \<noteq> []"
  obtains d' where "report_event parse F (r_uid r) (api_state_to_proto st) ip c = (Inr (), c\<lparr> c_db := d' \<rparr>)"
    "r\<lparr> r_status := (r_status r)\<lparr> js_state := as_str st, js_ip := Some ip \<rparr> \<rparr> \<in> set (db_machines d')"
proof -
  from store_update_row [OF assms(1,2), of "SetObserved (as_str st) ip" _ F "''set_observed''"]
  obtain n d' where d: "store_update F ''set_observed'' (SetObserved (as_str st) ip) (ByUid (r_uid r)) (c_db c) = (Inr n, d')"
    "r\<lparr> r_status := (r_status r)\<lparr> js_state := as_str st, js_ip := Some ip \<rparr> \<rparr> \<in> set (db_machines d')"
    using assms(4) by auto
  then show thesis
    using assms(3,5) by (intro that [OF _ d(2)]) (simp add: report_event_def parse_uid_def ctl_bind_def ctl_return_def on_db_def)
qed

lemma settled:
  assumes "into_machine r = Inr m" "js_state (r_status r) = as_str State.Running" "ms_running (r_spec r)" "c_tick c = m # ms"
  shows "tick_next F c = c\<lparr> c_tick := ms \<rparr>"
proof -
  have "st_state (mo_status m) = State.Running" "ms_running (mo_spec m)"
    using into_machine_fields [OF assms(1)] assms(2,3) by (simp_all del: as_str.simps)
  then show ?thesis
    using assms(4) by (simp add: tick_next_def reconcile_machine_def decide_def ctl_bind_def ctl_return_def Let_def)
qed

lemma ip_string_nonempty: "ip_string ip \<noteq> []"
  using ip_parse_string [of ip] by (auto simp: ip_parse_def ip_part_def)

text \<open>C4: A machine that should run comes to run, and then the control plane is at rest.  Let the loop take a machine that has just been
  created and is placed on no host, with a live host that has room for it and whose agent is connected.  Then the tick
  records the host and queues one assignment for its agent; the agent, which does not have the machine running and whose
  launch succeeds, registers it as running with an address that shares its last octet with no address of its other machines; the event it
  reports makes the row of the machine running, on that host, with that address; and from then on a tick that takes the
  machine changes nothing and sends nothing.\<close>
theorem assignment_converges:
  fixes hc m
  defines "pm \<equiv> machine_to_proto (m\<lparr> mo_spec := (mo_spec m)\<lparr> ms_running := True \<rparr>, mo_host_id := Some (hc_host_id hc) \<rparr>)"
  assumes "db_typed (c_db c)" "r \<in> set (db_machines (c_db c))" "into_machine r = Inr m" "c_tick c = m # ms"
    and "ms_running (mo_spec m)" "st_state (mo_status m) = Created" "mo_host_id m = None"
    and "scheduler_place (map host_capacity (c_tick_hosts c)) \<lparr> dm_vcpus = ms_vcpus (mo_spec m), dm_mem_mib = ms_memory_mib (mo_spec m) \<rparr> = Some hc"
    and "c_assign c (hc_host_id hc) = Some ch" "ch_open ch" "\<And>q. \<not> F q" "parse (mo_uid m) = Some (mo_uid m)"
    and "\<And>x. map_of (ag_store a) (mo_uid m) = Some x \<Longrightarrow> lm_state x \<noteq> ''running''" "reserved_ips F (ag_store a) = Inr reserved"
    and "launch E (assigned_spec hf pm reserved) (ag_host a) = (Inr out, h)"
  shows "\<exists>a1 lm c2 r2.
    c_assign (tick_next F c) (hc_host_id hc) = Some (ch\<lparr> ch_queue := ch_queue ch @ [Assignment pm] \<rparr>) \<and>
    handle_assignment E hf F pm a = (Inr (), a1) \<and>
    map_of (ag_store a1) = (map_of (ag_store a))(mo_uid m \<mapsto> lm) \<and> lm_state lm = ''running'' \<and> lm_ip lm = Some (ip_string (lo_ip out)) \<and>
    (\<forall>k x t ip. (k, x) \<in> set (ag_store a) \<and> lm_ip x = Some t \<and> ip_parse t = Some ip \<longrightarrow> host_octet ip \<noteq> host_octet (lo_ip out)) \<and>
    (case last (ag_events a1) of e \<Rightarrow> report_event parse F (ev_uid e) (ev_state e) (ev_ip e) (tick_next F c)) = (Inr (), c2) \<and>
    r2 \<in> set (db_machines (c_db c2)) \<and> r_uid r2 = mo_uid m \<and> r_host_id r2 = Some (hc_host_id hc) \<and>
    js_state (r_status r2) = as_str State.Running \<and> js_ip (r_status r2) = lm_ip lm \<and>
    (\<forall>c3 m3 ms3 G. into_machine r2 = Inr m3 \<and> c_tick c3 = m3 # ms3 \<longrightarrow> tick_next G c3 = c3\<lparr> c_tick := ms3 \<rparr>)"
proof -
  let ?h = "hc_host_id hc" and ?ip = "ip_string (lo_ip out)"
  let ?r1 = "r\<lparr> r_host_id := Some ?h \<rparr>"
  let ?r2 = "?r1\<lparr> r_status := (r_status ?r1)\<lparr> js_state := as_str State.Running, js_ip := Some ?ip \<rparr> \<rparr>"
  note f = into_machine_fields [OF assms(4)]
  have pm: "pm_uid pm = mo_uid m" "pm_running pm" by (simp_all add: pm_def machine_to_proto_def)
  obtain d1 where t: "tick_next F c = c\<lparr> c_tick := ms, c_db := d1, c_assign := (c_assign c)(?h \<mapsto> ch\<lparr> ch_queue := ch_queue ch @ [Assignment pm] \<rparr>) \<rparr>"
    and d1: "?r1 \<in> set (db_machines d1)" "map r_uid (db_machines d1) = map r_uid (db_machines (c_db c))"
    unfolding pm_def by (rule tick_places [OF assms(2-12)])
  obtain a1 where a1: "handle_assignment E hf F pm a = (Inr (), a1)"
    "ag_events a1 = ag_events a @ [\<lparr> ev_uid = pm_uid pm, ev_state = api_state_to_proto State.Running, ev_message = ''booted'', ev_ip = ?ip \<rparr>]"
    "\<exists>m. map_of (ag_store a1) = (map_of (ag_store a))(pm_uid pm \<mapsto> m) \<and> lm_state m = ''running'' \<and> lm_ip m = Some ?ip"
    by (rule handle_boots [OF assms(12) pm(2) _ assms(15,16)]) (use assms(14) pm(1) in auto)
  obtain lm where lm: "map_of (ag_store a1) = (map_of (ag_store a))(mo_uid m \<mapsto> lm)" "lm_state lm = ''running''" "lm_ip lm = Some ?ip"
    using a1(3) pm(1) by auto
  have "distinct (map r_uid (db_machines (c_db (tick_next F c))))" using d1(2) assms(2) by (simp add: t db_typed_def)
  moreover have "?r1 \<in> set (db_machines (c_db (tick_next F c)))" using d1(1) by (simp add: t)
  moreover have "parse (r_uid ?r1) = Some (r_uid ?r1)" using assms(13) f(1) by simp
  ultimately obtain d2 where d2: "report_event parse F (r_uid ?r1) (api_state_to_proto State.Running) ?ip (tick_next F c)
      = (Inr (), (tick_next F c)\<lparr> c_db := d2 \<rparr>)" "?r2 \<in> set (db_machines d2)"
    by (rule report_running [OF _ _ _ assms(12) ip_string_nonempty])
  have ip: "host_octet ip \<noteq> host_octet (lo_ip out)" if "(k, x) \<in> set (ag_store a)" "lm_ip x = Some t" "ip_parse t = Some ip" for k x t ip
  proof -
    obtain n where n: "lo_ip out = (10, 0, 0, of_nat n)" "of_nat n \<notin> host_octet ` set reserved"
      using launch_ip [OF assms(16)] by (auto simp: assigned_spec_def)
    have "host_octet ip \<in> host_octet ` set reserved" using reserved_ips_owned [OF assms(15) that] by (rule imageI)
    moreover have "host_octet (lo_ip out) = of_nat n" by (simp add: n(1) host_octet_def)
    ultimately show ?thesis using n(2) by metis
  qed
  have "ms_running (r_spec ?r2)" using assms(6) f(2) by simp
  then have rest: "tick_next G c3 = c3\<lparr> c_tick := ms3 \<rparr>" if "into_machine ?r2 = Inr m3" "c_tick c3 = m3 # ms3" for c3 m3 ms3 G
    using settled [OF that(1) _ _ that(2)] by simp
  show ?thesis
    by (intro exI [of _ a1] exI [of _ lm] exI [of _ "(tick_next F c)\<lparr> c_db := d2 \<rparr>"] exI [of _ ?r2] conjI)
      (use a1(1,2) lm d2 ip rest f(1) pm(1) in \<open>auto simp: t\<close>)
qed

text \<open>A machine just created, a host with room for it, and the host's agent, which has no machine.\<close>

definition fresh_row :: MachineRow where
  "fresh_row = \<lparr> r_uid = ''7'', r_namespace = ''prod'', r_fleet = [], r_name = ''web'',
     r_spec = \<lparr> ms_image = ''b'', ms_kernel = None, ms_vcpus = 1, ms_memory_mib = 64, ms_ssh = False, ms_workload = None, ms_running = True \<rparr>,
     r_status = status_to_json status_default, r_host_id = None \<rparr>"

definition fresh_machine :: ApiMachine where
  "fresh_machine = \<lparr> mo_uid = ''7'', mo_namespace = ''prod'', mo_fleet = [], mo_name = ''web'', mo_spec = r_spec fresh_row,
     mo_status = status_default, mo_host_id = None \<rparr>"

definition fresh_ctl :: ctl where
  "fresh_ctl = ctl_start\<lparr> c_db := db_empty\<lparr> db_namespaces := [''prod''], db_machines := [fresh_row] \<rparr>, c_tick := [fresh_machine],
     c_tick_hosts := [(''h1'', \<lparr> cr_vcpus_total = 8, cr_vcpus_free = 8, cr_mem_mib_total = 1024, cr_mem_mib_free = 1024 \<rparr>)],
     c_assign := [''h1'' \<mapsto> \<lparr> ch_open = True, ch_queue = [] \<rparr>] \<rparr>"

definition idle_agent :: agent where
  "idle_agent = \<lparr> ag_store = [], ag_host = \<lparr> ho_fs = stale_fs, ho_log = [] \<rparr>, ag_killed = [], ag_events = [] \<rparr>"

definition demo_hf :: HostConfig where
  "demo_hf = \<lparr> hf_state_root = [''srv''], hf_kernel_path = [''srv'', ''vmlinux''], hf_mm_init_path = [''srv'', ''init''], hf_sshd_path = None \<rparr>"

definition demo_hc :: HostCapacity where
  "demo_hc = \<lparr> hc_host_id = ''h1'', hc_vcpus_free = 8, hc_mem_mib_free = 1024, hc_healthy = True \<rparr>"

definition demo_pm :: ProtoMachine where
  "demo_pm = machine_to_proto (fresh_machine\<lparr> mo_spec := (mo_spec fresh_machine)\<lparr> ms_running := True \<rparr>, mo_host_id := Some (hc_host_id demo_hc) \<rparr>)"

lemma demo_spec: "assigned_spec demo_hf demo_pm [] = stale_spec"
  by (simp add: assigned_spec_def demo_hf_def demo_pm_def machine_to_proto_def fresh_machine_def fresh_row_def stale_spec_def host_name_def
      is_ascii_alphanumeric_def)

lemma fresh_typed: "db_typed (c_db fresh_ctl)"
  using row_typed_default by (simp add: fresh_ctl_def fresh_row_def ctl_start_def db_empty_def db_typed_def)

theorem assignment_converges_witness:
  "\<exists>a1 lm. handle_assignment stale_env demo_hf (\<lambda>_. False) demo_pm idle_agent = (Inr (), a1) \<and>
     map_of (ag_store a1) = [''7'' \<mapsto> lm] \<and> lm_state lm = ''running''"
proof -
  have "goes (launch stale_env (assigned_spec demo_hf demo_pm []))" unfolding demo_spec by (rule stale_launch)
  then obtain out h where l: "launch stale_env (assigned_spec demo_hf demo_pm []) (ag_host idle_agent) = (Inr out, h)"
    using like_stale_start by (auto simp: goes_def idle_agent_def)
  have r: "fresh_row \<in> set (db_machines (c_db fresh_ctl))" "c_tick fresh_ctl = fresh_machine # []"
    "c_assign fresh_ctl (hc_host_id demo_hc) = Some \<lparr> ch_open = True, ch_queue = [] \<rparr>"
    by (simp_all add: fresh_ctl_def demo_hc_def)
  have m: "into_machine fresh_row = Inr fresh_machine"
    by (simp add: into_machine_def fresh_row_def fresh_machine_def res_bind_Inr_iff)
  have s: "ms_running (mo_spec fresh_machine)" "st_state (mo_status fresh_machine) = Created" "mo_host_id fresh_machine = None"
    by (simp_all add: fresh_machine_def fresh_row_def status_default_def)
  have p: "scheduler_place (map host_capacity (c_tick_hosts fresh_ctl))
      \<lparr> dm_vcpus = ms_vcpus (mo_spec fresh_machine), dm_mem_mib = ms_memory_mib (mo_spec fresh_machine) \<rparr> = Some demo_hc"
    by (simp add: scheduler_place_def host_capacity_def fresh_ctl_def fresh_machine_def fresh_row_def demo_hc_def)
  have "reserved_ips (\<lambda>_. False) (ag_store idle_agent) = Inr []"
    by (simp add: reserved_ips_def local_list_def idle_agent_def List.map_filter_def res_bind_Inr_iff)
  from assignment_converges [OF fresh_typed r(1) m r(2) s p r(3) _ _ _ _ this l [unfolded demo_pm_def], of "\<lambda>s. Some s"] show ?thesis
    unfolding demo_pm_def by (auto simp: idle_agent_def fresh_machine_def)
qed

end
